(* ===== verification/Paved_Prelude.thy ===== *)
theory Paved_Prelude
  imports Complex_Main
begin

text \<open>
  What every theory of the development shares: Go's \<open>error\<close> values and the \<open>if err != nil
  { return err }\<close> idiom as a result type, loops that stop at the first error, map lookups with
  Go's zero value, and the named collections of simplification rules the component theories fill.
\<close>

named_theorems go_defs \<open>definitions of the Go standard library functions the sources call\<close>
named_theorems slo_defs \<open>definitions of package slo\<close>
named_theorems builder_defs \<open>definitions of package builders\<close>
named_theorems ctl_defs \<open>definitions of package controller\<close>
named_theorems result_iff \<open>when a computation in the result type succeeds\<close>

section \<open>Errors\<close>

text \<open>
  A Go error is observed in three ways by these sources: its text (\<open>err.Error()\<close>, \<open>%v\<close>),
  whether \<open>apierrors.IsNotFound\<close> holds of it, and whether \<open>errors.Is(err, slo.ErrNoData)\<close> does.
  The last two see through \<open>%w\<close> wrapping, so wrapping keeps the constructor.
\<close>

datatype error =
    Errorf string
  | NotFound string
  | NoData string

fun error_text :: "error \<Rightarrow> string" where
  "error_text (Errorf s) = s"
| "error_text (NotFound s) = s"
| "error_text (NoData s) = s"

fun is_not_found :: "error \<Rightarrow> bool" where
  "is_not_found (NotFound _) = True"
| "is_not_found _ = False"

fun is_no_data :: "error \<Rightarrow> bool" where
  "is_no_data (NoData _) = True"
| "is_no_data _ = False"

text \<open>\<open>fmt.Errorf(prefix + "%w" + suffix, ..., err)\<close>.\<close>

fun wrap_error :: "string \<Rightarrow> error \<Rightarrow> string \<Rightarrow> error" where
  "wrap_error p (Errorf s) q = Errorf (p @ s @ q)"
| "wrap_error p (NotFound s) q = NotFound (p @ s @ q)"
| "wrap_error p (NoData s) q = NoData (p @ s @ q)"

lemma is_not_found_wrap [simp]: "is_not_found (wrap_error p e q) = is_not_found e"
  by (cases e) simp_all

lemma is_no_data_wrap [simp]: "is_no_data (wrap_error p e q) = is_no_data e"
  by (cases e) simp_all

lemma error_text_wrap [simp]: "error_text (wrap_error p e q) = p @ error_text e @ q"
  by (cases e) simp_all

section \<open>Results\<close>

type_synonym 'a result = "error + 'a"

fun and_then :: "'a result \<Rightarrow> ('a \<Rightarrow> 'b result) \<Rightarrow> 'b result" where
  "and_then (Inl e) f = Inl e"
| "and_then (Inr x) f = f x"

fun map_error :: "(error \<Rightarrow> error) \<Rightarrow> 'a result \<Rightarrow> 'a result" where
  "map_error g (Inl e) = Inl (g e)"
| "map_error g (Inr x) = Inr x"

definition succeeds :: "'a result \<Rightarrow> bool" where
  "succeeds r \<longleftrightarrow> \<not> isl r"

lemma succeeds_simps [simp]: "succeeds (Inr x)" "\<not> succeeds (Inl e)"
  by (simp_all add: succeeds_def)

lemma succeeds_iff: "succeeds r \<longleftrightarrow> (\<exists>x. r = Inr x)"
  by (cases r) simp_all

lemma and_then_Inr_iff [result_iff]: "and_then m f = Inr y \<longleftrightarrow> (\<exists>x. m = Inr x \<and> f x = Inr y)"
  by (cases m) simp_all

lemma and_then_Inl_iff: "and_then m f = Inl e \<longleftrightarrow> m = Inl e \<or> (\<exists>x. m = Inr x \<and> f x = Inl e)"
  by (cases m) simp_all

lemma map_error_Inr_iff [result_iff]: "map_error g m = Inr y \<longleftrightarrow> m = Inr y"
  by (cases m) simp_all

lemma succeeds_and_then [result_iff]: "succeeds (and_then m f) \<longleftrightarrow> (\<exists>x. m = Inr x \<and> succeeds (f x))"
  by (cases m) simp_all

lemma succeeds_map_error [simp]: "succeeds (map_error g m) = succeeds m"
  by (cases m) simp_all

text \<open>
  \<open>for _, x := range xs { y, err := f(x); if err != nil { return nil, err }; ys = append(ys, y) }\<close>
\<close>

fun traverse :: "('a \<Rightarrow> 'b result) \<Rightarrow> 'a list \<Rightarrow> 'b list result" where
  "traverse f [] = Inr []"
| "traverse f (x # xs) = and_then (f x) (\<lambda>y. and_then (traverse f xs) (\<lambda>ys. Inr (y # ys)))"

lemma traverse_Inr_iff [result_iff]:
  "traverse f xs = Inr ys \<longleftrightarrow> list_all2 (\<lambda>x y. f x = Inr y) xs ys"
  by (induction xs arbitrary: ys) (auto simp: result_iff list_all2_Cons1)

lemma traverse_succeeds [result_iff]:
  "succeeds (traverse f xs) \<longleftrightarrow> (\<forall>x \<in> set xs. succeeds (f x))"
  by (induction xs) (auto simp: result_iff succeeds_iff)

lemma traverse_length: "traverse f xs = Inr ys \<Longrightarrow> length ys = length xs"
  by (auto simp: result_iff dest: list_all2_lengthD)

lemma traverse_total: "(\<And>x. x \<in> set xs \<Longrightarrow> f x = Inr (g x)) \<Longrightarrow> traverse f xs = Inr (map g xs)"
  by (induction xs) simp_all

text \<open>Reading a pointwise relation between two lists as facts about the second one.\<close>

lemma list_all2_map_eq: "list_all2 (\<lambda>x y. f y = g x) xs ys \<Longrightarrow> map f ys = map g xs"
  by (induction rule: list_all2_induct) simp_all

lemma list_all2_ballD: "list_all2 (\<lambda>x y. P y) xs ys \<Longrightarrow> y \<in> set ys \<Longrightarrow> P y"
  by (auto simp: list_all2_conv_all_nth in_set_conv_nth)

section \<open>Go maps\<close>

text \<open>\<open>m[k]\<close> on a \<open>map[string]string\<close>: a missing key reads as the empty string.\<close>

type_synonym labels = "string \<rightharpoonup> string"

definition map_get :: "labels \<Rightarrow> string \<Rightarrow> string" where
  "map_get m k = (case m k of None \<Rightarrow> [] | Some v \<Rightarrow> v)"

lemma map_get_upd [simp]: "map_get (m(k \<mapsto> v)) k' = (if k' = k then v else map_get m k')"
  by (simp add: map_get_def)

lemma map_get_empty [simp]: "map_get Map.empty k = []"
  by (simp add: map_get_def)

lemma map_get_le: "m \<subseteq>\<^sub>m m' \<Longrightarrow> m k = Some v \<Longrightarrow> map_get m' k = v"
  by (metis map_get_def map_le_def domI option.simps(5))

text \<open>A selector's \<open>matchLabels\<close>: every label it names has that value on the object.\<close>

definition selects :: "labels \<Rightarrow> labels \<Rightarrow> bool" where
  "selects sel obj \<longleftrightarrow> sel \<subseteq>\<^sub>m obj"

end
