(* ===== verification/Go_Float.thy ===== *)
theory Go_Float
  imports Paved_Prelude "HOL-Library.Log_Nat"
begin

text \<open>
  Go's \<open>float64\<close>: IEEE 754 binary64 with rounding to nearest, ties to even, as the language
  specifies. A finite value is the rational it denotes; every operation computes the exact
  rational and rounds it once. The two zeros are one value: no code of this repository observes
  the sign of a zero (divisors are never negative zero, and \<open>max(x, 0)\<close> is \<open>+0\<close>).
  The locale \<open>rounding\<close> is what the SLO arithmetic relies on, and \<open>r64\<close> interprets it on the
  binary64 rounding defined here.
\<close>

section \<open>Powers of two and binary exponents\<close>

definition pow2 :: "int \<Rightarrow> rat" where
  "pow2 e = (if 0 \<le> e then 2 ^ nat e else 1 / 2 ^ nat (- e))"

lemma pow2_powi: "pow2 e = power_int 2 e"
  by (simp add: pow2_def power_int_def field_simps)

lemma pow2_pos [simp]: "0 < pow2 e"
  by (simp add: pow2_def)

lemma pow2_nonneg [simp]: "0 \<le> pow2 e"
  by (simp add: less_imp_le)

lemma pow2_neq_0 [simp]: "pow2 e \<noteq> 0"
  using pow2_pos [of e] by linarith

lemma pow2_add: "pow2 (a + b) = pow2 a * pow2 b"
  by (simp add: pow2_powi power_int_add)

lemma pow2_diff: "pow2 (a - b) = pow2 a / pow2 b"
  by (simp add: pow2_powi power_int_diff)

lemma pow2_0 [simp]: "pow2 0 = 1"
  by (simp add: pow2_def)

lemma pow2_le_iff [simp]: "pow2 a \<le> pow2 b \<longleftrightarrow> a \<le> b"
proof -
  have "pow2 a \<le> pow2 b" if "a \<le> b" for a b
    unfolding pow2_powi using that by (intro power_int_increasing) auto
  moreover have "pow2 a < pow2 b" if "a < b" for a b
    unfolding pow2_powi using that by (intro power_int_strict_increasing) auto
  ultimately show ?thesis by (meson linorder_not_le)
qed

lemma pow2_less_iff [simp]: "pow2 a < pow2 b \<longleftrightarrow> a < b"
  by (simp add: linorder_not_le [symmetric])

lemma pow2_of_int: "0 \<le> e \<Longrightarrow> pow2 e = of_int (2 ^ nat e)"
  by (simp add: pow2_def)

definition log2_floor :: "rat \<Rightarrow> int" where
  "log2_floor q =
     (let (n, d) = quotient_of q; t = bitlen n - bitlen d
      in if pow2 t \<le> q then t else t - 1)"

lemma bitlen_bounds_pow2:
  assumes "0 < n"
  shows "pow2 (bitlen n - 1) \<le> of_int n" "of_int n < pow2 (bitlen n)"
proof -
  from assms have b: "1 \<le> bitlen n" using bitlen_nonneg [of n] bitlen_eq_zero_iff [of n] by linarith
  from assms have "2 ^ nat (bitlen n - 1) \<le> n \<and> n < 2 ^ nat (bitlen n)"
    by (rule bitlen_bounds)
  then show "pow2 (bitlen n - 1) \<le> of_int n" "of_int n < pow2 (bitlen n)"
    using b by (simp_all add: pow2_of_int del: of_int_power)
qed


lemma log2_floor_bounds:
  assumes "0 < q"
  shows "pow2 (log2_floor q) \<le> q" "q < pow2 (log2_floor q + 1)"
proof -
  obtain n d where nd: "quotient_of q = (n, d)" by (cases "quotient_of q")
  then have d: "0 < d" and q: "q = of_int n / of_int d"
    by (simp_all add: quotient_of_denom_pos quotient_of_div)
  with assms have n: "0 < n" by (simp add: zero_less_divide_iff)
  define t where "t = bitlen n - bitlen d"
  note bn = bitlen_bounds_pow2 [OF n] and bd = bitlen_bounds_pow2 [OF d]
  have "q < pow2 (bitlen n) / pow2 (bitlen d - 1)"
    unfolding q using bn(2) bd(1) d n by (intro frac_less) auto
  also have "\<dots> = pow2 (t + 1)" by (simp add: t_def pow2_diff [symmetric] algebra_simps)
  finally have up: "q < pow2 (t + 1)" .
  have "pow2 (t - 1) = pow2 (bitlen n - 1) / pow2 (bitlen d)"
    by (simp add: t_def pow2_diff [symmetric] algebra_simps)
  also have "\<dots> \<le> q"
    unfolding q using bn(1) bd(2) d n by (intro frac_le) auto
  finally have lo: "pow2 (t - 1) \<le> q" .
  have "log2_floor q = (if pow2 t \<le> q then t else t - 1)"
    by (simp add: log2_floor_def nd t_def Let_def)
  with up lo show "pow2 (log2_floor q) \<le> q" "q < pow2 (log2_floor q + 1)"
    by (auto simp: not_le)
qed

lemma log2_floor_mono:
  assumes "0 < p" "p \<le> q"
  shows "log2_floor p \<le> log2_floor q"
proof -
  have "pow2 (log2_floor p) \<le> p" using assms(1) by (rule log2_floor_bounds)
  also note assms(2)
  also have "q < pow2 (log2_floor q + 1)" using assms by (intro log2_floor_bounds) simp
  finally show ?thesis by simp
qed

lemma log2_floor_less: "0 < q \<Longrightarrow> q < pow2 k \<Longrightarrow> log2_floor q < k"
  using log2_floor_bounds(1) [of q] pow2_less_iff [of "log2_floor q" k] by linarith

section \<open>Rounding to an integer, ties to even\<close>

definition round_even :: "rat \<Rightarrow> int" where
  "round_even x =
     (let f = \<lfloor>x\<rfloor>; d = x - of_int f
      in if d < 1 / 2 then f else if 1 / 2 < d then f + 1 else if even f then f else f + 1)"

lemma round_even_of_int [simp]: "round_even (of_int k) = k"
  by (simp add: round_even_def)

lemma round_even_cases: "round_even x = \<lfloor>x\<rfloor> \<or> round_even x = \<lfloor>x\<rfloor> + 1"
  by (simp add: round_even_def Let_def)

lemma round_even_mono:
  assumes "x \<le> y"
  shows "round_even x \<le> round_even y"
proof (cases "\<lfloor>x\<rfloor> = \<lfloor>y\<rfloor>")
  case True
  with assms show ?thesis by (auto simp: round_even_def Let_def)
next
  case False
  with assms have "\<lfloor>x\<rfloor> + 1 \<le> \<lfloor>y\<rfloor>" using floor_mono [of x y] by linarith
  then show ?thesis using round_even_cases [of x] round_even_cases [of y] by linarith
qed

lemma round_even_near: "\<bar>of_int (round_even x) - x\<bar> \<le> 1 / 2"
proof -
  define d where "d = x - of_int \<lfloor>x\<rfloor>"
  have "0 \<le> d" "d < 1" by (simp_all add: d_def) linarith
  moreover have "of_int (round_even x) - x = (if round_even x = \<lfloor>x\<rfloor> then - d else 1 - d)"
    using round_even_cases [of x] by (auto simp: d_def)
  moreover have "round_even x = \<lfloor>x\<rfloor> \<Longrightarrow> d \<le> 1 / 2" "round_even x \<noteq> \<lfloor>x\<rfloor> \<Longrightarrow> 1 / 2 \<le> d"
    by (auto simp: round_even_def Let_def d_def split: if_splits)
  ultimately show ?thesis by (simp split: if_splits)
qed

lemma round_even_le: "x \<le> of_int k \<Longrightarrow> round_even x \<le> k"
  using round_even_mono [of x "of_int k"] by simp

lemma round_even_ge: "of_int k \<le> x \<Longrightarrow> k \<le> round_even x"
  using round_even_mono [of "of_int k" x] by simp

section \<open>Rounding to binary64\<close>

text \<open>
  \<open>quantum q\<close> is the exponent of the unit in the last place of a positive \<open>q\<close>: 52 below its
  leading bit, or \<open>- 1074\<close> for a subnormal. \<open>rnd\<close> rounds with an exponent unbounded above;
  \<open>round64\<close> turns a result of \<open>2 ^ 1024\<close> or more into an infinity.
\<close>

definition quantum :: "rat \<Rightarrow> int" where
  "quantum q = max (log2_floor q - 52) (- 1074)"

definition rnd_pos :: "rat \<Rightarrow> rat" where
  "rnd_pos q = (let e = quantum q in of_int (round_even (q / pow2 e)) * pow2 e)"

definition rnd :: "rat \<Rightarrow> rat" where
  "rnd q = (if q = 0 then 0 else if 0 < q then rnd_pos q else - rnd_pos (- q))"

definition representable :: "rat \<Rightarrow> bool" where
  "representable x \<longleftrightarrow> (\<exists>m e. x = of_int m * pow2 e \<and> \<bar>m\<bar> < 2 ^ 53 \<and> - 1074 \<le> e)"

lemma representableI: "x = of_int m * pow2 e \<Longrightarrow> \<bar>m\<bar> < 2 ^ 53 \<Longrightarrow> - 1074 \<le> e \<Longrightarrow> representable x"
  unfolding representable_def by blast

lemma rnd_minus [simp]: "rnd (- q) = - rnd q"
  by (simp add: rnd_def)

lemma rnd_0 [simp]: "rnd 0 = 0"
  by (simp add: rnd_def)

lemma representable_minus [simp]: "representable (- x) = representable x"
proof -
  have "representable (- x)" if "representable x" for x
  proof -
    from that obtain m e where "x = of_int m * pow2 e" "\<bar>m\<bar> < 2 ^ 53" "- 1074 \<le> e"
      unfolding representable_def by blast
    then show ?thesis by (intro representableI [of _ "- m" e]) simp_all
  qed
  from this [of x] this [of "- x"] show ?thesis by auto
qed

lemma representable_pow2: "- 1074 \<le> e \<Longrightarrow> representable (pow2 e)"
  by (rule representableI [of _ 1 e]) simp_all

lemma representable_of_int: "\<bar>m\<bar> < 2 ^ 53 \<Longrightarrow> representable (of_int m)"
  by (rule representableI [of _ m 0]) simp_all

lemma rnd_pos_ge_pow2:
  assumes "pow2 k \<le> q" and "quantum q \<le> k"
  shows "pow2 k \<le> rnd_pos q"
proof -
  let ?e = "quantum q"
  have "of_int (2 ^ nat (k - ?e)) \<le> q / pow2 ?e"
    using assms by (simp add: pow2_of_int [symmetric] pow2_diff divide_right_mono del: of_int_power)
  then have "2 ^ nat (k - ?e) \<le> round_even (q / pow2 ?e)" by (rule round_even_ge)
  then have "of_int (2 ^ nat (k - ?e)) * pow2 ?e \<le> of_int (round_even (q / pow2 ?e)) * pow2 ?e"
    by (intro mult_right_mono) (simp_all only: of_int_le_iff pow2_nonneg)
  then show ?thesis
    using assms(2) by (simp add: rnd_pos_def Let_def pow2_of_int [symmetric] pow2_diff del: of_int_power)
qed

lemma rnd_pos_le_pow2:
  assumes "q \<le> pow2 k" and "quantum q \<le> k"
  shows "rnd_pos q \<le> pow2 k"
proof -
  let ?e = "quantum q"
  have "q / pow2 ?e \<le> of_int (2 ^ nat (k - ?e))"
    using assms by (simp add: pow2_of_int [symmetric] pow2_diff divide_right_mono del: of_int_power)
  then have "round_even (q / pow2 ?e) \<le> 2 ^ nat (k - ?e)" by (rule round_even_le)
  then have "of_int (round_even (q / pow2 ?e)) * pow2 ?e \<le> of_int (2 ^ nat (k - ?e)) * pow2 ?e"
    by (intro mult_right_mono) (simp_all only: of_int_le_iff pow2_nonneg)
  then show ?thesis
    using assms(2) by (simp add: rnd_pos_def Let_def pow2_of_int [symmetric] pow2_diff del: of_int_power)
qed


lemma rnd_pos_mono:
  assumes "0 < p" and "p \<le> q"
  shows "rnd_pos p \<le> rnd_pos q"
proof (cases "quantum p = quantum q")
  case True
  have "p / pow2 (quantum q) \<le> q / pow2 (quantum q)"
    using assms by (intro divide_right_mono) simp_all
  then show ?thesis
    by (simp add: rnd_pos_def Let_def True mult_right_mono round_even_mono)
next
  case False
  let ?k = "log2_floor q"
  have l: "log2_floor p \<le> ?k" using assms by (rule log2_floor_mono)
  with False have k: "?k - 52 = quantum q" "log2_floor p < ?k" "quantum p \<le> ?k"
    by (auto simp: quantum_def max_def split: if_splits)
  have "pow2 (log2_floor p + 1) \<le> pow2 ?k" using k(2) by simp
  with log2_floor_bounds(2) [OF assms(1)] have "p \<le> pow2 ?k" by linarith
  then have "rnd_pos p \<le> pow2 ?k" using k(3) by (rule rnd_pos_le_pow2)
  also have "\<dots> \<le> rnd_pos q"
    using assms k(1) by (intro rnd_pos_ge_pow2 log2_floor_bounds) auto
  finally show ?thesis .
qed

lemma rnd_pos_nonneg: "0 \<le> q \<Longrightarrow> 0 \<le> rnd_pos q"
  using round_even_mono [of 0 "q / pow2 (quantum q)"] round_even_of_int [of 0]
  by (simp add: rnd_pos_def Let_def)

lemma rnd_mono: "p \<le> q \<Longrightarrow> rnd p \<le> rnd q"
  using rnd_pos_mono [of p q] rnd_pos_mono [of "- q" "- p"]
    rnd_pos_nonneg [of q] rnd_pos_nonneg [of "- p"]
  by (auto simp: rnd_def)

lemma rnd_pos_representable:
  assumes "0 < q" and "representable q"
  shows "rnd_pos q = q"
proof -
  from assms(2) obtain m e where q: "q = of_int m * pow2 e" and m: "\<bar>m\<bar> < 2 ^ 53" and e: "- 1074 \<le> e"
    unfolding representable_def by blast
  have "of_int m < pow2 53" using m by (simp add: pow2_def)
  then have "q < pow2 (53 + e)" using q by (simp add: pow2_add)
  then have "log2_floor q < 53 + e" using assms(1) by (intro log2_floor_less)
  with e have le: "quantum q \<le> e" by (simp add: quantum_def)
  have "q / pow2 (quantum q) = of_int (m * 2 ^ nat (e - quantum q))"
    using le by (simp add: q pow2_of_int [symmetric] pow2_diff del: of_int_power)
  then have "of_int (round_even (q / pow2 (quantum q))) = q / pow2 (quantum q)"
    by (simp only: round_even_of_int)
  then show ?thesis by (simp add: rnd_pos_def Let_def)
qed

lemma rnd_representable: "representable q \<Longrightarrow> rnd q = q"
  using rnd_pos_representable [of q] rnd_pos_representable [of "- q"] by (simp add: rnd_def)

lemma representable_rnd_pos:
  assumes "0 < q"
  shows "representable (rnd_pos q)"
proof -
  let ?e = "quantum q" and ?m = "round_even (q / pow2 (quantum q))"
  have "log2_floor q + 1 \<le> 53 + ?e" by (simp add: quantum_def)
  then have "q < pow2 (53 + ?e)"
    using log2_floor_bounds(2) [OF assms] pow2_le_iff [of "log2_floor q + 1" "53 + ?e"] by linarith
  then have "q / pow2 ?e < pow2 53" by (simp add: pow2_add divide_less_eq)
  then have "?m \<le> 2 ^ 53" by (intro round_even_le) (simp add: pow2_def)
  moreover have "0 \<le> ?m" using assms by (intro round_even_ge) simp
  moreover have r: "rnd_pos q = of_int ?m * pow2 ?e" by (simp add: rnd_pos_def Let_def)
  ultimately consider "?m = 2 ^ 53" | "\<bar>?m\<bar> < 2 ^ 53" by linarith
  then show ?thesis
  proof cases
    case 1
    then have "rnd_pos q = pow2 (53 + ?e)" unfolding r by (simp add: pow2_add) (simp add: pow2_def)
    then show ?thesis by (simp add: representable_pow2 quantum_def)
  next
    case 2
    then show ?thesis by (intro representableI [OF r]) (simp_all add: quantum_def)
  qed
qed

lemma representable_rnd: "representable (rnd q)"
  using representable_rnd_pos [of q] representable_rnd_pos [of "- q"] representable_of_int [of 0]
  by (simp add: rnd_def)

text \<open>
  A quotient of representable numbers is below one only if it is below the predecessor of one.
  So a rounded quotient reaches one exactly when the numerator reaches the denominator.
\<close>

lemma representable_normal:
  assumes "0 < q" and "representable q"
  obtains k where "q = of_int k * pow2 (quantum q)" "0 < k" "k \<le> 2 ^ 53 - 1"
proof -
  let ?k = "round_even (q / pow2 (quantum q))"
  have q: "q = of_int ?k * pow2 (quantum q)"
    using rnd_pos_representable [OF assms] by (simp add: rnd_pos_def Let_def)
  with assms(1) have "0 < ?k" by (metis mult_less_0_iff of_int_0_less_iff not_less_iff_gr_or_eq pow2_pos mult_zero_left of_int_0 zero_less_mult_iff)
  have "log2_floor q + 1 \<le> 53 + quantum q" by (simp add: quantum_def)
  then have "q < pow2 (53 + quantum q)"
    using log2_floor_bounds(2) [OF assms(1)] pow2_le_iff [of "log2_floor q + 1" "53 + quantum q"]
    by linarith
  then have "of_int ?k * pow2 (quantum q) < pow2 53 * pow2 (quantum q)"
    using q by (simp add: pow2_add)
  then have "of_int ?k < pow2 53" by simp
  also have "pow2 53 = of_int (2 ^ 53)" by (simp add: pow2_def)
  finally have "?k < 2 ^ 53" by (simp only: of_int_less_iff)
  with q \<open>0 < ?k\<close> show thesis by (intro that [of ?k]) simp_all
qed

lemma quantum_mono: "0 < p \<Longrightarrow> p \<le> q \<Longrightarrow> quantum p \<le> quantum q"
  using log2_floor_mono [of p q] by (simp add: quantum_def)

lemma representable_below:
  assumes x: "0 < x" "representable x" and b: "representable b" and less: "x < b"
  shows "x \<le> b * (1 - pow2 (- 53))"
proof (cases "quantum x = quantum b")
  case True
  define u where "u = pow2 (quantum b)"
  have u: "0 < u" by (simp add: u_def)
  obtain j where j: "x = of_int j * u" using representable_normal [OF x] True u_def by metis
  obtain k where k: "b = of_int k * u" "k \<le> 2 ^ 53 - 1"
    using representable_normal [OF _ b] x(1) less u_def by (metis order.strict_trans)
  from less j k(1) u have "j + 1 \<le> k" by simp
  then have "of_int (j + 1) * u \<le> of_int k * u"
    using u by (intro mult_right_mono) (simp_all only: of_int_le_iff less_imp_le)
  then have "x \<le> b - u" using j k(1) by (simp add: algebra_simps)
  moreover have "b * pow2 (- 53) \<le> u"
  proof -
    have "of_int k \<le> pow2 53" using k(2) by (simp add: pow2_def)
    then have "of_int k * pow2 (- 53) \<le> pow2 53 * pow2 (- 53)" by (intro mult_right_mono) simp_all
    then have "of_int k * pow2 (- 53) \<le> 1" by (simp flip: pow2_add)
    then have "of_int k * pow2 (- 53) * u \<le> 1 * u" using u by (intro mult_right_mono) simp_all
    then show ?thesis using k(1) by (simp add: mult_ac)
  qed
  ultimately show ?thesis by (simp add: algebra_simps)
next
  case False
  let ?l = "log2_floor b"
  have b0: "0 < b" using x(1) less by simp
  from quantum_mono [of x b] x(1) less False have q: "quantum x \<le> quantum b - 1" by simp
  then have l: "quantum b = ?l - 52" by (auto simp: quantum_def max_def split: if_splits)
  obtain j where j: "x = of_int j * pow2 (quantum x)" "0 < j" "j \<le> 2 ^ 53 - 1"
    using representable_normal [OF x] by metis
  have "of_int j * pow2 (quantum x) \<le> (pow2 53 - 1) * pow2 (quantum x)"
    using j(3) by (intro mult_right_mono) (simp_all add: pow2_def [of 53])
  then have "x \<le> (pow2 53 - 1) * pow2 (quantum x)" using j(1) by simp
  also have "\<dots> \<le> (pow2 53 - 1) * pow2 (?l - 53)"
    using q l by (intro mult_left_mono) (simp_all add: pow2_def [of 53])
  also have "\<dots> = pow2 ?l * (1 - pow2 (- 53))"
    by (simp add: algebra_simps flip: pow2_add)
  also have "\<dots> \<le> b * (1 - pow2 (- 53))"
    using log2_floor_bounds(1) [OF b0] by (intro mult_right_mono) (simp_all add: pow2_def [of "- 53"])
  finally show ?thesis .
qed

lemma representable_pred_one: "representable (1 - pow2 (- 53))"
  by (rule representableI [of _ "2 ^ 53 - 1" "- 53"]) (simp_all add: pow2_def)


section \<open>The laws of rounding\<close>

text \<open>
  What the arithmetic of the SLO package relies on: rounding is monotone, keeps what is already
  representable, and always lands on a representable number; one is representable, and
  representable numbers below it keep their distance from it, in quotients too.
\<close>

locale rounding =
  fixes rn :: "rat \<Rightarrow> rat" and repr :: "rat \<Rightarrow> bool"
  assumes rn_mono: "p \<le> q \<Longrightarrow> rn p \<le> rn q"
    and rn_repr: "repr x \<Longrightarrow> rn x = x"
    and repr_rn: "repr (rn q)"
    and repr_zero: "repr 0"
begin

lemma rn_ge: "repr a \<Longrightarrow> a \<le> q \<Longrightarrow> a \<le> rn q"
  using rn_mono [of a q] rn_repr [of a] by simp

lemma rn_le: "repr a \<Longrightarrow> q \<le> a \<Longrightarrow> rn q \<le> a"
  using rn_mono [of q a] rn_repr [of a] by simp

lemma rn_idem: "rn (rn q) = rn q"
  by (rule rn_repr) (rule repr_rn)

lemma rn_nonneg: "0 \<le> q \<Longrightarrow> 0 \<le> rn q"
  by (rule rn_ge) (rule repr_zero)

lemma rn_nonpos: "q \<le> 0 \<Longrightarrow> rn q \<le> 0"
  by (rule rn_le) (rule repr_zero)

end

locale unit_rounding = rounding +
  fixes eps :: rat
  assumes repr_one: "repr 1"
    and repr_pred: "repr (1 - eps)"
    and repr_eps: "repr eps"
    and eps_pos: "0 < eps"
    and eps_less: "eps < 1"
    and below: "0 < x \<Longrightarrow> repr x \<Longrightarrow> repr b \<Longrightarrow> x < b \<Longrightarrow> x \<le> b * (1 - eps)"
begin

lemma quotient_less_one_iff:
  assumes "repr x" "repr b" "0 \<le> x" "0 < b"
  shows "rn (x / b) < 1 \<longleftrightarrow> x < b"
proof
  assume "x < b"
  with assms below [of x b] eps_less have "x \<le> b * (1 - eps)" by (cases "x = 0") simp_all
  with assms(4) have "x / b \<le> 1 - eps" by (simp add: divide_le_eq mult.commute)
  then have "rn (x / b) \<le> 1 - eps" by (rule rn_le [OF repr_pred])
  with eps_pos show "rn (x / b) < 1" by linarith
next
  assume "rn (x / b) < 1"
  then have "\<not> 1 \<le> x / b" using rn_ge [OF repr_one, of "x / b"] by linarith
  with assms(4) show "x < b" by (simp add: le_divide_eq not_le)
qed

lemma complement_pos_iff:
  assumes "repr r"
  shows "0 < rn (1 - r) \<longleftrightarrow> r < 1"
proof
  assume r: "r < 1"
  have "eps \<le> 1 - r"
  proof (cases "0 < r")
    case True
    with below [OF this assms repr_one r] show ?thesis by simp
  next
    case False
    with eps_less show ?thesis by linarith
  qed
  then have "eps \<le> rn (1 - r)" by (rule rn_ge [OF repr_eps])
  with eps_pos show "0 < rn (1 - r)" by linarith
next
  assume "0 < rn (1 - r)"
  with rn_nonpos [of "1 - r"] show "r < 1" by linarith
qed

end

interpretation r64: rounding rnd representable
  by unfold_locales (simp_all add: rnd_mono rnd_representable representable_rnd representable_of_int [of 0, simplified])

interpretation u64: unit_rounding rnd representable "pow2 (- 53)"
  using representable_pow2 [of 0] representable_pow2 [of "- 53"]
  by unfold_locales
    (simp_all add: representable_pred_one representable_below, simp_all add: pow2_def)

section \<open>float64 values\<close>

datatype float64 = NaN | PosInf | NegInf | Fin rat

text \<open>A result with a leading bit of weight \<open>2 ^ 1024\<close> or more overflows to an infinity.\<close>

definition overflows :: "rat \<Rightarrow> bool" where
  "overflows r \<longleftrightarrow> r \<noteq> 0 \<and> 1024 \<le> log2_floor \<bar>r\<bar>"

definition round64 :: "rat \<Rightarrow> float64" where
  "round64 q =
     (let r = rnd q
      in if overflows r then if 0 < r then PosInf else NegInf else Fin r)"

fun f64_ok :: "float64 \<Rightarrow> bool" where
  "f64_ok (Fin x) \<longleftrightarrow> representable x \<and> \<not> overflows x"
| "f64_ok _ \<longleftrightarrow> True"

lemma overflows_iff: "overflows r \<longleftrightarrow> pow2 1024 \<le> \<bar>r\<bar>"
proof (cases "r = 0")
  case True
  then show ?thesis using pow2_pos [of 1024] by (simp add: overflows_def not_le)
next
  case False
  define l where "l = log2_floor \<bar>r\<bar>"
  from False have "0 < \<bar>r\<bar>" by simp
  note bounds = log2_floor_bounds [OF this, folded l_def]
  have "1024 \<le> l \<longleftrightarrow> pow2 1024 \<le> \<bar>r\<bar>"
  proof
    assume "1024 \<le> l"
    then have "pow2 1024 \<le> pow2 l" by (simp only: pow2_le_iff)
    with bounds(1) show "pow2 1024 \<le> \<bar>r\<bar>" by (rule order_trans [rotated])
  next
    assume "pow2 1024 \<le> \<bar>r\<bar>"
    then have "pow2 1024 < pow2 (l + 1)" using bounds(2) by (rule le_less_trans)
    then show "1024 \<le> l" unfolding pow2_less_iff by linarith
  qed
  with False show ?thesis by (simp only: overflows_def l_def) simp
qed

lemma round64_ok [simp]: "f64_ok (round64 q)"
  by (simp add: round64_def Let_def r64.repr_rn)

lemma not_overflows_le: "\<bar>x\<bar> \<le> \<bar>y\<bar> \<Longrightarrow> \<not> overflows y \<Longrightarrow> \<not> overflows x"
  by (simp add: overflows_iff)

lemma not_overflows_one [simp]: "\<not> overflows 1" "\<not> overflows 0"
  using pow2_less_iff [of 0 1024] by (simp_all add: overflows_iff not_le)

fun is_finite :: "float64 \<Rightarrow> bool" where
  "is_finite (Fin _) = True"
| "is_finite _ = False"

text \<open>Go's comparison operators: every comparison with NaN is false.\<close>

fun f_less :: "float64 \<Rightarrow> float64 \<Rightarrow> bool" where
  "f_less (Fin x) (Fin y) = (x < y)"
| "f_less NegInf (Fin _) = True"
| "f_less NegInf PosInf = True"
| "f_less (Fin _) PosInf = True"
| "f_less _ _ = False"

fun f_le :: "float64 \<Rightarrow> float64 \<Rightarrow> bool" where
  "f_le NaN _ = False"
| "f_le _ NaN = False"
| "f_le x y = (\<not> f_less y x)"

text \<open>The built-in \<open>max\<close> and \<open>min\<close>: NaN if any argument is.\<close>

fun f_max :: "float64 \<Rightarrow> float64 \<Rightarrow> float64" where
  "f_max NaN _ = NaN"
| "f_max _ NaN = NaN"
| "f_max x y = (if f_less x y then y else x)"

fun f_min :: "float64 \<Rightarrow> float64 \<Rightarrow> float64" where
  "f_min NaN _ = NaN"
| "f_min _ NaN = NaN"
| "f_min x y = (if f_less y x then y else x)"

fun f_neg :: "float64 \<Rightarrow> float64" where
  "f_neg NaN = NaN"
| "f_neg PosInf = NegInf"
| "f_neg NegInf = PosInf"
| "f_neg (Fin x) = Fin (- x)"

fun f_add :: "float64 \<Rightarrow> float64 \<Rightarrow> float64" where
  "f_add (Fin x) (Fin y) = round64 (x + y)"
| "f_add NaN _ = NaN"
| "f_add _ NaN = NaN"
| "f_add PosInf NegInf = NaN"
| "f_add NegInf PosInf = NaN"
| "f_add PosInf _ = PosInf"
| "f_add _ PosInf = PosInf"
| "f_add NegInf _ = NegInf"
| "f_add _ NegInf = NegInf"

definition f_sub :: "float64 \<Rightarrow> float64 \<Rightarrow> float64" where
  "f_sub x y = f_add x (f_neg y)"

definition signed_inf :: "rat \<Rightarrow> float64" where
  "signed_inf s = (if 0 < s then PosInf else if s < 0 then NegInf else NaN)"

fun f_sign :: "float64 \<Rightarrow> rat" where
  "f_sign NaN = 0"
| "f_sign PosInf = 1"
| "f_sign NegInf = - 1"
| "f_sign (Fin x) = sgn x"

fun f_mul :: "float64 \<Rightarrow> float64 \<Rightarrow> float64" where
  "f_mul (Fin x) (Fin y) = round64 (x * y)"
| "f_mul NaN _ = NaN"
| "f_mul _ NaN = NaN"
| "f_mul x y = signed_inf (f_sign x * f_sign y)"

text \<open>A zero divisor is \<open>+0\<close>: nonzero over it is an infinity, zero over it is NaN.\<close>

fun f_div :: "float64 \<Rightarrow> float64 \<Rightarrow> float64" where
  "f_div (Fin x) (Fin y) = (if y = 0 then signed_inf x else round64 (x / y))"
| "f_div NaN _ = NaN"
| "f_div _ NaN = NaN"
| "f_div (Fin _) _ = Fin 0"
| "f_div x (Fin y) = (if y = 0 then x else signed_inf (f_sign x * sgn y))"
| "f_div _ _ = NaN"

end
