(* ===== verification/Go_Strconv.thy ===== *)
theory Go_Strconv
  imports Go_Float Go_Strings
begin

text \<open>
  Numbers as text: \<open>big.Rat\<close> to and from decimal notation (\<open>SetString\<close>, \<open>FloatPrec\<close>,
  \<open>FloatString\<close>) and \<open>strconv.FormatFloat\<close> and \<open>ParseFloat\<close>. The round trip of a finite decimal
  through \<open>FloatString\<close> and \<open>SetString\<close> is proved here, since thresholds and budgets travel to
  Prometheus as such text.
\<close>

section \<open>Reading a decimal\<close>

text \<open>
  \<open>split_decimal s\<close> splits plain decimal notation \<open>iii.fff\<close> into its integer and fraction digits:
  digits with at most one point, and at least one digit. \<open>(*big.Rat).SetString\<close> accepts more
  (signs, exponents, fractions); the sources only pass it text of this form.
\<close>

definition split_decimal :: "string \<Rightarrow> (string \<times> string) option" where
  "split_decimal s =
     (let i = takeWhile is_digit s; r = dropWhile is_digit s
      in case r of
           [] \<Rightarrow> if i = [] then None else Some (i, [])
         | c # f \<Rightarrow>
             if c = CHR ''.'' \<and> list_all is_digit f \<and> \<not> (i = [] \<and> f = []) then Some (i, f) else None)"

definition decimal_val :: "string \<times> string \<Rightarrow> rat" where
  "decimal_val p = of_int (digits_val (fst p @ snd p)) / 10 ^ length (snd p)"

definition rat_set_string :: "string \<Rightarrow> rat option" where
  "rat_set_string s = map_option decimal_val (split_decimal s)"

lemma takeWhile_digits:
  "list_all is_digit i \<Longrightarrow> takeWhile is_digit (i @ CHR ''.'' # f) = i"
  "list_all is_digit i \<Longrightarrow> dropWhile is_digit (i @ CHR ''.'' # f) = CHR ''.'' # f"
  by (induction i) simp_all

lemma split_decimal_int: "list_all is_digit i \<Longrightarrow> i \<noteq> [] \<Longrightarrow> split_decimal i = Some (i, [])"
  by (simp add: split_decimal_def list_all_iff Let_def takeWhile_eq_all_conv [THEN iffD2]
      dropWhile_eq_Nil_conv [THEN iffD2])

lemma split_decimal_point:
  "list_all is_digit i \<Longrightarrow> list_all is_digit f \<Longrightarrow> i \<noteq> [] \<Longrightarrow>
     split_decimal (i @ CHR ''.'' # f) = Some (i, f)"
  by (simp add: split_decimal_def takeWhile_digits)

lemma split_decimal_digits:
  "split_decimal s = Some (i, f) \<Longrightarrow> list_all is_digit (i @ f)"
  by (auto simp: split_decimal_def Let_def list_all_iff dest: set_takeWhileD
      split: list.splits if_splits)

lemma rat_set_string_nonneg: "rat_set_string s = Some r \<Longrightarrow> 0 \<le> r"
  by (auto simp: rat_set_string_def decimal_val_def dest!: split_decimal_digits digits_val_nonneg)

section \<open>Writing a rational\<close>

text \<open>\<open>factor_count p d\<close> is how often \<open>p\<close> divides \<open>d\<close>; \<open>factor_rest\<close> what is left of \<open>d\<close>.\<close>

function factor_count :: "int \<Rightarrow> int \<Rightarrow> nat" where
  "factor_count p d = (if 1 < p \<and> 0 < d \<and> d mod p = 0 then Suc (factor_count p (d div p)) else 0)"
  by pat_completeness auto
termination
  by (relation "measure (\<lambda>(p, d). nat d)") (auto simp: int_div_less_self)

declare factor_count.simps [simp del]

definition factor_rest :: "int \<Rightarrow> int \<Rightarrow> int" where
  "factor_rest p d = d div p ^ factor_count p d"

text \<open>\<open>(*big.Rat).FloatPrec\<close>: the digits after the point, and whether they are exact.\<close>

definition float_prec :: "rat \<Rightarrow> nat \<times> bool" where
  "float_prec r =
     (let d = snd (quotient_of r); d2 = factor_rest 2 d
      in (max (factor_count 2 d) (factor_count 5 d2), factor_rest 5 d2 = 1))"

text \<open>
  \<open>(*big.Rat).FloatString(prec)\<close>: integer part, point, and \<open>prec\<close> digits, the last one rounded
  half away from zero.
\<close>

definition float_string :: "rat \<Rightarrow> nat \<Rightarrow> string" where
  "float_string x prec =
     (let (a, d) = quotient_of x; n = \<bar>a\<bar>; sign = (if a < 0 then ''-'' else [])
      in if d = 1 then sign @ utoa n @ (if 0 < prec then CHR ''.'' # replicate prec CHR ''0'' else [])
         else
           let q = n div d; r = n mod d; p = 10 ^ prec; r1 = (r * p) div d; r2 = (r * p) mod d;
               up = d \<le> r2 + r2; r3 = (if up then r1 + 1 else r1);
               (q', r') = (if up \<and> p \<le> r3 then (q + 1, r3 - p) else (q, r3))
           in sign @ utoa q' @ (if 0 < prec then CHR ''.'' # zero_pad prec (utoa r') else []))"

lemma factor_count_step:
  "1 < p \<Longrightarrow> 0 < k \<Longrightarrow> factor_count p (p * k) = Suc (factor_count p k)"
  by (subst factor_count.simps) (simp add: zero_less_mult_iff)

lemma factor_count_0: "\<not> (1 < p \<and> 0 < d \<and> d mod p = 0) \<Longrightarrow> factor_count p d = 0"
  by (subst factor_count.simps) auto

lemma factor_count_dvd: "0 < d \<Longrightarrow> p ^ factor_count p d dvd d"
proof (induction p d rule: factor_count.induct)
  case (1 p d)
  show ?case
  proof (cases "1 < p \<and> 0 < d \<and> d mod p = 0")
    case True
    then obtain k where k: "d = p * k" "0 < k"
      by (auto elim: dvdE simp: mod_eq_0_iff_dvd zero_less_mult_iff)
    with True "1.IH" have "p ^ factor_count p k dvd k" by simp
    with True k show ?thesis by (simp add: factor_count_step)
  next
    case False
    then show ?thesis by (simp add: factor_count_0)
  qed
qed

lemma factor_split: "0 < d \<Longrightarrow> d = p ^ factor_count p d * factor_rest p d"
  by (simp add: factor_rest_def factor_count_dvd)

lemma factor_rest_pos: "0 < d \<Longrightarrow> 0 < p \<Longrightarrow> 0 < factor_rest p d"
  using factor_split [of d p] by (metis zero_less_mult_iff zero_less_power order.asym)

lemma float_prec_exact:
  assumes "float_prec r = (k, True)"
  shows "snd (quotient_of r) dvd 10 ^ k"
proof -
  define d where "d = snd (quotient_of r)"
  have d: "0 < d" using quotient_of_denom_pos' [of r] by (simp add: d_def)
  define a where "a = factor_count 2 d"
  define d2 where "d2 = factor_rest 2 d"
  define b where "b = factor_count 5 d2"
  from assms have k: "k = max a b" and rest: "factor_rest 5 d2 = 1"
    by (auto simp: float_prec_def Let_def a_def b_def d2_def d_def)
  have e: "d = 2 ^ a * d2" using factor_split [OF d, of 2] by (simp add: a_def d2_def)
  have "0 < d2" using d by (simp add: d2_def factor_rest_pos)
  then have "d2 = 5 ^ b" using factor_split [of d2 5] rest by (simp add: b_def)
  with e have "d = 2 ^ a * 5 ^ b" by simp
  moreover have "(2::int) ^ a dvd 2 ^ k" "(5::int) ^ b dvd 5 ^ k" using k by (auto intro: le_imp_power_dvd)
  moreover have "(10::int) ^ k = 2 ^ k * 5 ^ k" by (simp flip: power_mult_distrib)
  ultimately show ?thesis by (simp add: d_def [symmetric] mult_dvd_mono)
qed

lemma factor_rest_not_dvd:
  assumes "1 < p" "0 < d"
  shows "\<not> p dvd factor_rest p d"
  using assms
proof (induction p d rule: factor_count.induct)
  case (1 p d)
  show ?case
  proof (cases "d mod p = 0")
    case True
    with "1.prems" obtain k where k: "d = p * k" "0 < k"
      by (auto elim: dvdE simp: mod_eq_0_iff_dvd zero_less_mult_iff)
    then have "factor_rest p d = factor_rest p k"
      using "1.prems" by (simp add: factor_rest_def factor_count_step)
    with "1.IH" True "1.prems" k show ?thesis by simp
  next
    case False
    then show ?thesis by (simp add: factor_rest_def factor_count_0 dvd_eq_mod_eq_0)
  qed
qed

lemma coprime_ten_dvd_power:
  assumes "0 < m" "m dvd 10 ^ k" "\<not> 2 dvd m" "\<not> 5 dvd (m::int)"
  shows "m = 1"
proof -
  define g where "g = gcd m 10"
  have g: "g dvd 10" "g dvd m" "0 < g" by (simp_all add: g_def)
  from g(1) have "g \<le> 10" by (rule zdvd_imp_le) simp
  with g(3) have "g \<in> {1, 2, 3, 4, 5, 6, 7, 8, 9, 10}" by simp arith
  moreover have "\<not> 2 dvd g" "\<not> 5 dvd g" using g(2) assms(3,4) dvd_trans by blast+
  ultimately have "g = 1" using g(1) by auto
  then have "coprime m 10" by (simp add: g_def coprime_iff_gcd_eq_1)
  then have "coprime m (10 ^ k)" by simp
  with assms(2) have "m dvd 1" by (meson coprime_common_divisor dvd_refl)
  with assms(1) show ?thesis by simp
qed

text \<open>Every finite decimal is written exactly.\<close>

lemma float_prec_of_dvd:
  assumes "snd (quotient_of r) dvd 10 ^ k"
  shows "snd (float_prec r)"
proof -
  define d where "d = snd (quotient_of r)"
  have d: "0 < d" using quotient_of_denom_pos' [of r] by (simp add: d_def)
  define d2 where "d2 = factor_rest 2 d"
  have d2: "0 < d2" using d by (simp add: d2_def factor_rest_pos)
  define m where "m = factor_rest 5 d2"
  have m: "0 < m" using d2 by (simp add: m_def factor_rest_pos)
  have "d2 dvd d" using factor_split [OF d, of 2] by (metis d2_def dvd_triv_right)
  moreover have "m dvd d2" using factor_split [OF d2, of 5] by (metis m_def dvd_triv_right)
  ultimately have "m dvd 10 ^ k" using assms d_def by (metis dvd_trans)
  moreover have "\<not> 2 dvd m"
    using factor_rest_not_dvd [of 2 d] d \<open>m dvd d2\<close> dvd_trans d2_def by auto
  moreover have "\<not> 5 dvd m" using factor_rest_not_dvd [of 5 d2] d2 by (simp add: m_def)
  ultimately have "m = 1" using m by (intro coprime_ten_dvd_power)
  then show ?thesis by (simp add: float_prec_def Let_def m_def d2_def d_def)
qed

lemma denom_dvd_of_decimal:
  assumes "r = of_int a / 10 ^ k"
  shows "snd (quotient_of r) dvd 10 ^ k"
proof -
  obtain n d where nd: "quotient_of r = (n, d)" by (cases "quotient_of r")
  then have d: "0 < d" and c: "coprime n d" and r: "r = of_int n / of_int d"
    by (simp_all add: quotient_of_denom_pos quotient_of_coprime quotient_of_div)
  from r assms d have "of_int (n * 10 ^ k) = (of_int (a * d) :: rat)"
    by (simp add: field_simps)
  then have "n * 10 ^ k = a * d" by (simp only: of_int_eq_iff)
  then have "d dvd n * 10 ^ k" by simp
  with c have "d dvd 10 ^ k" by (simp add: coprime_commute coprime_dvd_mult_right_iff)
  then show ?thesis using nd by simp
qed

lemma float_string_exact:
  assumes "0 \<le> r" and "snd (quotient_of r) dvd 10 ^ k"
  shows "rat_set_string (float_string r k) = Some r"
proof -
  obtain n d where nd: "quotient_of r = (n, d)" by (cases "quotient_of r")
  then have d: "0 < d" and r: "r = of_int n / of_int d" and dk: "d dvd 10 ^ k"
    using assms(2) by (simp_all add: quotient_of_denom_pos quotient_of_div)
  with assms(1) have n: "0 \<le> n" by (simp add: zero_le_divide_iff)
  show ?thesis
  proof (cases "d = 1")
    case True
    with nd n have "float_string r k = utoa n @ (if 0 < k then CHR ''.'' # replicate k CHR ''0'' else [])"
      by (simp add: float_string_def)
    moreover have "list_all is_digit (replicate k CHR ''0'')" by (simp add: list_all_iff is_digit_def)
    ultimately show ?thesis
      using True r n by (simp add: rat_set_string_def split_decimal_int split_decimal_point utoa_digits
          decimal_val_def digits_val_append)
  next
    case False
    define c where "c = (n mod d * 10 ^ k) div d"
    obtain j where j: "10 ^ k = d * j" using dk by (elim dvdE)
    have j0: "0 < j" using j d by (metis zero_less_mult_pos zero_less_numeral zero_less_power)
    have ck: "c = n mod d * j" using d by (simp add: c_def j)
    have c0: "0 \<le> c" using d j0 by (simp add: ck)
    have "n mod d * j < d * j" using d j0 by (intro mult_strict_right_mono) simp_all
    then have c: "c < 10 ^ k" by (simp add: ck j)
    have k: "0 < k" using False d dk by (cases k) auto
    have fs: "float_string r k = utoa (n div d) @ CHR ''.'' # zero_pad k (utoa c)"
      using nd n False d k by (simp add: float_string_def Let_def c_def j)
    have "length (zero_pad k (utoa c)) = k" using c k by (intro length_zero_pad utoa_length)
    then have "rat_set_string (float_string r k) = Some (of_int (n div d * 10 ^ k + c) / 10 ^ k)"
      unfolding fs using n d c0 by (simp add: rat_set_string_def split_decimal_point utoa_digits
          zero_pad_digits decimal_val_def digits_val_append pos_imp_zdiv_nonneg_iff)
    moreover have "n div d * 10 ^ k + c = n * j"
      by (simp add: ck j) (metis div_mult_mod_eq distrib_right mult.assoc)
    moreover have "of_int (n * j) / (10 ^ k :: rat) = r"
    proof -
      have "(10::rat) ^ k = of_int (d * j)" using j by (metis of_int_numeral of_int_power)
      then show ?thesis using r d j0 by simp
    qed
    ultimately show ?thesis by simp
  qed
qed

section \<open>strconv.FormatFloat\<close>

text \<open>
  \<open>FormatFloat(f, 'f', prec, 64)\<close> with a precision: the exact value rounded to \<open>prec\<close> digits,
  ties to even.
\<close>

definition fixed_digits :: "nat \<Rightarrow> rat \<Rightarrow> string" where
  "fixed_digits prec x =
     (let m = round_even (\<bar>x\<bar> * 10 ^ prec); p = 10 ^ prec
      in (if x < 0 then ''-'' else []) @ utoa (m div p)
           @ (if 0 < prec then CHR ''.'' # zero_pad prec (utoa (m mod p)) else []))"

fun format_fixed :: "nat \<Rightarrow> float64 \<Rightarrow> string" where
  "format_fixed prec NaN = ''NaN''"
| "format_fixed prec PosInf = ''+Inf''"
| "format_fixed prec NegInf = ''-Inf''"
| "format_fixed prec (Fin x) = fixed_digits prec x"

text \<open>
  Shortest formatting (precision \<open>-1\<close>): the fewest decimal digits that read back as the same
  \<open>float64\<close>, rounded down or up from the exact value, whichever reads back, and to the nearest if
  both do. Seventeen digits always suffice; the exact value stands behind them so that the search
  is total.
\<close>

definition decimal_point :: "rat \<Rightarrow> int" where
  "decimal_point x =
     (if 1 \<le> x then int (length (utoa \<lfloor>x\<rfloor>))
      else 1 - int (length (utoa (\<lceil>1 / x\<rceil> - 1))))"

definition pow10 :: "int \<Rightarrow> rat" where
  "pow10 e = (if 0 \<le> e then 10 ^ nat e else 1 / 10 ^ nat (- e))"

fun shortest_from :: "rat \<Rightarrow> int \<Rightarrow> nat list \<Rightarrow> rat" where
  "shortest_from x dp [] = x"
| "shortest_from x dp (n # ns) =
     (let s = pow10 (int n - dp); k = x * s; lo = of_int \<lfloor>k\<rfloor> / s; hi = of_int \<lceil>k\<rceil> / s;
          down = (rnd lo = x); up = (rnd hi = x)
      in if down \<and> up then of_int (round_even k) / s
         else if down then lo else if up then hi else shortest_from x dp ns)"

definition shortest_decimal :: "rat \<Rightarrow> rat" where
  "shortest_decimal x = shortest_from x (decimal_point x) [1..<18]"

text \<open>\<open>FormatFloat(f, 'f', -1, 64)\<close>.\<close>

fun format_shortest :: "float64 \<Rightarrow> string" where
  "format_shortest NaN = ''NaN''"
| "format_shortest PosInf = ''+Inf''"
| "format_shortest NegInf = ''-Inf''"
| "format_shortest (Fin x) =
     (if x = 0 then ''0''
      else (let c = shortest_decimal \<bar>x\<bar>
            in (if x < 0 then ''-'' else []) @ float_string c (fst (float_prec c))))"

text \<open>
  \<open>%g\<close>: the shortest digits, in \<open>d.ddde\<plusminus>xx\<close> form when the exponent is below \<open>-4\<close> or at least 6,
  else as \<open>FormatFloat(f, 'f', -1, 64)\<close> writes them.
\<close>

definition exponent_text :: "int \<Rightarrow> string" where
  "exponent_text e = CHR ''e'' # (if e < 0 then CHR ''-'' else CHR ''+'') # zero_pad 2 (utoa \<bar>e\<bar>)"

fun format_g :: "float64 \<Rightarrow> string" where
  "format_g (Fin x) =
     (if x = 0 then ''0''
      else let c = shortest_decimal \<bar>x\<bar>; e = decimal_point c - 1
           in if e < - 4 \<or> 6 \<le> e
              then let m = c / pow10 e
                   in (if x < 0 then ''-'' else []) @ float_string m (fst (float_prec m)) @ exponent_text e
              else format_shortest (Fin x))"
| "format_g v = format_shortest v"

section \<open>Shortest formatting reads back\<close>

text \<open>\<open>decimal_fraction\<close>: the rationals that have a finite decimal expansion.\<close>

definition decimal_fraction :: "rat \<Rightarrow> bool" where
  "decimal_fraction r \<longleftrightarrow> (\<exists>a k. r = of_int a / 10 ^ k)"

lemma decimal_fractionI: "r = of_int a / 10 ^ k \<Longrightarrow> decimal_fraction r"
  by (auto simp: decimal_fraction_def)

lemma decimal_fraction_over_pow10: "decimal_fraction (of_int a / pow10 e)"
proof (cases "0 \<le> e")
  case True
  then show ?thesis by (auto intro: decimal_fractionI simp: pow10_def)
next
  case False
  then have "of_int a / pow10 e = of_int (a * 10 ^ nat (- e)) / 10 ^ 0" by (simp add: pow10_def)
  then show ?thesis by (rule decimal_fractionI)
qed

lemma decimal_fraction_pow2: "decimal_fraction (of_int a * pow2 e)"
proof (cases "0 \<le> e")
  case True
  then have "of_int a * pow2 e = of_int (a * 2 ^ nat e) / 10 ^ 0" by (simp add: pow2_def)
  then show ?thesis by (rule decimal_fractionI)
next
  case False
  define k where "k = nat (- e)"
  have "(10::rat) ^ k = 2 ^ k * 5 ^ k" by (simp flip: power_mult_distrib)
  then have "of_int a * pow2 e = of_int (a * 5 ^ k) / 10 ^ k"
    using False by (simp add: pow2_def k_def)
  then show ?thesis by (rule decimal_fractionI)
qed


lemma decimal_fraction_representable: "representable x \<Longrightarrow> decimal_fraction x"
  by (auto simp: representable_def intro: decimal_fraction_pow2)

lemma round_even_floor_ceiling: "round_even x = \<lfloor>x\<rfloor> \<or> round_even x = \<lceil>x\<rceil>"
  by (auto simp: round_even_def Let_def) linarith+

lemma shortest_from:
  assumes "representable x"
  shows "rnd (shortest_from x dp ns) = x \<and> decimal_fraction (shortest_from x dp ns)"
proof (induction ns)
  case Nil
  show ?case using assms by (simp add: r64.rn_idem r64.rn_repr decimal_fraction_representable)
next
  case (Cons n ns)
  then show ?case
    using round_even_floor_ceiling [of "x * pow10 (int n - dp)"]
    by (auto simp: Let_def decimal_fraction_over_pow10)
qed

lemma decimal_fraction_written:
  assumes "0 \<le> r" "decimal_fraction r"
  shows "rat_set_string (float_string r (fst (float_prec r))) = Some r"
proof -
  from assms(2) obtain a k where "r = of_int a / 10 ^ k" by (auto simp: decimal_fraction_def)
  then have "snd (float_prec r)" by (intro float_prec_of_dvd denom_dvd_of_decimal)
  then have "float_prec r = (fst (float_prec r), True)" by (cases "float_prec r") simp
  from float_string_exact [OF assms(1) float_prec_exact [OF this]] show ?thesis .
qed

text \<open>The text of a positive \<open>float64\<close> reads back, after rounding, as that \<open>float64\<close>.\<close>

lemma format_shortest_reads_back:
  assumes "0 < x" "representable x"
  shows "\<exists>r. rat_set_string (format_shortest (Fin x)) = Some r \<and> rnd r = x"
proof -
  define c where "c = shortest_decimal x"
  have c: "rnd c = x" "decimal_fraction c"
    using shortest_from [OF assms(2)] by (simp_all add: c_def shortest_decimal_def)
  then have "0 \<le> c" using assms(1) r64.rn_nonpos [of c] by linarith
  moreover have "format_shortest (Fin x) = float_string c (fst (float_prec c))"
    using assms(1) by (simp add: c_def Let_def)
  ultimately show ?thesis using c decimal_fraction_written by auto
qed

section \<open>strconv.ParseFloat\<close>

text \<open>
  \<open>ParseFloat(s, 64)\<close>: decimal and hexadecimal literals with an optional sign and exponent,
  underscores between digits, and the names of the infinities and of NaN in any case. \<open>None\<close>
  is an error, of syntax or of range.
\<close>

definition lower :: "char \<Rightarrow> char" where
  "lower c = (if 65 \<le> byte c \<and> byte c \<le> 90 then char_of (byte c + 32) else c)"

definition base_digit :: "int \<Rightarrow> char \<Rightarrow> int option" where
  "base_digit base c =
     (if is_digit c then Some (digit_val c)
      else if base = 16 \<and> 97 \<le> byte (lower c) \<and> byte (lower c) \<le> 102
      then Some (int (byte (lower c)) - 87) else None)"

text \<open>Digits with at most one point: the digits' value, how many follow the point, whether there
  were any, and the rest of the text.\<close>

fun scan_mantissa :: "int \<Rightarrow> bool \<Rightarrow> int \<Rightarrow> int \<Rightarrow> bool \<Rightarrow> string \<Rightarrow> int \<times> int \<times> bool \<times> string" where
  "scan_mantissa base sawdot m k saw [] = (m, k, saw, [])"
| "scan_mantissa base sawdot m k saw (c # s) =
     (if c = CHR ''_'' then scan_mantissa base sawdot m k saw s
      else if c = CHR ''.'' then
        (if sawdot then (m, k, saw, c # s) else scan_mantissa base True m k saw s)
      else case base_digit base c of
             Some d \<Rightarrow> scan_mantissa base sawdot (m * base + d) (if sawdot then k + 1 else k) True s
           | None \<Rightarrow> (m, k, saw, c # s))"

text \<open>The exponent saturates: the value is far out of range long before.\<close>

fun scan_exponent :: "int \<Rightarrow> string \<Rightarrow> int \<times> string" where
  "scan_exponent e [] = (e, [])"
| "scan_exponent e (c # s) =
     (if c = CHR ''_'' then scan_exponent e s
      else if is_digit c then scan_exponent (if e < 10000 then e * 10 + digit_val c else e) s
      else (e, c # s))"

definition read_exponent :: "int \<Rightarrow> string \<Rightarrow> int option" where
  "read_exponent base s =
     (case s of
        [] \<Rightarrow> if base = 16 then None else Some 0
      | c # r \<Rightarrow>
          if lower c \<noteq> (if base = 16 then CHR ''p'' else CHR ''e'') then None
          else let (neg, t) = (case r of [] \<Rightarrow> (False, r)
                 | d # r' \<Rightarrow> if d = CHR ''+'' then (False, r') else if d = CHR ''-'' then (True, r') else (False, r))
               in case t of
                    [] \<Rightarrow> None
                  | d # _ \<Rightarrow>
                      if \<not> is_digit d then None
                      else let (e, rest) = scan_exponent 0 t
                           in if rest \<noteq> [] then None else Some (if neg then - e else e))"

text \<open>\<open>underscoreOK\<close>: every underscore stands between digits; the base prefix counts as one.\<close>

fun underscores_ok :: "bool \<Rightarrow> char \<Rightarrow> string \<Rightarrow> bool" where
  "underscores_ok hex saw [] = (saw \<noteq> CHR ''_'')"
| "underscores_ok hex saw (c # s) =
     (if base_digit (if hex then 16 else 10) c \<noteq> None then underscores_ok hex CHR ''0'' s
      else if c = CHR ''_'' then saw = CHR ''0'' \<and> underscores_ok hex CHR ''_'' s
      else saw \<noteq> CHR ''_'' \<and> underscores_ok hex CHR ''!'' s)"

definition float_sign :: "string \<Rightarrow> bool \<times> string" where
  "float_sign s =
     (case s of [] \<Rightarrow> (False, s)
      | c # r \<Rightarrow> if c = CHR ''-'' then (True, r) else if c = CHR ''+'' then (False, r) else (False, s))"

definition ParseFloat :: "string \<Rightarrow> float64 option" where
  "ParseFloat s =
     (let (neg, u) = float_sign s; l = map lower u
      in if map lower s = ''nan'' then Some NaN
         else if l = ''inf'' \<or> l = ''infinity'' then Some (if neg then NegInf else PosInf)
         else
           let hex = (2 < length u \<and> take 2 l = ''0x''); base = (if hex then 16 else 10);
               body = (if hex then drop 2 u else u);
               (m, k, saw, rest) = scan_mantissa base False 0 0 False body
           in if \<not> saw then None
              else case read_exponent base rest of
                None \<Rightarrow> None
              | Some e \<Rightarrow>
                  if CHR ''_'' \<in> set u \<and> \<not> underscores_ok hex (if hex then CHR ''0'' else CHR ''^'') body then None
                  else let x = of_int m * (if hex then pow2 (e - 4 * k) else pow10 (e - k));
                           v = round64 (if neg then - x else x)
                       in if is_finite v then Some v else None)"

lemma ParseFloat_range: "ParseFloat s = Some v \<Longrightarrow> f64_ok v"
  by (auto simp: ParseFloat_def Let_def split: if_splits option.splits prod.splits)

end
