(* ===== verification/Api_Types.thy ===== *)
theory Api_Types
  imports Go_Strconv
begin

text \<open>
  The ServiceClaim API (\<open>api/v1alpha1/serviceclaim_types.go\<close>): the claim's spec and status as
  records, the constants of the package, and the validation its kubebuilder markers ask of the
  API server. The part of \<open>metav1.Condition\<close> these sources set or read is a record too; its
  transition time is written and read by apimachinery only.
\<close>

section \<open>Constants\<close>

definition ConditionResourcesSynced :: string where "ConditionResourcesSynced = ''ResourcesSynced''"
definition ConditionSLOHealthy :: string where "ConditionSLOHealthy = ''SLOHealthy''"
definition ConditionDeploysFrozen :: string where "ConditionDeploysFrozen = ''DeploysFrozen''"
definition ConditionStorageReady :: string where "ConditionStorageReady = ''StorageReady''"
definition ConditionReady :: string where "ConditionReady = ''Ready''"

definition SLIHTTPAvailability :: string where "SLIHTTPAvailability = ''http-availability''"
definition SLIHTTPLatency :: string where "SLIHTTPLatency = ''http-latency''"

definition TierPublic :: string where "TierPublic = ''public''"
definition TierInternal :: string where "TierInternal = ''internal''"
definition TierBatch :: string where "TierBatch = ''batch''"

lemmas condition_types =
  ConditionResourcesSynced_def ConditionSLOHealthy_def ConditionDeploysFrozen_def
  ConditionStorageReady_def ConditionReady_def

lemmas sli_types = SLIHTTPAvailability_def SLIHTTPLatency_def

lemmas tiers = TierPublic_def TierInternal_def TierBatch_def

section \<open>Conditions\<close>

datatype condition_status = ConditionTrue | ConditionFalse | ConditionUnknown

record condition =
  cond_Type :: string
  cond_Status :: condition_status
  cond_ObservedGeneration :: int
  cond_Reason :: string
  cond_Message :: string

section \<open>The claim\<close>

record SLISpec =
  sli_Type :: string
  sli_GoodStatuses :: "int list"
  sli_LatencyThreshold :: string

record SLOSpec =
  slo_Objective :: string
  slo_Window :: string

record ScaleSpec =
  scale_Min :: int
  scale_Max :: int

record ServiceClaimSpec =
  spec_Owner :: string
  spec_Image :: string
  spec_Port :: int
  spec_Tier :: string
  spec_SLI :: SLISpec
  spec_SLO :: SLOSpec
  spec_Scale :: ScaleSpec
  spec_Storage :: bool

record StorageStatus =
  st_Bucket :: string
  st_RoleARN :: string

record ServiceClaimStatus =
  status_Conditions :: "condition list"
  status_ErrorBudgetRemaining :: string
  status_BurnRate1h :: string
  status_ManagedResources :: int
  status_ObservedGeneration :: int
  status_LastReconcileTime :: "string option"
  status_Storage :: "StorageStatus option"

text \<open>The object metadata the sources read, then spec and status. \<open>None\<close> for
  \<open>DeletionTimestamp\<close> is the zero time.\<close>

record ServiceClaim =
  sc_Name :: string
  sc_Namespace :: string
  sc_Labels :: labels
  sc_Annotations :: labels
  sc_Generation :: int
  sc_DeletionTimestamp :: "string option"
  sc_Finalizers :: "string list"
  sc_Spec :: ServiceClaimSpec
  sc_Status :: ServiceClaimStatus

abbreviation sc_SLI :: "ServiceClaim \<Rightarrow> SLISpec" where
  "sc_SLI sc \<equiv> spec_SLI (sc_Spec sc)"

abbreviation sc_SLO :: "ServiceClaim \<Rightarrow> SLOSpec" where
  "sc_SLO sc \<equiv> spec_SLO (sc_Spec sc)"

abbreviation sc_Tier :: "ServiceClaim \<Rightarrow> string" where
  "sc_Tier sc \<equiv> spec_Tier (sc_Spec sc)"

section \<open>What the API server validates\<close>

text \<open>
  The markers on the types, which controller-gen turns into the CRD's schema. The objective's
  range is a CEL rule on \<open>double(self)\<close>, so it holds of the \<open>float64\<close> nearest to the decimal.
\<close>

definition objective_pattern :: "string \<Rightarrow> bool" where
  "objective_pattern s \<longleftrightarrow>
     takeWhile is_digit s \<noteq> [] \<and>
     (case dropWhile is_digit s of [] \<Rightarrow> True
      | c # f \<Rightarrow> c = CHR ''.'' \<and> f \<noteq> [] \<and> list_all is_digit f)"

definition objective_in_range :: "string \<Rightarrow> bool" where
  "objective_in_range s \<longleftrightarrow>
     (case rat_set_string s of None \<Rightarrow> False
      | Some p \<Rightarrow> f_le (Fin 90) (round64 p) \<and> f_less (round64 p) (Fin 100))"

definition valid_SLO :: "SLOSpec \<Rightarrow> bool" where
  "valid_SLO s \<longleftrightarrow>
     objective_pattern (slo_Objective s) \<and> objective_in_range (slo_Objective s) \<and>
     slo_Window s \<in> {''7d'', ''28d'', ''30d''}"

definition valid_SLI :: "SLISpec \<Rightarrow> bool" where
  "valid_SLI s \<longleftrightarrow> sli_Type s \<in> {SLIHTTPAvailability, SLIHTTPLatency}"

definition valid_Scale :: "ScaleSpec \<Rightarrow> bool" where
  "valid_Scale s \<longleftrightarrow> 1 \<le> scale_Min s \<and> 1 \<le> scale_Max s"

definition valid_claim :: "ServiceClaim \<Rightarrow> bool" where
  "valid_claim sc \<longleftrightarrow>
     (let spec = sc_Spec sc
      in spec_Owner spec \<noteq> [] \<and> spec_Image spec \<noteq> [] \<and>
         1 \<le> spec_Port spec \<and> spec_Port spec \<le> 65535 \<and>
         spec_Tier spec \<in> {TierPublic, TierInternal, TierBatch} \<and>
         valid_SLI (spec_SLI spec) \<and> valid_SLO (spec_SLO spec) \<and> valid_Scale (spec_Scale spec) \<and>
         (spec_Storage spec \<longrightarrow> length (sc_Name sc) \<le> 48))"

text \<open>The transition rule: \<open>storage\<close> cannot change once the claim exists.\<close>

definition valid_update :: "ServiceClaim \<Rightarrow> ServiceClaim \<Rightarrow> bool" where
  "valid_update oldClaim newClaim \<longleftrightarrow>
     valid_claim newClaim \<and> spec_Storage (sc_Spec newClaim) = spec_Storage (sc_Spec oldClaim)"

end
