(* ===== verification/Go_Memory.thy ===== *)
theory Go_Memory
  imports Paved_Prelude
begin

text \<open>
  Memory for the code whose point is aliasing. A memory is a list of cells, an address an index; allocation
  appends. A value in memory, such as a struct, a pointer or a slice, is read to a value without
  addresses, and reaches the cells it is read from. The locale \<open>deep_copy\<close> is what a deep copy promises.
\<close>

section \<open>What a deep copy promises\<close>

text \<open>
  Reading depends on the cells reached and on nothing else. Copying what can be read succeeds, leaves the
  cells there were, and yields the same value out of new cells only.
\<close>

locale deep_copy =
  fixes reads :: "'h list \<Rightarrow> 'a \<Rightarrow> 'v option"
    and reach :: "'h list \<Rightarrow> 'a \<Rightarrow> nat set"
    and copy :: "'h list \<Rightarrow> 'a \<Rightarrow> ('a \<times> 'h list) option"
  assumes bounded: "reads h x = Some v \<Longrightarrow> reach h x \<subseteq> {..<length h}"
    and local: "reads h x = Some v \<Longrightarrow> (\<And>a. a \<in> reach h x \<Longrightarrow> a < length g \<and> g ! a = h ! a) \<Longrightarrow>
      reads g x = Some v \<and> reach g x = reach h x"
    and fresh: "reads h x = Some v \<Longrightarrow>
      \<exists>x' new. copy h x = Some (x', h @ new) \<and> reads (h @ new) x' = Some v \<and> reach (h @ new) x' \<subseteq> {length h..}"
begin

lemma extend: "reads h x = Some v \<Longrightarrow> reads (h @ new) x = Some v \<and> reach (h @ new) x = reach h x"
  by (rule local) (use bounded in \<open>fastforce simp: nth_append\<close>)+

lemma elsewhere:
  assumes "reads h x = Some v" and "a \<notin> reach h x"
  shows "reads (h[a := c]) x = Some v \<and> reach (h[a := c]) x = reach h x"
proof (rule local [OF assms(1)])
  fix b
  assume "b \<in> reach h x"
  moreover from this assms(2) have "a \<noteq> b" by blast
  ultimately show "b < length (h[a := c]) \<and> h[a := c] ! b = h ! b" using bounded [OF assms(1)] by auto
qed

text \<open>
  Original and copy are independent: whatever is written to the cells of one, and whatever is allocated, the
  other keeps its value.
\<close>

lemma independent:
  assumes "reads h x = Some v"
  obtains x' h' where "copy h x = Some (x', h')" "take (length h) h' = h" "reads h' x' = Some v"
    "reach h' x' \<inter> reach h' x = {}"
    "\<And>g. length h' \<le> length g \<Longrightarrow> (\<And>a. a < length h' \<Longrightarrow> a \<notin> reach h' x' \<Longrightarrow> g ! a = h' ! a) \<Longrightarrow> reads g x = Some v"
    "\<And>g. length h' \<le> length g \<Longrightarrow> (\<And>a. a < length h' \<Longrightarrow> a \<notin> reach h' x \<Longrightarrow> g ! a = h' ! a) \<Longrightarrow> reads g x' = Some v"
proof -
  from fresh [OF assms] obtain x' new where
    c: "copy h x = Some (x', h @ new)" "reads (h @ new) x' = Some v" "reach (h @ new) x' \<subseteq> {length h..}" by blast
  let ?h = "h @ new"
  from extend [OF assms] have x: "reads ?h x = Some v" "reach ?h x = reach h x" by simp_all
  have disjoint: "reach ?h x' \<inter> reach ?h x = {}" using c(3) bounded [OF assms] x(2) by fastforce
  have "reads g x = Some v" if "length ?h \<le> length g" "\<And>a. a < length ?h \<Longrightarrow> a \<notin> reach ?h x' \<Longrightarrow> g ! a = ?h ! a" for g
    using local [OF x(1), of g] that bounded [OF x(1)] disjoint
    by (metis (no_types, lifting) disjoint_iff lessThan_iff order_less_le_trans subsetD)
  moreover have "reads g x' = Some v" if "length ?h \<le> length g" "\<And>a. a < length ?h \<Longrightarrow> a \<notin> reach ?h x \<Longrightarrow> g ! a = ?h ! a" for g
    using local [OF c(2), of g] that bounded [OF c(2)] disjoint
    by (metis (no_types, lifting) disjoint_iff lessThan_iff order_less_le_trans subsetD)
  ultimately show thesis using that [OF c(1) _ c(2) disjoint] by simp
qed

end

section \<open>Values without addresses, and structs\<close>

text \<open>A value that holds no address is copied by assignment.\<close>

interpretation flat: deep_copy "\<lambda>h x. Some x" "\<lambda>h x. {}" "\<lambda>h x. Some (x, h)"
  by unfold_locales auto

text \<open>Two fields, copied one after the other.\<close>

definition pair_reads :: "('h list \<Rightarrow> 'a \<Rightarrow> 'v option) \<Rightarrow> ('h list \<Rightarrow> 'b \<Rightarrow> 'w option) \<Rightarrow> 'h list \<Rightarrow> 'a \<times> 'b \<Rightarrow> ('v \<times> 'w) option" where
  "pair_reads r s h p = Option.bind (r h (fst p)) (\<lambda>v. map_option (Pair v) (s h (snd p)))"

definition pair_reach :: "('h list \<Rightarrow> 'a \<Rightarrow> nat set) \<Rightarrow> ('h list \<Rightarrow> 'b \<Rightarrow> nat set) \<Rightarrow> 'h list \<Rightarrow> 'a \<times> 'b \<Rightarrow> nat set" where
  "pair_reach r s h p = r h (fst p) \<union> s h (snd p)"

definition pair_copy ::
  "('h list \<Rightarrow> 'a \<Rightarrow> ('a \<times> 'h list) option) \<Rightarrow> ('h list \<Rightarrow> 'b \<Rightarrow> ('b \<times> 'h list) option) \<Rightarrow>
   'h list \<Rightarrow> 'a \<times> 'b \<Rightarrow> (('a \<times> 'b) \<times> 'h list) option" where
  "pair_copy c d h p =
     Option.bind (c h (fst p)) (\<lambda>(x, h1). map_option (\<lambda>(y, h2). ((x, y), h2)) (d h1 (snd p)))"

lemma pair_reads_Some [simp]:
  "pair_reads r s h p = Some vw \<longleftrightarrow> r h (fst p) = Some (fst vw) \<and> s h (snd p) = Some (snd vw)"
  by (cases vw) (auto simp: pair_reads_def bind_eq_Some_conv)

lemma deep_copy_pair:
  assumes "deep_copy r1 a1 c1" and "deep_copy r2 a2 c2"
  shows "deep_copy (pair_reads r1 r2) (pair_reach a1 a2) (pair_copy c1 c2)"
proof -
  note one = assms(1) and two = assms(2)
  show ?thesis
  proof
    fix h :: "'a list" and p v
    assume r: "pair_reads r1 r2 h p = Some v"
    then show "pair_reach a1 a2 h p \<subseteq> {..<length h}"
      using deep_copy.bounded [OF one] deep_copy.bounded [OF two] by (fastforce simp: pair_reach_def)
    from r deep_copy.fresh [OF one] obtain x new where
      x: "c1 h (fst p) = Some (x, h @ new)" "r1 (h @ new) x = Some (fst v)" "a1 (h @ new) x \<subseteq> {length h..}" by fastforce
    from r deep_copy.extend [OF two] have "r2 (h @ new) (snd p) = Some (snd v)" by simp
    with deep_copy.fresh [OF two] obtain y new' where
      y: "c2 (h @ new) (snd p) = Some (y, (h @ new) @ new')" "r2 ((h @ new) @ new') y = Some (snd v)"
        "a2 ((h @ new) @ new') y \<subseteq> {length (h @ new)..}" by blast
    show "\<exists>x' new. pair_copy c1 c2 h p = Some (x', h @ new) \<and> pair_reads r1 r2 (h @ new) x' = Some v \<and>
        pair_reach a1 a2 (h @ new) x' \<subseteq> {length h..}"
      using x y deep_copy.extend [OF one x(2), of new']
      by (intro exI [of _ "(x, y)"] exI [of _ "new @ new'"]) (auto simp: pair_copy_def pair_reach_def)
  next
    fix h g :: "'a list" and p v
    assume r: "pair_reads r1 r2 h p = Some v"
      and a: "\<And>a. a \<in> pair_reach a1 a2 h p \<Longrightarrow> a < length g \<and> g ! a = h ! a"
    then show "pair_reads r1 r2 g p = Some v \<and> pair_reach a1 a2 g p = pair_reach a1 a2 h p"
      using deep_copy.local [OF one, of h "fst p" "fst v" g] deep_copy.local [OF two, of h "snd p" "snd v" g]
      by (simp add: pair_reach_def)
  qed
qed

text \<open>
  A struct with the fields of \<open>part\<close> in memory: \<open>*out = *in\<close> copies the others, and \<open>put\<close> sets these.
\<close>

lemma deep_copy_struct:
  assumes dc: "deep_copy r a c" and put: "\<And>s x. part (put s x) = x" "\<And>s x v. build (put s x) v = build s v"
  shows "deep_copy (\<lambda>h s. map_option (build s) (r h (part s))) (\<lambda>h s. a h (part s))
           (\<lambda>h s. map_option (\<lambda>(x, h'). (put s x, h')) (c h (part s)))"
proof
  fix h :: "'a list" and s v
  assume r: "map_option (build s) (r h (part s)) = Some v"
  then obtain w where w: "r h (part s) = Some w" "v = build s w" by auto
  from deep_copy.bounded [OF dc w(1)] show "a h (part s) \<subseteq> {..<length h}" .
  from deep_copy.fresh [OF dc w(1)] w(2) show "\<exists>x' new. map_option (\<lambda>(x, h'). (put s x, h')) (c h (part s)) = Some (x', h @ new) \<and>
      map_option (build x') (r (h @ new) (part x')) = Some v \<and> a (h @ new) (part x') \<subseteq> {length h..}"
    by (auto simp: put)
next
  fix h g :: "'a list" and s v
  assume "map_option (build s) (r h (part s)) = Some v"
    and "\<And>b. b \<in> a h (part s) \<Longrightarrow> b < length g \<and> g ! b = h ! b"
  then show "map_option (build s) (r g (part s)) = Some v \<and> a g (part s) = a h (part s)"
    using deep_copy.local [OF dc, of h "part s" _ g] by fastforce
qed

section \<open>Pointers\<close>

text \<open>
  A pointer is nil or an address. \<open>unwrap\<close> yields what a cell holds if it is of the pointer's type, so that
  reading through a dangling or ill-typed pointer fails.
\<close>

definition load :: "('h \<Rightarrow> 'a option) \<Rightarrow> 'h list \<Rightarrow> nat \<Rightarrow> 'a option" where
  "load unwrap h a = (if a < length h then unwrap (h ! a) else None)"

definition ptr_reads ::
  "('h \<Rightarrow> 'a option) \<Rightarrow> ('h list \<Rightarrow> 'a \<Rightarrow> 'v option) \<Rightarrow> 'h list \<Rightarrow> nat option \<Rightarrow> 'v option option" where
  "ptr_reads unwrap r h p =
     (case p of None \<Rightarrow> Some None | Some a \<Rightarrow> map_option Some (Option.bind (load unwrap h a) (r h)))"

definition ptr_reach ::
  "('h \<Rightarrow> 'a option) \<Rightarrow> ('h list \<Rightarrow> 'a \<Rightarrow> nat set) \<Rightarrow> 'h list \<Rightarrow> nat option \<Rightarrow> nat set" where
  "ptr_reach unwrap a h p =
     (case p of None \<Rightarrow> {} | Some i \<Rightarrow> insert i (case load unwrap h i of None \<Rightarrow> {} | Some x \<Rightarrow> a h x))"

text \<open>
  The shape of every generated \<open>DeepCopy\<close>: nil for nil; otherwise \<open>out := new(T)\<close>, \<open>in.DeepCopyInto(out)\<close>,
  where \<open>zero\<close> is what \<open>new\<close> puts into the cell.
\<close>

definition new_copy ::
  "('h \<Rightarrow> 'a option) \<Rightarrow> ('a \<Rightarrow> 'h) \<Rightarrow> 'a \<Rightarrow> ('h list \<Rightarrow> 'a \<Rightarrow> ('a \<times> 'h list) option) \<Rightarrow>
   'h list \<Rightarrow> nat option \<Rightarrow> (nat option \<times> 'h list) option" where
  "new_copy unwrap wrap zero c h p =
     (case p of
        None \<Rightarrow> Some (None, h)
      | Some a \<Rightarrow>
          (case load unwrap h a of
             None \<Rightarrow> None
           | Some x \<Rightarrow>
               let out = length h
               in map_option (\<lambda>(x', h'). (Some out, h'[out := wrap x'])) (c (h @ [wrap zero]) x)))"

lemma load_Some: "load unwrap h a = Some x \<longleftrightarrow> a < length h \<and> unwrap (h ! a) = Some x"
  by (simp add: load_def)

lemma deep_copy_ptr:
  assumes dc: "deep_copy r a c" and unwrap: "\<And>x. unwrap (wrap x) = Some x"
  shows "deep_copy (ptr_reads unwrap r) (ptr_reach unwrap a) (new_copy unwrap wrap zero c)"
proof
  fix h :: "'a list" and p v
  assume r: "ptr_reads unwrap r h p = Some v"
  show "ptr_reach unwrap a h p \<subseteq> {..<length h}"
    using r deep_copy.bounded [OF dc] by (fastforce simp: ptr_reads_def ptr_reach_def bind_eq_Some_conv load_Some split: option.splits)
  show "\<exists>x' new. new_copy unwrap wrap zero c h p = Some (x', h @ new) \<and> ptr_reads unwrap r (h @ new) x' = Some v \<and>
      ptr_reach unwrap a (h @ new) x' \<subseteq> {length h..}"
  proof (cases p)
    case None
    with r show ?thesis by (auto simp: ptr_reads_def ptr_reach_def new_copy_def)
  next
    case (Some i)
    with r obtain x w where x: "load unwrap h i = Some x" "r h x = Some w" "v = Some w"
      by (auto simp: ptr_reads_def bind_eq_Some_conv)
    let ?g = "h @ [wrap zero]"
    from deep_copy.extend [OF dc x(2)] have "r ?g x = Some w" by blast
    from deep_copy.fresh [OF dc this] obtain x' new where
      c: "c ?g x = Some (x', ?g @ new)" "r (?g @ new) x' = Some w" "a (?g @ new) x' \<subseteq> {length ?g..}" by blast
    have "length h \<notin> a (?g @ new) x'" using c(3) by fastforce
    from deep_copy.elsewhere [OF dc c(2) this, of "wrap x'"] c(3)
    have "r (h @ wrap x' # new) x' = Some w" "a (h @ wrap x' # new) x' \<subseteq> {length h..}" by (auto simp: list_update_append)
    with c(1) x Some show ?thesis
      by (intro exI [of _ "Some (length h)"] exI [of _ "wrap x' # new"])
        (auto simp: new_copy_def ptr_reads_def ptr_reach_def unwrap list_update_append load_def)
  qed
next
  fix h g :: "'a list" and p v
  assume r: "ptr_reads unwrap r h p = Some v"
    and agree: "\<And>b. b \<in> ptr_reach unwrap a h p \<Longrightarrow> b < length g \<and> g ! b = h ! b"
  show "ptr_reads unwrap r g p = Some v \<and> ptr_reach unwrap a g p = ptr_reach unwrap a h p"
  proof (cases p)
    case (Some i)
    with r obtain x w where x: "load unwrap h i = Some x" "r h x = Some w" "v = Some w"
      by (auto simp: ptr_reads_def bind_eq_Some_conv)
    have l: "load unwrap g i = Some x" using agree [of i] x(1) Some by (simp add: ptr_reach_def load_Some)
    have "r g x = Some w \<and> a g x = a h x"
      by (rule deep_copy.local [OF dc x(2)], rule agree) (simp add: Some ptr_reach_def x(1))
    with l x Some show ?thesis by (simp add: ptr_reads_def ptr_reach_def)
  qed (use r in \<open>simp add: ptr_reads_def ptr_reach_def\<close>)
qed

text \<open>A copy that is made only of a pointer that is not nil.\<close>

definition if_not_nil :: "('h list \<Rightarrow> nat option \<Rightarrow> (nat option \<times> 'h list) option) \<Rightarrow> 'h list \<Rightarrow> nat option \<Rightarrow> (nat option \<times> 'h list) option" where
  "if_not_nil c h p = (case p of None \<Rightarrow> Some (None, h) | Some a \<Rightarrow> c h (Some a))"

lemma deep_copy_if_not_nil:
  assumes dc: "deep_copy (ptr_reads unwrap r) (ptr_reach unwrap a) c"
  shows "deep_copy (ptr_reads unwrap r) (ptr_reach unwrap a) (if_not_nil c)"
proof (unfold_locales, goal_cases)
  case (3 h p v)
  then show ?case
    using deep_copy.fresh [OF dc 3] by (cases p) (auto simp: if_not_nil_def ptr_reads_def ptr_reach_def)
qed (rule deep_copy.bounded [OF dc] deep_copy.local [OF dc]; assumption)+

section \<open>Slices\<close>

text \<open>A slice is nil or the address of its array with its length.\<close>

type_synonym slice = "(nat \<times> nat) option"

definition slice_reads ::
  "('h \<Rightarrow> 'a list option) \<Rightarrow> ('h list \<Rightarrow> 'a \<Rightarrow> 'v option) \<Rightarrow> 'h list \<Rightarrow> slice \<Rightarrow> 'v list option option" where
  "slice_reads unwrap r h s =
     (case s of
        None \<Rightarrow> Some None
      | Some (a, n) \<Rightarrow> Option.bind (load unwrap h a) (\<lambda>xs.
          if n \<le> length xs then map_option Some (those (map (r h) (take n xs))) else None))"

definition slice_reach ::
  "('h \<Rightarrow> 'a list option) \<Rightarrow> ('h list \<Rightarrow> 'a \<Rightarrow> nat set) \<Rightarrow> 'h list \<Rightarrow> slice \<Rightarrow> nat set" where
  "slice_reach unwrap a h s =
     (case s of
        None \<Rightarrow> {}
      | Some (i, n) \<Rightarrow> insert i (case load unwrap h i of None \<Rightarrow> {} | Some xs \<Rightarrow> \<Union> (a h ` set (take n xs))))"

text \<open>
  The loop over the elements, \<open>(*in)[i].DeepCopyInto(&(*out)[i])\<close>, where \<open>ys\<close> is what the array \<open>out\<close> holds
  before round \<open>i\<close>; and the copy of a slice, with the array made first.
\<close>

fun copy_items ::
  "('h list \<Rightarrow> 'a \<Rightarrow> ('a \<times> 'h list) option) \<Rightarrow> ('a list \<Rightarrow> 'h) \<Rightarrow> nat \<Rightarrow> 'a list \<Rightarrow> 'a list \<Rightarrow> nat \<Rightarrow> 'h list \<Rightarrow> 'h list option" where
  "copy_items c wrap out [] ys i h = Some h"
| "copy_items c wrap out (x # xs) ys i h =
     (case c h x of
        None \<Rightarrow> None
      | Some (x', h') \<Rightarrow> copy_items c wrap out xs (ys[i := x']) (Suc i) (h'[out := wrap (ys[i := x'])]))"

definition slice_copy ::
  "('h \<Rightarrow> 'a list option) \<Rightarrow> ('a list \<Rightarrow> 'h) \<Rightarrow> 'a \<Rightarrow> ('h list \<Rightarrow> 'a \<Rightarrow> ('a \<times> 'h list) option) \<Rightarrow>
   'h list \<Rightarrow> slice \<Rightarrow> (slice \<times> 'h list) option" where
  "slice_copy unwrap wrap zero c h s =
     (case s of
        None \<Rightarrow> Some (None, h)
      | Some (a, n) \<Rightarrow>
          (case load unwrap h a of
             None \<Rightarrow> None
           | Some xs \<Rightarrow>
               let out = length h; ys = replicate n zero
               in map_option (\<lambda>h'. (Some (out, n), h')) (copy_items c wrap out (take n xs) ys 0 (h @ [wrap ys]))))"

lemma those_map_Some: "those (map f xs) = Some vs \<longleftrightarrow> list_all2 (\<lambda>x v. f x = Some v) xs vs"
proof (induction xs arbitrary: vs)
  case (Cons x xs)
  then show ?case by (cases vs) (auto split: option.splits)
qed auto

context deep_copy
begin

text \<open>A value read without a given cell, and one read from cells after it, are not changed by what is written to it.\<close>

definition apart :: "nat \<Rightarrow> 'h list \<Rightarrow> 'a \<Rightarrow> 'v \<Rightarrow> bool" where
  "apart b h x v \<longleftrightarrow> reads h x = Some v \<and> b \<notin> reach h x"

definition after :: "nat \<Rightarrow> 'h list \<Rightarrow> 'a \<Rightarrow> 'v \<Rightarrow> bool" where
  "after b h x v \<longleftrightarrow> reads h x = Some v \<and> reach h x \<subseteq> {b<..}"

lemma keep:
  "list_all2 (apart b h) xs vs \<Longrightarrow> list_all2 (apart b ((h @ new)[b := c])) xs vs"
  "list_all2 (after b h) xs vs \<Longrightarrow> list_all2 (after b ((h @ new)[b := c])) xs vs"
proof -
  have e: "reads ((h @ new)[b := c]) x = Some v \<and> reach ((h @ new)[b := c]) x = reach h x"
    if "reads h x = Some v" "b \<notin> reach h x" for x v
    using extend [OF that(1), of new] elsewhere [of "h @ new" x v b c] that(2) by simp
  then have "apart b h x v \<Longrightarrow> apart b ((h @ new)[b := c]) x v" for x v by (simp add: apart_def)
  moreover have "after b h x v \<Longrightarrow> after b ((h @ new)[b := c]) x v" for x v using e [of x v] by (auto simp: after_def)
  ultimately show "list_all2 (apart b h) xs vs \<Longrightarrow> list_all2 (apart b ((h @ new)[b := c])) xs vs"
    "list_all2 (after b h) xs vs \<Longrightarrow> list_all2 (after b ((h @ new)[b := c])) xs vs"
    by (auto elim: list_all2_mono)
qed

lemma copy_items_ok:
  assumes "list_all2 (apart out h) xs vs" and "list_all2 (after out h) ys ws"
    and "out < length h" and "h ! out = wrap (ys @ rest)" and "length rest = length xs"
  shows "\<exists>h' zs. copy_items copy wrap out xs (ys @ rest) (length ys) h = Some h' \<and> h' ! out = wrap zs \<and>
           take out h' = take out h \<and> out < length h' \<and> list_all2 (after out h') zs (ws @ vs)"
  using assms
proof (induction xs arbitrary: vs ys ws rest h)
  case Nil
  then show ?case by auto
next
  case (Cons x xs)
  from Cons.prems(1) obtain v vs' where vs: "vs = v # vs'" "apart out h x v" "list_all2 (apart out h) xs vs'" by (cases vs) auto
  from Cons.prems(5) obtain z rest' where rest: "rest = z # rest'" "length rest' = length xs" by (cases rest) auto
  from vs(2) fresh [of h x v] obtain x' new where
    x': "copy h x = Some (x', h @ new)" "reads (h @ new) x' = Some v" "reach (h @ new) x' \<subseteq> {length h..}"
    by (auto simp: apart_def)
  let ?h = "(h @ new)[out := wrap (ys @ x' # rest')]"
  have "out \<notin> reach (h @ new) x'" using x'(3) Cons.prems(3) by fastforce
  then have "after out ?h x' v" using elsewhere [OF x'(2)] x'(3) Cons.prems(3) by (fastforce simp: after_def)
  with keep(2) [OF Cons.prems(2)] have "list_all2 (after out ?h) (ys @ [x']) (ws @ [v])" by (auto intro: list_all2_appendI)
  from Cons.IH [OF keep(1) [OF vs(3)] this, of rest'] rest Cons.prems(3)
  show ?case by (simp add: x'(1) vs(1) list_update_append nth_append)
qed

end

lemma slice_reads_Some:
  "slice_reads unwrap r h (Some (i, n)) = Some v \<longleftrightarrow>
     (\<exists>xs vs. load unwrap h i = Some xs \<and> n \<le> length xs \<and> list_all2 (\<lambda>x v. r h x = Some v) (take n xs) vs \<and> v = Some vs)"
  by (auto simp: slice_reads_def bind_eq_Some_conv those_map_Some split: if_splits)

lemma list_all2_left: "list_all2 P xs vs \<Longrightarrow> x \<in> set xs \<Longrightarrow> \<exists>v. P x v"
  by (auto simp: list_all2_conv_all_nth in_set_conv_nth)

lemma slice_bounded:
  assumes dc: "deep_copy r a c" and r: "slice_reads unwrap r h s = Some v"
  shows "slice_reach unwrap a h s \<subseteq> {..<length h}"
proof (cases s)
  case (Some p)
  obtain i n where p: "p = (i, n)" by force
  from r Some p obtain xs vs where x: "load unwrap h i = Some xs" "list_all2 (\<lambda>x v. r h x = Some v) (take n xs) vs"
    by (auto simp: slice_reads_Some)
  then have "a h x \<subseteq> {..<length h}" if "x \<in> set (take n xs)" for x
    using list_all2_left [OF x(2) that] deep_copy.bounded [OF dc] by blast
  moreover have "i < length h" using x(1) by (simp add: load_Some)
  ultimately show ?thesis using x(1) Some p by (simp add: slice_reach_def UN_subset_iff)
qed (simp add: slice_reach_def)

lemma slice_local:
  assumes dc: "deep_copy r a c" and r: "slice_reads unwrap r h s = Some v"
    and agree: "\<And>b. b \<in> slice_reach unwrap a h s \<Longrightarrow> b < length g \<and> g ! b = h ! b"
  shows "slice_reads unwrap r g s = Some v \<and> slice_reach unwrap a g s = slice_reach unwrap a h s"
proof (cases s)
  case (Some p)
  obtain i n where p: "p = (i, n)" by force
  from r Some p obtain xs vs where x: "load unwrap h i = Some xs" "n \<le> length xs" "v = Some vs"
    "list_all2 (\<lambda>x v. r h x = Some v) (take n xs) vs" by (auto simp: slice_reads_Some)
  have l: "load unwrap g i = Some xs" using agree [of i] x(1) Some p by (simp add: slice_reach_def load_Some)
  have e: "r g x = Some w \<and> a g x = a h x" if "x \<in> set (take n xs)" "r h x = Some w" for x w
    by (rule deep_copy.local [OF dc that(2)], rule agree) (use that(1) Some p x(1) in \<open>auto simp: slice_reach_def\<close>)
  from x(4) have "list_all2 (\<lambda>x v. r g x = Some v) (take n xs) vs"
    by (rule list.rel_mono_strong) (use e in blast)
  moreover have "\<Union> (a g ` set (take n xs)) = \<Union> (a h ` set (take n xs))"
    using list_all2_left [OF x(4)] e by (intro SUP_cong) auto
  ultimately show ?thesis using l x Some p by (simp add: slice_reads_Some slice_reach_def)
qed (use r in \<open>simp add: slice_reads_def slice_reach_def\<close>)

lemma deep_copy_slice:
  assumes dc: "deep_copy r a c" and unwrap: "\<And>xs. unwrap (wrap xs) = Some xs"
  shows "deep_copy (slice_reads unwrap r) (slice_reach unwrap a) (slice_copy unwrap wrap zero c)"
proof (unfold_locales, goal_cases)
  case (3 h s v)
  show ?case
  proof (cases s)
    case None
    with 3 show ?thesis by (auto simp: slice_reads_def slice_reach_def slice_copy_def)
  next
    case (Some p)
    obtain i n where p: "p = (i, n)" by force
    from 3 Some p obtain xs vs where x: "load unwrap h i = Some xs" "n \<le> length xs" "v = Some vs"
      "list_all2 (\<lambda>x v. r h x = Some v) (take n xs) vs" by (auto simp: slice_reads_Some)
    let ?ys = "replicate n zero" and ?out = "length h"
    have "deep_copy.apart r a ?out (h @ [wrap ?ys]) x w" if "r h x = Some w" for x w
      using deep_copy.extend [OF dc that] deep_copy.bounded [OF dc that] by (auto simp: deep_copy.apart_def [OF dc])
    with x(4) have "list_all2 (deep_copy.apart r a ?out (h @ [wrap ?ys])) (take n xs) vs" by (auto elim: list_all2_mono)
    from deep_copy.copy_items_ok [OF dc this, of "[]" "[]" wrap ?ys] x(2) obtain h' zs where
      h': "copy_items c wrap ?out (take n xs) ?ys 0 (h @ [wrap ?ys]) = Some h'" "h' ! ?out = wrap zs"
        "take ?out h' = h" "?out < length h'" "list_all2 (deep_copy.after r a ?out h') zs vs" by (auto simp: nth_append)
    have "length zs = n" using h'(5) x(2,4) by (auto dest!: list_all2_lengthD)
    moreover have "list_all2 (\<lambda>x v. r h' x = Some v) zs vs"
      using h'(5) by (rule list_all2_mono) (simp add: deep_copy.after_def [OF dc])
    moreover have "\<Union> (a h' ` set zs) \<subseteq> {?out..}"
      using list_all2_left [OF h'(5)] by (fastforce simp: deep_copy.after_def [OF dc])
    ultimately have "slice_reads unwrap r h' (Some (?out, n)) = Some v" "slice_reach unwrap a h' (Some (?out, n)) \<subseteq> {?out..}"
      using h'(2,4) x(3) by (auto simp: slice_reads_Some slice_reach_def load_def unwrap)
    moreover have "h' = h @ drop ?out h'" using h'(3) by (metis append_take_drop_id)
    ultimately show ?thesis using h'(1) x(1) Some p
      by (intro exI [of _ "Some (?out, n)"] exI [of _ "drop ?out h'"]) (simp add: slice_copy_def Let_def)
  qed
qed (rule slice_bounded [OF dc] slice_local [OF dc]; assumption)+

text \<open>
  A slice of numbers is copied by \<open>copy\<close>, into an array made for it.
\<close>

definition array_copy ::
  "('h \<Rightarrow> 'a list option) \<Rightarrow> ('a list \<Rightarrow> 'h) \<Rightarrow> 'h list \<Rightarrow> slice \<Rightarrow> (slice \<times> 'h list) option" where
  "array_copy unwrap wrap h s =
     (case s of
        None \<Rightarrow> Some (None, h)
      | Some (a, n) \<Rightarrow>
          (case load unwrap h a of
             None \<Rightarrow> None
           | Some xs \<Rightarrow> Some (Some (length h, n), h @ [wrap (take n xs)])))"

lemma deep_copy_array:
  assumes unwrap: "\<And>xs. unwrap (wrap xs) = Some xs"
  shows "deep_copy (slice_reads unwrap (\<lambda>h x. Some x)) (slice_reach unwrap (\<lambda>h x. {})) (array_copy unwrap wrap)"
proof (unfold_locales, goal_cases)
  case (3 h s v)
  show ?case
  proof (cases s)
    case None
    with 3 show ?thesis by (auto simp: slice_reads_def slice_reach_def array_copy_def)
  next
    case (Some p)
    obtain i n where p: "p = (i, n)" by force
    from 3 Some p obtain xs where x: "load unwrap h i = Some xs" "n \<le> length xs" "v = Some (take n xs)"
      by (auto simp: slice_reads_Some list_all2_eq [symmetric])
    have "slice_reads unwrap (\<lambda>h x. Some x) (h @ [wrap (take n xs)]) (Some (length h, n)) = Some v"
      using x by (auto simp: slice_reads_Some load_def unwrap list_all2_eq [symmetric])
    with x Some p show ?thesis
      by (intro exI [of _ "Some (length h, n)"] exI [of _ "[wrap (take n xs)]"])
        (auto simp: array_copy_def slice_reach_def load_def unwrap)
  qed
qed (rule slice_bounded [OF flat.deep_copy_axioms] slice_local [OF flat.deep_copy_axioms]; assumption)+

end
