(* ===== verification/Api_DeepCopy.thy ===== *)
theory Api_DeepCopy
  imports Api_Types Go_Memory
begin

text \<open>
  \<open>api/v1alpha1/zz_generated.deepcopy.go\<close> and the list type of \<open>serviceclaim_types.go\<close>, over the memory of
  \<open>Go_Memory\<close>. The client's cache hands out copies made by this code, so that a reconcile may change what it
  reads; what makes it correct is that a copy shares no memory with its original.
\<close>

section \<open>The structs in memory\<close>

text \<open>
  The structs, with the types of the fields that are slices or pointers left open: slices and addresses in
  memory, lists and values when read.
\<close>

record 'i sli_struct =
  dsli_Type :: string
  dsli_GoodStatuses :: 'i
  dsli_LatencyThreshold :: string

record 'i spec_struct =
  dspec_Owner :: string
  dspec_Image :: string
  dspec_Port :: int
  dspec_Tier :: string
  dspec_SLI :: "'i sli_struct"
  dspec_SLO :: SLOSpec
  dspec_Scale :: ScaleSpec
  dspec_Storage :: bool

record ('c, 't, 's) status_struct =
  dst_Conditions :: 'c
  dst_ErrorBudgetRemaining :: string
  dst_BurnRate1h :: string
  dst_ManagedResources :: int
  dst_ObservedGeneration :: int
  dst_LastReconcileTime :: 't
  dst_Storage :: 's

record ('m, 'i, 'c, 't, 's) claim_struct =
  dcl_TypeMeta :: "string \<times> string"
  dcl_ObjectMeta :: 'm
  dcl_Spec :: "'i spec_struct"
  dcl_Status :: "('c, 't, 's) status_struct"

record ('l, 'x) list_struct =
  dls_TypeMeta :: "string \<times> string"
  dls_ListMeta :: 'l
  dls_Items :: 'x

type_synonym mem_status = "(slice, nat option, nat option) status_struct"
type_synonym 'm mem_claim = "('m, slice, slice, nat option, nat option) claim_struct"
type_synonym 'l mem_list = "('l, slice) list_struct"

text \<open>What a cell may hold. The metadata of apimachinery keeps its own maps and slices in cells of another type.\<close>

datatype ('m, 'l, 'o) cell =
    IntArray "int list"
  | ConditionArray "condition list"
  | ClaimArray "'m mem_claim list"
  | TimeCell string
  | StorageCell StorageStatus
  | SLICell "slice sli_struct"
  | SLOCell SLOSpec
  | ScaleCell ScaleSpec
  | SpecCell "slice spec_struct"
  | StatusCell mem_status
  | ClaimCell "'m mem_claim"
  | ListCell "'l mem_list"
  | OtherCell 'o

definition as_ints :: "('m, 'l, 'o) cell \<Rightarrow> int list option" where "as_ints c = (case c of IntArray x \<Rightarrow> Some x | _ \<Rightarrow> None)"
definition as_conditions :: "('m, 'l, 'o) cell \<Rightarrow> condition list option" where "as_conditions c = (case c of ConditionArray x \<Rightarrow> Some x | _ \<Rightarrow> None)"
definition as_claims :: "('m, 'l, 'o) cell \<Rightarrow> 'm mem_claim list option" where "as_claims c = (case c of ClaimArray x \<Rightarrow> Some x | _ \<Rightarrow> None)"
definition as_time :: "('m, 'l, 'o) cell \<Rightarrow> string option" where "as_time c = (case c of TimeCell x \<Rightarrow> Some x | _ \<Rightarrow> None)"
definition as_storage :: "('m, 'l, 'o) cell \<Rightarrow> StorageStatus option" where "as_storage c = (case c of StorageCell x \<Rightarrow> Some x | _ \<Rightarrow> None)"
definition as_sli :: "('m, 'l, 'o) cell \<Rightarrow> slice sli_struct option" where "as_sli c = (case c of SLICell x \<Rightarrow> Some x | _ \<Rightarrow> None)"
definition as_slo :: "('m, 'l, 'o) cell \<Rightarrow> SLOSpec option" where "as_slo c = (case c of SLOCell x \<Rightarrow> Some x | _ \<Rightarrow> None)"
definition as_scale :: "('m, 'l, 'o) cell \<Rightarrow> ScaleSpec option" where "as_scale c = (case c of ScaleCell x \<Rightarrow> Some x | _ \<Rightarrow> None)"
definition as_spec :: "('m, 'l, 'o) cell \<Rightarrow> slice spec_struct option" where "as_spec c = (case c of SpecCell x \<Rightarrow> Some x | _ \<Rightarrow> None)"
definition as_status :: "('m, 'l, 'o) cell \<Rightarrow> mem_status option" where "as_status c = (case c of StatusCell x \<Rightarrow> Some x | _ \<Rightarrow> None)"
definition as_claim :: "('m, 'l, 'o) cell \<Rightarrow> 'm mem_claim option" where "as_claim c = (case c of ClaimCell x \<Rightarrow> Some x | _ \<Rightarrow> None)"
definition as_list :: "('m, 'l, 'o) cell \<Rightarrow> 'l mem_list option" where "as_list c = (case c of ListCell x \<Rightarrow> Some x | _ \<Rightarrow> None)"
definition as_other :: "('m, 'l, 'o) cell \<Rightarrow> 'o option" where "as_other c = (case c of OtherCell x \<Rightarrow> Some x | _ \<Rightarrow> None)"

lemma as_wrapped [simp]:
  "as_ints (IntArray is) = Some is" "as_conditions (ConditionArray cs) = Some cs" "as_claims (ClaimArray ms) = Some ms"
  "as_time (TimeCell t) = Some t" "as_storage (StorageCell s) = Some s" "as_sli (SLICell i) = Some i"
  "as_slo (SLOCell o') = Some o'" "as_scale (ScaleCell k) = Some k" "as_spec (SpecCell p) = Some p"
  "as_status (StatusCell u) = Some u" "as_claim (ClaimCell m) = Some m" "as_list (ListCell l) = Some l"
  "as_other (OtherCell x) = Some x"
  by (simp_all add: as_ints_def as_conditions_def as_claims_def as_time_def as_storage_def as_sli_def as_slo_def
      as_scale_def as_spec_def as_status_def as_claim_def as_list_def as_other_def)

text \<open>The copies of \<open>metav1\<close>'s types, and their zero values.\<close>

record ('m, 'l, 'o) meta_v1 =
  ObjectMeta_DeepCopyInto :: "('m, 'l, 'o) cell list \<Rightarrow> 'm \<Rightarrow> ('m \<times> ('m, 'l, 'o) cell list) option"
  ListMeta_DeepCopyInto :: "('m, 'l, 'o) cell list \<Rightarrow> 'l \<Rightarrow> ('l \<times> ('m, 'l, 'o) cell list) option"
  Condition_DeepCopyInto :: "('m, 'l, 'o) cell list \<Rightarrow> condition \<Rightarrow> (condition \<times> ('m, 'l, 'o) cell list) option"
  Time_DeepCopy :: "('m, 'l, 'o) cell list \<Rightarrow> nat option \<Rightarrow> (nat option \<times> ('m, 'l, 'o) cell list) option"
  ObjectMeta_zero :: 'm
  ListMeta_zero :: 'l
  Condition_zero :: condition

section \<open>Zero values\<close>

definition SLISpec_zero :: "slice sli_struct" where
  "SLISpec_zero = \<lparr>dsli_Type = [], dsli_GoodStatuses = None, dsli_LatencyThreshold = []\<rparr>"

definition SLOSpec_zero :: SLOSpec where
  "SLOSpec_zero = \<lparr>slo_Objective = [], slo_Window = []\<rparr>"

definition ScaleSpec_zero :: ScaleSpec where
  "ScaleSpec_zero = \<lparr>scale_Min = 0, scale_Max = 0\<rparr>"

definition StorageStatus_zero :: StorageStatus where
  "StorageStatus_zero = \<lparr>st_Bucket = [], st_RoleARN = []\<rparr>"

definition ServiceClaimSpec_zero :: "slice spec_struct" where
  "ServiceClaimSpec_zero =
     \<lparr>dspec_Owner = [], dspec_Image = [], dspec_Port = 0, dspec_Tier = [], dspec_SLI = SLISpec_zero, dspec_SLO = SLOSpec_zero,
      dspec_Scale = ScaleSpec_zero, dspec_Storage = False\<rparr>"

definition ServiceClaimStatus_zero :: mem_status where
  "ServiceClaimStatus_zero =
     \<lparr>dst_Conditions = None, dst_ErrorBudgetRemaining = [], dst_BurnRate1h = [], dst_ManagedResources = 0,
      dst_ObservedGeneration = 0, dst_LastReconcileTime = None, dst_Storage = None\<rparr>"

definition ServiceClaim_zero :: "('m, 'l, 'o) meta_v1 \<Rightarrow> 'm mem_claim" where
  "ServiceClaim_zero v1 =
     \<lparr>dcl_TypeMeta = ([], []), dcl_ObjectMeta = ObjectMeta_zero v1, dcl_Spec = ServiceClaimSpec_zero,
      dcl_Status = ServiceClaimStatus_zero\<rparr>"

definition ServiceClaimList_zero :: "('m, 'l, 'o) meta_v1 \<Rightarrow> 'l mem_list" where
  "ServiceClaimList_zero v1 = \<lparr>dls_TypeMeta = ([], []), dls_ListMeta = ListMeta_zero v1, dls_Items = None\<rparr>"

section \<open>The generated copies\<close>

text \<open>
  \<open>DeepCopyInto\<close> yields what it writes to \<open>out\<close>: the struct read from \<open>in\<close>, with the fields in memory
  replaced by their copies. \<open>None\<close> is a fault, reading through an address that holds no such value.
\<close>

type_synonym ('m, 'l, 'o, 'a) copier = "('m, 'l, 'o) cell list \<Rightarrow> 'a \<Rightarrow> ('a \<times> ('m, 'l, 'o) cell list) option"

definition SLISpec_DeepCopyInto :: "('m, 'l, 'o, slice sli_struct) copier" where
  "SLISpec_DeepCopyInto h i =
     map_option (\<lambda>(statuses, h'). (i\<lparr>dsli_GoodStatuses := statuses\<rparr>, h')) (array_copy as_ints IntArray h (dsli_GoodStatuses i))"

definition SLISpec_DeepCopy :: "('m, 'l, 'o, nat option) copier" where
  "SLISpec_DeepCopy = new_copy as_sli SLICell SLISpec_zero SLISpec_DeepCopyInto"

definition SLOSpec_DeepCopyInto :: "('m, 'l, 'o, SLOSpec) copier" where
  "SLOSpec_DeepCopyInto h i = Some (i, h)"

definition SLOSpec_DeepCopy :: "('m, 'l, 'o, nat option) copier" where
  "SLOSpec_DeepCopy = new_copy as_slo SLOCell SLOSpec_zero SLOSpec_DeepCopyInto"

definition ScaleSpec_DeepCopyInto :: "('m, 'l, 'o, ScaleSpec) copier" where
  "ScaleSpec_DeepCopyInto h i = Some (i, h)"

definition ScaleSpec_DeepCopy :: "('m, 'l, 'o, nat option) copier" where
  "ScaleSpec_DeepCopy = new_copy as_scale ScaleCell ScaleSpec_zero ScaleSpec_DeepCopyInto"

definition ServiceClaimSpec_DeepCopyInto :: "('m, 'l, 'o, slice spec_struct) copier" where
  "ServiceClaimSpec_DeepCopyInto h i =
     map_option (\<lambda>(sli, h'). (i\<lparr>dspec_SLI := sli, dspec_SLO := dspec_SLO i, dspec_Scale := dspec_Scale i\<rparr>, h'))
       (SLISpec_DeepCopyInto h (dspec_SLI i))"

definition ServiceClaimSpec_DeepCopy :: "('m, 'l, 'o, nat option) copier" where
  "ServiceClaimSpec_DeepCopy = new_copy as_spec SpecCell ServiceClaimSpec_zero ServiceClaimSpec_DeepCopyInto"

definition StorageStatus_DeepCopyInto :: "('m, 'l, 'o, StorageStatus) copier" where
  "StorageStatus_DeepCopyInto h i = Some (i, h)"

definition StorageStatus_DeepCopy :: "('m, 'l, 'o, nat option) copier" where
  "StorageStatus_DeepCopy = new_copy as_storage StorageCell StorageStatus_zero StorageStatus_DeepCopyInto"

text \<open>
  The storage is copied in place, by \<open>new\<close> and an assignment, which is what \<open>new_copy\<close> does for a struct
  without addresses.
\<close>

definition ServiceClaimStatus_DeepCopyInto :: "('m, 'l, 'o) meta_v1 \<Rightarrow> ('m, 'l, 'o, mem_status) copier" where
  "ServiceClaimStatus_DeepCopyInto v1 h i =
     Option.bind (slice_copy as_conditions ConditionArray (Condition_zero v1) (Condition_DeepCopyInto v1) h (dst_Conditions i))
       (\<lambda>(conditions, h1).
     Option.bind (if_not_nil (Time_DeepCopy v1) h1 (dst_LastReconcileTime i)) (\<lambda>(time, h2).
     Option.bind (new_copy as_storage StorageCell StorageStatus_zero (\<lambda>h s. Some (s, h)) h2 (dst_Storage i)) (\<lambda>(storage, h3).
       Some (i\<lparr>dst_Conditions := conditions, dst_LastReconcileTime := time, dst_Storage := storage\<rparr>, h3))))"

definition ServiceClaimStatus_DeepCopy :: "('m, 'l, 'o) meta_v1 \<Rightarrow> ('m, 'l, 'o, nat option) copier" where
  "ServiceClaimStatus_DeepCopy v1 = new_copy as_status StatusCell ServiceClaimStatus_zero (ServiceClaimStatus_DeepCopyInto v1)"

definition ServiceClaim_DeepCopyInto :: "('m, 'l, 'o) meta_v1 \<Rightarrow> ('m, 'l, 'o, 'm mem_claim) copier" where
  "ServiceClaim_DeepCopyInto v1 h i =
     Option.bind (ObjectMeta_DeepCopyInto v1 h (dcl_ObjectMeta i)) (\<lambda>(meta, h1).
     Option.bind (ServiceClaimSpec_DeepCopyInto h1 (dcl_Spec i)) (\<lambda>(spec, h2).
     Option.bind (ServiceClaimStatus_DeepCopyInto v1 h2 (dcl_Status i)) (\<lambda>(status, h3).
       Some (i\<lparr>dcl_TypeMeta := dcl_TypeMeta i, dcl_ObjectMeta := meta, dcl_Spec := spec, dcl_Status := status\<rparr>, h3))))"

definition ServiceClaim_DeepCopy :: "('m, 'l, 'o) meta_v1 \<Rightarrow> ('m, 'l, 'o, nat option) copier" where
  "ServiceClaim_DeepCopy v1 = new_copy as_claim ClaimCell (ServiceClaim_zero v1) (ServiceClaim_DeepCopyInto v1)"

text \<open>A nil pointer becomes a nil interface.\<close>

definition ServiceClaim_DeepCopyObject :: "('m, 'l, 'o) meta_v1 \<Rightarrow> ('m, 'l, 'o, nat option) copier" where
  "ServiceClaim_DeepCopyObject v1 h p =
     map_option (\<lambda>(c, h'). (case c of Some q \<Rightarrow> Some q | None \<Rightarrow> None, h')) (ServiceClaim_DeepCopy v1 h p)"

definition ServiceClaimList_DeepCopyInto :: "('m, 'l, 'o) meta_v1 \<Rightarrow> ('m, 'l, 'o, 'l mem_list) copier" where
  "ServiceClaimList_DeepCopyInto v1 h i =
     Option.bind (ListMeta_DeepCopyInto v1 h (dls_ListMeta i)) (\<lambda>(meta, h1).
     Option.bind (slice_copy as_claims ClaimArray (ServiceClaim_zero v1) (ServiceClaim_DeepCopyInto v1) h1 (dls_Items i)) (\<lambda>(items, h2).
       Some (i\<lparr>dls_TypeMeta := dls_TypeMeta i, dls_ListMeta := meta, dls_Items := items\<rparr>, h2)))"

definition ServiceClaimList_DeepCopy :: "('m, 'l, 'o) meta_v1 \<Rightarrow> ('m, 'l, 'o, nat option) copier" where
  "ServiceClaimList_DeepCopy v1 = new_copy as_list ListCell (ServiceClaimList_zero v1) (ServiceClaimList_DeepCopyInto v1)"

definition ServiceClaimList_DeepCopyObject :: "('m, 'l, 'o) meta_v1 \<Rightarrow> ('m, 'l, 'o, nat option) copier" where
  "ServiceClaimList_DeepCopyObject v1 h p =
     map_option (\<lambda>(c, h'). (case c of Some q \<Rightarrow> Some q | None \<Rightarrow> None, h')) (ServiceClaimList_DeepCopy v1 h p)"

section \<open>Reading\<close>

text \<open>What each struct reads as, and the cells it reaches.\<close>

definition sli_reads :: "('m, 'l, 'o) cell list \<Rightarrow> slice sli_struct \<Rightarrow> int list option sli_struct option" where
  "sli_reads h s = map_option
     (\<lambda>v. \<lparr>dsli_Type = dsli_Type s, dsli_GoodStatuses = v, dsli_LatencyThreshold = dsli_LatencyThreshold s\<rparr>)
     (slice_reads as_ints (\<lambda>h x. Some x) h (dsli_GoodStatuses s))"

definition sli_reach :: "('m, 'l, 'o) cell list \<Rightarrow> slice sli_struct \<Rightarrow> nat set" where
  "sli_reach h s = slice_reach as_ints (\<lambda>h x. {}) h (dsli_GoodStatuses s)"

definition spec_reads :: "('m, 'l, 'o) cell list \<Rightarrow> slice spec_struct \<Rightarrow> int list option spec_struct option" where
  "spec_reads h s = map_option
     (\<lambda>v. \<lparr>dspec_Owner = dspec_Owner s, dspec_Image = dspec_Image s, dspec_Port = dspec_Port s, dspec_Tier = dspec_Tier s,
           dspec_SLI = v, dspec_SLO = dspec_SLO s, dspec_Scale = dspec_Scale s, dspec_Storage = dspec_Storage s\<rparr>)
     (sli_reads h (dspec_SLI s))"

definition spec_reach :: "('m, 'l, 'o) cell list \<Rightarrow> slice spec_struct \<Rightarrow> nat set" where
  "spec_reach h s = sli_reach h (dspec_SLI s)"

type_synonym status_value = "(condition list option, string option, StorageStatus option) status_struct"

definition status_part :: "('c, 't, 's) status_struct \<Rightarrow> 'c \<times> 't \<times> 's" where
  "status_part s = (dst_Conditions s, dst_LastReconcileTime s, dst_Storage s)"

abbreviation status_part_reads ::
  "('m, 'l, 'o) cell list \<Rightarrow> slice \<times> nat option \<times> nat option \<Rightarrow> (condition list option \<times> string option \<times> StorageStatus option) option" where
  "status_part_reads \<equiv> pair_reads (slice_reads as_conditions (\<lambda>h x. Some x))
     (pair_reads (ptr_reads as_time (\<lambda>h x. Some x)) (ptr_reads as_storage (\<lambda>h x. Some x)))"

abbreviation status_part_reach :: "('m, 'l, 'o) cell list \<Rightarrow> slice \<times> nat option \<times> nat option \<Rightarrow> nat set" where
  "status_part_reach \<equiv> pair_reach (slice_reach as_conditions (\<lambda>h x. {}))
     (pair_reach (ptr_reach as_time (\<lambda>h x. {})) (ptr_reach as_storage (\<lambda>h x. {})))"

definition status_reads :: "('m, 'l, 'o) cell list \<Rightarrow> mem_status \<Rightarrow> status_value option" where
  "status_reads h s = map_option
     (\<lambda>(conditions, time, storage).
        \<lparr>dst_Conditions = conditions, dst_ErrorBudgetRemaining = dst_ErrorBudgetRemaining s, dst_BurnRate1h = dst_BurnRate1h s,
         dst_ManagedResources = dst_ManagedResources s, dst_ObservedGeneration = dst_ObservedGeneration s,
         dst_LastReconcileTime = time, dst_Storage = storage\<rparr>)
     (status_part_reads h (status_part s))"

definition status_reach :: "('m, 'l, 'o) cell list \<Rightarrow> mem_status \<Rightarrow> nat set" where
  "status_reach h s = status_part_reach h (status_part s)"

type_synonym 'mv claim_value =
  "('mv, int list option, condition list option, string option, StorageStatus option) claim_struct"

definition claim_part :: "('m, 'i, 'c, 't, 's) claim_struct \<Rightarrow> 'm \<times> 'i spec_struct \<times> ('c, 't, 's) status_struct" where
  "claim_part s = (dcl_ObjectMeta s, dcl_Spec s, dcl_Status s)"

definition claim_reads ::
  "(('m, 'l, 'o) cell list \<Rightarrow> 'm \<Rightarrow> 'mv option) \<Rightarrow> ('m, 'l, 'o) cell list \<Rightarrow> 'm mem_claim \<Rightarrow> 'mv claim_value option" where
  "claim_reads meta h s = map_option
     (\<lambda>(m, spec, status). \<lparr>dcl_TypeMeta = dcl_TypeMeta s, dcl_ObjectMeta = m, dcl_Spec = spec, dcl_Status = status\<rparr>)
     (pair_reads meta (pair_reads spec_reads status_reads) h (claim_part s))"

definition claim_reach ::
  "(('m, 'l, 'o) cell list \<Rightarrow> 'm \<Rightarrow> nat set) \<Rightarrow> ('m, 'l, 'o) cell list \<Rightarrow> 'm mem_claim \<Rightarrow> nat set" where
  "claim_reach meta h s = pair_reach meta (pair_reach spec_reach status_reach) h (claim_part s)"

definition list_part :: "('l, 'x) list_struct \<Rightarrow> 'l \<times> 'x" where
  "list_part s = (dls_ListMeta s, dls_Items s)"

definition list_reads ::
  "(('m, 'l, 'o) cell list \<Rightarrow> 'm \<Rightarrow> 'mv option) \<Rightarrow> (('m, 'l, 'o) cell list \<Rightarrow> 'l \<Rightarrow> 'lv option) \<Rightarrow>
   ('m, 'l, 'o) cell list \<Rightarrow> 'l mem_list \<Rightarrow> ('lv, 'mv claim_value list option) list_struct option" where
  "list_reads meta list_meta h s = map_option
     (\<lambda>(l, items). \<lparr>dls_TypeMeta = dls_TypeMeta s, dls_ListMeta = l, dls_Items = items\<rparr>)
     (pair_reads list_meta (slice_reads as_claims (claim_reads meta)) h (list_part s))"

definition list_reach ::
  "(('m, 'l, 'o) cell list \<Rightarrow> 'm \<Rightarrow> nat set) \<Rightarrow> (('m, 'l, 'o) cell list \<Rightarrow> 'l \<Rightarrow> nat set) \<Rightarrow>
   ('m, 'l, 'o) cell list \<Rightarrow> 'l mem_list \<Rightarrow> nat set" where
  "list_reach meta list_meta h s = pair_reach list_meta (slice_reach as_claims (claim_reach meta)) h (list_part s)"

section \<open>Every generated copy is deep\<close>

lemma sli_deep: "deep_copy sli_reads sli_reach SLISpec_DeepCopyInto"
  using deep_copy_struct [OF deep_copy_array [of as_ints IntArray], of dsli_GoodStatuses "\<lambda>s x. s\<lparr>dsli_GoodStatuses := x\<rparr>"
    "\<lambda>s v. \<lparr>dsli_Type = dsli_Type s, dsli_GoodStatuses = v, dsli_LatencyThreshold = dsli_LatencyThreshold s\<rparr>"]
  by (simp add: sli_reads_def [abs_def] sli_reach_def [abs_def] SLISpec_DeepCopyInto_def [abs_def])

lemma spec_deep: "deep_copy spec_reads spec_reach ServiceClaimSpec_DeepCopyInto"
  using deep_copy_struct [OF sli_deep, of dspec_SLI "\<lambda>s x. s\<lparr>dspec_SLI := x, dspec_SLO := dspec_SLO s, dspec_Scale := dspec_Scale s\<rparr>"
    "\<lambda>s v. \<lparr>dspec_Owner = dspec_Owner s, dspec_Image = dspec_Image s, dspec_Port = dspec_Port s, dspec_Tier = dspec_Tier s,
           dspec_SLI = v, dspec_SLO = dspec_SLO s, dspec_Scale = dspec_Scale s, dspec_Storage = dspec_Storage s\<rparr>"]
  by (simp add: spec_reads_def [abs_def] spec_reach_def [abs_def] ServiceClaimSpec_DeepCopyInto_def [abs_def])

text \<open>What the code relies on in \<open>metav1\<close>: its copies are deep, and conditions hold no addresses.\<close>

locale meta_deep_copies =
  fixes v1 :: "('m, 'l, 'o) meta_v1"
    and meta_reads :: "('m, 'l, 'o) cell list \<Rightarrow> 'm \<Rightarrow> 'mv option" and meta_reach :: "('m, 'l, 'o) cell list \<Rightarrow> 'm \<Rightarrow> nat set"
    and lmeta_reads :: "('m, 'l, 'o) cell list \<Rightarrow> 'l \<Rightarrow> 'lv option" and lmeta_reach :: "('m, 'l, 'o) cell list \<Rightarrow> 'l \<Rightarrow> nat set"
  assumes object_meta: "deep_copy meta_reads meta_reach (ObjectMeta_DeepCopyInto v1)"
    and list_meta: "deep_copy lmeta_reads lmeta_reach (ListMeta_DeepCopyInto v1)"
    and condition: "deep_copy (\<lambda>h x. Some x) (\<lambda>h x. {}) (Condition_DeepCopyInto v1)"
    and time: "deep_copy (ptr_reads as_time (\<lambda>h x. Some x)) (ptr_reach as_time (\<lambda>h x. {})) (Time_DeepCopy v1)"
begin

lemma status_deep: "deep_copy status_reads status_reach (ServiceClaimStatus_DeepCopyInto v1)"
proof -
  let ?part_copy = "pair_copy (slice_copy as_conditions ConditionArray (Condition_zero v1) (Condition_DeepCopyInto v1))
      (pair_copy (if_not_nil (Time_DeepCopy v1)) (new_copy as_storage StorageCell StorageStatus_zero (\<lambda>h s. Some (s, h))))"
  let ?put = "\<lambda>s (c, t, g). s\<lparr>dst_Conditions := c, dst_LastReconcileTime := t, dst_Storage := g\<rparr>"
  let ?build = "\<lambda>s (conditions, time, storage).
        \<lparr>dst_Conditions = conditions, dst_ErrorBudgetRemaining = dst_ErrorBudgetRemaining s, dst_BurnRate1h = dst_BurnRate1h s,
         dst_ManagedResources = dst_ManagedResources s, dst_ObservedGeneration = dst_ObservedGeneration s,
         dst_LastReconcileTime = time, dst_Storage = storage\<rparr>"
  have "deep_copy status_part_reads status_part_reach ?part_copy"
    by (intro deep_copy_pair deep_copy_slice condition deep_copy_if_not_nil time deep_copy_ptr flat.deep_copy_axioms) simp_all
  from deep_copy_struct [OF this, of status_part ?put ?build]
  have "deep_copy status_reads status_reach (\<lambda>h s. map_option (\<lambda>(x, h'). (?put s x, h')) (?part_copy h (status_part s)))"
    by (simp add: status_reads_def [abs_def] status_reach_def [abs_def] status_part_def split: prod.splits)
  moreover have "ServiceClaimStatus_DeepCopyInto v1 = (\<lambda>h s. map_option (\<lambda>(x, h'). (?put s x, h')) (?part_copy h (status_part s)))"
    by (intro ext) (auto simp: ServiceClaimStatus_DeepCopyInto_def pair_copy_def status_part_def
        split: option.splits Option.bind_splits prod.splits)
  ultimately show ?thesis by simp
qed

lemma claim_deep: "deep_copy (claim_reads meta_reads) (claim_reach meta_reach) (ServiceClaim_DeepCopyInto v1)"
proof -
  let ?part_copy = "pair_copy (ObjectMeta_DeepCopyInto v1) (pair_copy ServiceClaimSpec_DeepCopyInto (ServiceClaimStatus_DeepCopyInto v1))"
  let ?put = "\<lambda>s (m, p, t). s\<lparr>dcl_TypeMeta := dcl_TypeMeta s, dcl_ObjectMeta := m, dcl_Spec := p, dcl_Status := t\<rparr>"
  let ?build = "\<lambda>s (m, spec, status). \<lparr>dcl_TypeMeta = dcl_TypeMeta s, dcl_ObjectMeta = m, dcl_Spec = spec, dcl_Status = status\<rparr>"
  note deep_copy_struct [OF deep_copy_pair [OF object_meta deep_copy_pair [OF spec_deep status_deep]], of claim_part ?put ?build]
  then have "deep_copy (claim_reads meta_reads) (claim_reach meta_reach)
      (\<lambda>h s. map_option (\<lambda>(x, h'). (?put s x, h')) (?part_copy h (claim_part s)))"
    by (simp add: claim_reads_def [abs_def] claim_reach_def [abs_def] claim_part_def split: prod.splits)
  moreover have "ServiceClaim_DeepCopyInto v1 = (\<lambda>h s. map_option (\<lambda>(x, h'). (?put s x, h')) (?part_copy h (claim_part s)))"
    by (intro ext) (auto simp: ServiceClaim_DeepCopyInto_def pair_copy_def claim_part_def
        split: option.splits Option.bind_splits prod.splits)
  ultimately show ?thesis by simp
qed

lemma list_deep: "deep_copy (list_reads meta_reads lmeta_reads) (list_reach meta_reach lmeta_reach) (ServiceClaimList_DeepCopyInto v1)"
proof -
  let ?part_copy = "pair_copy (ListMeta_DeepCopyInto v1)
      (slice_copy as_claims ClaimArray (ServiceClaim_zero v1) (ServiceClaim_DeepCopyInto v1))"
  let ?put = "\<lambda>s (l, x). s\<lparr>dls_TypeMeta := dls_TypeMeta s, dls_ListMeta := l, dls_Items := x\<rparr>"
  let ?build = "\<lambda>s (l, items). \<lparr>dls_TypeMeta = dls_TypeMeta s, dls_ListMeta = l, dls_Items = items\<rparr>"
  have "deep_copy (slice_reads as_claims (claim_reads meta_reads)) (slice_reach as_claims (claim_reach meta_reach))
      (slice_copy as_claims ClaimArray (ServiceClaim_zero v1) (ServiceClaim_DeepCopyInto v1))"
    by (rule deep_copy_slice [OF claim_deep]) simp
  note deep_copy_struct [OF deep_copy_pair [OF list_meta this], of list_part ?put ?build]
  then have "deep_copy (list_reads meta_reads lmeta_reads) (list_reach meta_reach lmeta_reach)
      (\<lambda>h s. map_option (\<lambda>(x, h'). (?put s x, h')) (?part_copy h (list_part s)))"
    by (simp add: list_reads_def [abs_def] list_reach_def [abs_def] list_part_def split: prod.splits)
  moreover have "ServiceClaimList_DeepCopyInto v1 = (\<lambda>h s. map_option (\<lambda>(x, h'). (?put s x, h')) (?part_copy h (list_part s)))"
    by (intro ext) (auto simp: ServiceClaimList_DeepCopyInto_def pair_copy_def list_part_def
        split: option.splits Option.bind_splits prod.splits)
  ultimately show ?thesis by simp
qed

end

text \<open>The copies of pointers, by the same contract.\<close>

abbreviation claim_ptr_reads ::
  "(('m, 'l, 'o) cell list \<Rightarrow> 'm \<Rightarrow> 'mv option) \<Rightarrow> ('m, 'l, 'o) cell list \<Rightarrow> nat option \<Rightarrow> 'mv claim_value option option" where
  "claim_ptr_reads meta \<equiv> ptr_reads as_claim (claim_reads meta)"

abbreviation claim_ptr_reach ::
  "(('m, 'l, 'o) cell list \<Rightarrow> 'm \<Rightarrow> nat set) \<Rightarrow> ('m, 'l, 'o) cell list \<Rightarrow> nat option \<Rightarrow> nat set" where
  "claim_ptr_reach meta \<equiv> ptr_reach as_claim (claim_reach meta)"

abbreviation list_ptr_reads ::
  "(('m, 'l, 'o) cell list \<Rightarrow> 'm \<Rightarrow> 'mv option) \<Rightarrow> (('m, 'l, 'o) cell list \<Rightarrow> 'l \<Rightarrow> 'lv option) \<Rightarrow>
   ('m, 'l, 'o) cell list \<Rightarrow> nat option \<Rightarrow> ('lv, 'mv claim_value list option) list_struct option option" where
  "list_ptr_reads meta lmeta \<equiv> ptr_reads as_list (list_reads meta lmeta)"

abbreviation list_ptr_reach ::
  "(('m, 'l, 'o) cell list \<Rightarrow> 'm \<Rightarrow> nat set) \<Rightarrow> (('m, 'l, 'o) cell list \<Rightarrow> 'l \<Rightarrow> nat set) \<Rightarrow>
   ('m, 'l, 'o) cell list \<Rightarrow> nat option \<Rightarrow> nat set" where
  "list_ptr_reach meta lmeta \<equiv> ptr_reach as_list (list_reach meta lmeta)"

lemma DeepCopyObject_DeepCopy:
  "ServiceClaim_DeepCopyObject v1 = ServiceClaim_DeepCopy v1" "ServiceClaimList_DeepCopyObject v1 = ServiceClaimList_DeepCopy v1"
proof -
  have "(case c of Some q \<Rightarrow> Some q | None \<Rightarrow> None) = c" for c :: "nat option" by (cases c) simp_all
  then show "ServiceClaim_DeepCopyObject v1 = ServiceClaim_DeepCopy v1" "ServiceClaimList_DeepCopyObject v1 = ServiceClaimList_DeepCopy v1"
    by (simp_all add: ServiceClaim_DeepCopyObject_def ServiceClaimList_DeepCopyObject_def fun_eq_iff option.map_id)
qed

sublocale meta_deep_copies \<subseteq> claim: deep_copy "claim_ptr_reads meta_reads" "claim_ptr_reach meta_reach" "ServiceClaim_DeepCopyObject v1"
  unfolding DeepCopyObject_DeepCopy ServiceClaim_DeepCopy_def by (rule deep_copy_ptr [OF claim_deep]) simp

sublocale meta_deep_copies \<subseteq> claim_list: deep_copy "list_ptr_reads meta_reads lmeta_reads" "list_ptr_reach meta_reach lmeta_reach"
    "ServiceClaimList_DeepCopyObject v1"
  unfolding DeepCopyObject_DeepCopy ServiceClaimList_DeepCopy_def by (rule deep_copy_ptr [OF list_deep]) simp

interpretation sli: deep_copy "ptr_reads as_sli sli_reads" "ptr_reach as_sli sli_reach" SLISpec_DeepCopy
  unfolding SLISpec_DeepCopy_def by (rule deep_copy_ptr [OF sli_deep]) simp

interpretation spec: deep_copy "ptr_reads as_spec spec_reads" "ptr_reach as_spec spec_reach" ServiceClaimSpec_DeepCopy
  unfolding ServiceClaimSpec_DeepCopy_def by (rule deep_copy_ptr [OF spec_deep]) simp

interpretation slo: deep_copy "ptr_reads as_slo (\<lambda>h x. Some x)" "ptr_reach as_slo (\<lambda>h x. {})" SLOSpec_DeepCopy
  unfolding SLOSpec_DeepCopy_def SLOSpec_DeepCopyInto_def [abs_def] by (rule deep_copy_ptr [OF flat.deep_copy_axioms]) simp

interpretation scale: deep_copy "ptr_reads as_scale (\<lambda>h x. Some x)" "ptr_reach as_scale (\<lambda>h x. {})" ScaleSpec_DeepCopy
  unfolding ScaleSpec_DeepCopy_def ScaleSpec_DeepCopyInto_def [abs_def] by (rule deep_copy_ptr [OF flat.deep_copy_axioms]) simp

interpretation storage_status: deep_copy "ptr_reads as_storage (\<lambda>h x. Some x)" "ptr_reach as_storage (\<lambda>h x. {})" StorageStatus_DeepCopy
  unfolding StorageStatus_DeepCopy_def StorageStatus_DeepCopyInto_def [abs_def] by (rule deep_copy_ptr [OF flat.deep_copy_axioms]) simp

sublocale meta_deep_copies \<subseteq> status: deep_copy "ptr_reads as_status status_reads" "ptr_reach as_status status_reach"
    "ServiceClaimStatus_DeepCopy v1"
  unfolding ServiceClaimStatus_DeepCopy_def by (rule deep_copy_ptr [OF status_deep]) simp

context meta_deep_copies
begin

lemmas claim_independent = claim.independent
lemmas claim_list_independent = claim_list.independent

end

section \<open>Theorems\<close>

text \<open>
  C24: a list of claims that is handed out is a copy in every respect. Copying any list that can be read never
  faults, changes no cell there was, and yields a list with the same content, however it is nested. The two
  share no cell: whatever a caller then writes to what it was given, the original keeps its value, and so
  does the copy when the original is written to.
\<close>

theorem list_copy_independent:
  assumes "meta_deep_copies v1 meta_reads meta_reach lmeta_reads lmeta_reach"
    and "list_ptr_reads meta_reads lmeta_reads h p = Some v"
  shows "\<exists>q h'. ServiceClaimList_DeepCopyObject v1 h p = Some (q, h') \<and> take (length h) h' = h \<and>
           list_ptr_reads meta_reads lmeta_reads h' q = Some v \<and>
           (\<forall>g. length h' \<le> length g \<and> (\<forall>a < length h'. a \<notin> list_ptr_reach meta_reach lmeta_reach h' q \<longrightarrow> g ! a = h' ! a) \<longrightarrow>
              list_ptr_reads meta_reads lmeta_reads g p = Some v) \<and>
           (\<forall>g. length h' \<le> length g \<and> (\<forall>a < length h'. a \<notin> list_ptr_reach meta_reach lmeta_reach h' p \<longrightarrow> g ! a = h' ! a) \<longrightarrow>
              list_ptr_reads meta_reads lmeta_reads g q = Some v)"
  by (rule meta_deep_copies.claim_list_independent [OF assms]) blast

text \<open>The same of one claim.\<close>

lemma claim_copy_independent:
  assumes "meta_deep_copies v1 meta_reads meta_reach lmeta_reads lmeta_reach" and "claim_ptr_reads meta_reads h p = Some v"
  shows "\<exists>q h'. ServiceClaim_DeepCopyObject v1 h p = Some (q, h') \<and> take (length h) h' = h \<and>
           claim_ptr_reads meta_reads h' q = Some v \<and> claim_ptr_reach meta_reach h' q \<inter> claim_ptr_reach meta_reach h' p = {}"
  by (rule meta_deep_copies.claim_independent [OF assms]) blast

section \<open>A list in memory\<close>

text \<open>Metadata with its labels in memory, copied as \<open>metav1\<close> documents it.\<close>

definition metav1 :: "(nat option, string, string \<rightharpoonup> string) meta_v1" where
  "metav1 =
     \<lparr>ObjectMeta_DeepCopyInto = new_copy as_other OtherCell Map.empty (\<lambda>h x. Some (x, h)), ListMeta_DeepCopyInto = (\<lambda>h x. Some (x, h)),
      Condition_DeepCopyInto = (\<lambda>h x. Some (x, h)), Time_DeepCopy = new_copy as_time TimeCell [] (\<lambda>h x. Some (x, h)),
      ObjectMeta_zero = None, ListMeta_zero = [],
      Condition_zero = \<lparr>cond_Type = [], cond_Status = ConditionUnknown, cond_ObservedGeneration = 0, cond_Reason = [], cond_Message = []\<rparr>\<rparr>"

interpretation m1: meta_deep_copies metav1 "ptr_reads as_other (\<lambda>h x. Some x)" "ptr_reach as_other (\<lambda>h x. {})"
    "\<lambda>h x. Some x" "\<lambda>h x. {}"
  by (intro meta_deep_copies.intro) (simp_all add: metav1_def deep_copy_ptr flat.deep_copy_axioms)

definition example_memory :: "(nat option, string, string \<rightharpoonup> string) cell list" where
  "example_memory =
     [ListCell \<lparr>dls_TypeMeta = (''ServiceClaimList'', ''v1''), dls_ListMeta = ''7'', dls_Items = Some (1, 1)\<rparr>,
      ClaimArray [(ServiceClaim_zero metav1)
        \<lparr>dcl_ObjectMeta := Some 4,
         dcl_Spec := ServiceClaimSpec_zero\<lparr>dspec_SLI := SLISpec_zero\<lparr>dsli_GoodStatuses := Some (2, 2)\<rparr>\<rparr>,
         dcl_Status := ServiceClaimStatus_zero\<lparr>dst_Storage := Some 3\<rparr>\<rparr>],
      IntArray [200, 201], StorageCell \<lparr>st_Bucket = ''b'', st_RoleARN = ''arn''\<rparr>, OtherCell [''team'' \<mapsto> ''payments'']]"

lemma example_memory_reads:
  "\<exists>v. list_ptr_reads (ptr_reads as_other (\<lambda>h x. Some x)) (\<lambda>h x. Some x) example_memory (Some 0) = Some v"
  by (simp add: example_memory_def ptr_reads_def slice_reads_def load_def list_reads_def list_part_def pair_reads_def
      claim_reads_def claim_part_def spec_reads_def sli_reads_def status_reads_def status_part_def ServiceClaim_zero_def
      ServiceClaimSpec_zero_def SLISpec_zero_def ServiceClaimStatus_zero_def metav1_def numeral_3_eq_3 eval_nat_numeral)

theorem list_copy_independent_witness:
  "\<exists>q h'. ServiceClaimList_DeepCopyObject metav1 example_memory (Some 0) = Some (q, h') \<and>
     list_ptr_reads (ptr_reads as_other (\<lambda>h x. Some x)) (\<lambda>h x. Some x) h' q =
       list_ptr_reads (ptr_reads as_other (\<lambda>h x. Some x)) (\<lambda>h x. Some x) example_memory (Some 0)"
proof -
  obtain v where v: "list_ptr_reads (ptr_reads as_other (\<lambda>h x. Some x)) (\<lambda>h x. Some x) example_memory (Some 0) = Some v"
    using example_memory_reads by blast
  from list_copy_independent [OF m1.meta_deep_copies_axioms v] v show ?thesis by auto
qed

end
