(* ===== verification/Slo_Budget.thy ===== *)
theory Slo_Budget
  imports Api_Types
begin

text \<open>
  \<open>internal/slo/budget.go\<close>: the error budget as an exact fraction, how much of it an error ratio
  spends, and how budgets are written. The main results: an objective is accepted exactly when it
  is a plain decimal in [90, 100), a budget's text reads back as the same fraction, and the
  remaining budget is zero exactly when the error ratio reaches the budget, despite rounding.
\<close>

section \<open>Definitions\<close>

text \<open>\<open>isDecimal\<close>'s loop, with its three flags.\<close>

fun isDecimal_loop :: "bool \<Rightarrow> bool \<Rightarrow> bool \<Rightarrow> string \<Rightarrow> bool" where
  "isDecimal_loop seenDigit seenDot digitAfterDot [] = (seenDigit \<and> (\<not> seenDot \<or> digitAfterDot))"
| "isDecimal_loop seenDigit seenDot digitAfterDot (r # s) =
     (if is_digit r then isDecimal_loop True seenDot (if seenDot then True else digitAfterDot) s
      else if r = CHR ''.'' \<and> seenDigit \<and> \<not> seenDot then isDecimal_loop seenDigit True digitAfterDot s
      else False)"

definition isDecimal :: "string \<Rightarrow> bool" where
  "isDecimal s = isDecimal_loop False False False s"

definition ErrorBudget :: "string \<Rightarrow> rat result" where
  "ErrorBudget objective =
     (if \<not> isDecimal objective
      then Inl (Errorf (''objective '' @ quote objective @ '' is not a plain decimal number''))
      else case rat_set_string objective of
        None \<Rightarrow> Inl (Errorf (''objective '' @ quote objective @ '' is not a plain decimal number''))
      | Some percent \<Rightarrow>
          if percent < 90 \<or> 100 \<le> percent
          then Inl (Errorf (''objective '' @ quote objective @ '' must be at least 90 and less than 100''))
          else let target = percent / 100 in Inr (1 - target))"

record BudgetUse =
  Consumed :: float64
  Remaining :: float64

text \<open>\<open>budget\<close> is a \<open>*big.Rat\<close>, \<open>None\<close> for nil. \<open>%v\<close> of a value that is not finite.\<close>

definition BurnRate :: "float64 \<Rightarrow> rat option \<Rightarrow> float64 result" where
  "BurnRate errorRatio budget =
     (case budget of
        None \<Rightarrow> Inl (Errorf ''error budget must be greater than zero; an objective of 100 leaves no budget to spend'')
      | Some r \<Rightarrow>
          if r \<le> 0
          then Inl (Errorf ''error budget must be greater than zero; an objective of 100 leaves no budget to spend'')
          else if \<not> is_finite errorRatio
          then Inl (Errorf (''error ratio '' @ format_shortest errorRatio @ '' is not a number''))
          else let b = round64 r in Inr (f_div (f_max errorRatio (Fin 0)) b))"

definition SpendBudget :: "float64 \<Rightarrow> rat option \<Rightarrow> BudgetUse result" where
  "SpendBudget errorRatio budget =
     and_then (BurnRate errorRatio budget) (\<lambda>rate.
       Inr \<lparr>Consumed = rate, Remaining = f_min (f_max (f_sub (Fin 1) rate) (Fin 0)) (Fin 1)\<rparr>)"

definition FormatPercent :: "float64 \<Rightarrow> string" where
  "FormatPercent fraction = format_fixed 1 (f_mul fraction (Fin 100)) @ ''%''"

definition FormatBurnRate :: "float64 \<Rightarrow> string" where
  "FormatBurnRate rate = format_fixed 2 rate"

definition Decimal :: "rat \<Rightarrow> string" where
  "Decimal r = (let (digits, exact) = float_prec r in float_string r (if exact then digits else 12))"

section \<open>What isDecimal accepts\<close>

lemma isDecimal_fraction: "isDecimal_loop True True b f \<longleftrightarrow> list_all is_digit f \<and> (b \<or> f \<noteq> [])"
  by (induction f arbitrary: b) auto

lemma isDecimal_integer:
  "isDecimal_loop True False False s \<longleftrightarrow>
     (case dropWhile is_digit s of [] \<Rightarrow> True
      | c # f \<Rightarrow> c = CHR ''.'' \<and> f \<noteq> [] \<and> list_all is_digit f)"
  by (induction s) (auto simp: isDecimal_fraction)

lemma isDecimal_split: "isDecimal s \<Longrightarrow> \<exists>p. rat_set_string s = Some p"
  by (cases s) (auto simp: isDecimal_def isDecimal_integer rat_set_string_def split_decimal_def Let_def
      simp del: dropWhile_eq_Nil_conv split: list.splits if_splits)

text \<open>The code's check and the CRD's pattern \<open>^[0-9]+(\.[0-9]+)?$\<close> accept the same strings.\<close>

lemma isDecimal_is_CRD_pattern: "isDecimal s = objective_pattern s"
  by (cases s) (auto simp: isDecimal_def objective_pattern_def isDecimal_integer)

section \<open>The budget\<close>

lemma ErrorBudget_Inr_iff:
  "ErrorBudget objective = Inr b \<longleftrightarrow>
     isDecimal objective \<and>
     (\<exists>p. rat_set_string objective = Some p \<and> 90 \<le> p \<and> p < 100 \<and> b = 1 - p / 100)"
  by (auto simp: ErrorBudget_def Let_def not_less not_le split: option.splits)

lemma ErrorBudget_bounds: "ErrorBudget objective = Inr b \<Longrightarrow> 0 < b \<and> b \<le> 1 / 10"
  by (auto simp: ErrorBudget_Inr_iff)

lemma ErrorBudget_decimal:
  assumes "ErrorBudget objective = Inr b"
  shows "\<exists>a k. b = of_int a / 10 ^ k"
proof -
  from assms obtain i f where "b = 1 - decimal_val (i, f) / 100"
    by (auto simp: ErrorBudget_Inr_iff rat_set_string_def)
  then have "b = of_int (10 ^ (length f + 2) - digits_val (i @ f)) / 10 ^ (length f + 2)"
    by (simp add: decimal_val_def field_simps)
  then show ?thesis by blast
qed

text \<open>A number with a finite decimal expansion is written exactly.\<close>

lemma Decimal_exact:
  assumes "0 \<le> r" and "r = of_int a / 10 ^ k"
  shows "rat_set_string (Decimal r) = Some r"
proof -
  obtain digits where p: "float_prec r = (digits, True)"
    using float_prec_of_dvd [OF denom_dvd_of_decimal [OF assms(2)]] by (cases "float_prec r") auto
  then have "Decimal r = float_string r digits" by (simp add: Decimal_def)
  with assms(1) float_prec_exact [OF p] show ?thesis by (simp add: float_string_exact)
qed

section \<open>Spending it\<close>

lemma rnd_unit: "0 \<le> q \<Longrightarrow> q \<le> 1 \<Longrightarrow> 0 \<le> rnd q \<and> rnd q \<le> 1"
  using r64.rn_nonneg [of q] r64.rn_le [OF u64.repr_one, of q] by simp

lemma round64_le_one: "q \<le> 1 \<Longrightarrow> - 1 \<le> q \<Longrightarrow> round64 q = Fin (rnd q)"
proof -
  assume "q \<le> 1" "- 1 \<le> q"
  then have "\<bar>rnd q\<bar> \<le> \<bar>1\<bar>"
    using r64.rn_le [OF u64.repr_one, of q] r64.rn_ge [of "- 1" q] u64.repr_one by (simp add: abs_le_iff)
  then have "\<not> overflows (rnd q)" by (rule not_overflows_le) simp
  then show ?thesis by (simp add: round64_def Let_def)
qed

lemma f_max_zero: "f_max (Fin x) (Fin 0) = Fin (max x 0)"
  by (simp add: max_def)

lemma BurnRate_Fin:
  assumes "0 < r"
  shows "BurnRate (Fin x) (Some r) = Inr (f_div (Fin (max x 0)) (round64 r))"
  using assms by (simp add: BurnRate_def f_max_zero Let_def del: f_max.simps)

text \<open>
  \<open>burn_of x b\<close> is the burn rate before a possible overflow, and \<open>left_of x b\<close> the share of the budget
  that is left, both for a positive \<open>b\<close>.
\<close>

definition burn_of :: "rat \<Rightarrow> rat \<Rightarrow> rat" where
  "burn_of x b = rnd (max x 0 / b)"

definition left_of :: "rat \<Rightarrow> rat \<Rightarrow> rat" where
  "left_of x b = max (rnd (1 - burn_of x b)) 0"

lemma burn_of_nonneg: "0 < b \<Longrightarrow> 0 \<le> burn_of x b"
  by (simp add: burn_of_def r64.rn_nonneg)

lemma burn_of_mono: "0 < b \<Longrightarrow> x \<le> y \<Longrightarrow> burn_of x b \<le> burn_of y b"
  unfolding burn_of_def by (intro r64.rn_mono divide_right_mono) auto

lemma left_of_unit: "0 < b \<Longrightarrow> 0 \<le> left_of x b \<and> left_of x b \<le> 1"
  using burn_of_nonneg [of b x] r64.rn_le [OF u64.repr_one, of "1 - burn_of x b"] by (simp add: left_of_def)

lemma left_of_antimono: "0 < b \<Longrightarrow> x \<le> y \<Longrightarrow> left_of y b \<le> left_of x b"
  using burn_of_mono [of b x y] r64.rn_mono [of "1 - burn_of y b" "1 - burn_of x b"] by (simp add: left_of_def)

lemma left_of_zero_iff:
  assumes "0 < b" "representable b" "representable x"
  shows "left_of x b = 0 \<longleftrightarrow> b \<le> x"
proof -
  have "representable (max x 0)" using assms(3) r64.repr_zero by (simp add: max_def)
  then have "burn_of x b < 1 \<longleftrightarrow> max x 0 < b"
    using assms unfolding burn_of_def by (intro u64.quotient_less_one_iff) simp_all
  moreover have "0 < rnd (1 - burn_of x b) \<longleftrightarrow> burn_of x b < 1"
    unfolding burn_of_def by (intro u64.complement_pos_iff r64.repr_rn)
  ultimately show ?thesis using assms(1) by (auto simp: left_of_def max_def split: if_splits)
qed

lemma SpendBudget_Fin:
  assumes "0 < r" "round64 r = Fin b" "0 < b"
  shows "\<exists>c. SpendBudget (Fin x) (Some r) = Inr \<lparr>Consumed = c, Remaining = Fin (left_of x b)\<rparr>"
proof (cases "overflows (burn_of x b)")
  case True
  have "pow2 0 \<le> pow2 1024" unfolding pow2_le_iff by simp
  with True burn_of_nonneg [OF assms(3), of x] have big: "1 \<le> burn_of x b" by (simp add: overflows_iff)
  then have div: "f_div (Fin (max x 0)) (Fin b) = PosInf"
    using True assms(3) by (simp add: burn_of_def round64_def Let_def)
  have "left_of x b = 0" using r64.rn_nonpos [of "1 - burn_of x b"] big by (simp add: left_of_def)
  with assms div show ?thesis by (simp add: SpendBudget_def BurnRate_Fin f_sub_def)
next
  case False
  then have div: "f_div (Fin (max x 0)) (Fin b) = Fin (burn_of x b)"
    using assms(3) by (simp add: burn_of_def round64_def Let_def)
  show ?thesis
  proof (cases "- 1 \<le> 1 - burn_of x b")
    case True
    then have "f_sub (Fin 1) (Fin (burn_of x b)) = Fin (rnd (1 - burn_of x b))"
      using burn_of_nonneg [OF assms(3), of x] by (simp add: f_sub_def round64_le_one)
    moreover have "rnd (1 - burn_of x b) \<le> 1"
      using burn_of_nonneg [OF assms(3), of x] by (intro r64.rn_le [OF u64.repr_one]) simp
    ultimately show ?thesis using assms div
      by (auto simp: SpendBudget_def BurnRate_Fin left_of_def max_def)
  next
    case low: False
    then have neg: "rnd (1 - burn_of x b) \<le> - 1" using u64.repr_one by (intro r64.rn_le) simp_all
    then have "f_max (f_sub (Fin 1) (Fin (burn_of x b))) (Fin 0) = Fin 0"
      by (auto simp: f_sub_def round64_def Let_def)
    moreover have "left_of x b = 0" using neg by (simp add: left_of_def)
    ultimately show ?thesis using assms div by (simp add: SpendBudget_def BurnRate_Fin)
  qed
qed

lemma SpendBudget_Remaining:
  "0 < r \<Longrightarrow> round64 r = Fin b \<Longrightarrow> 0 < b \<Longrightarrow> SpendBudget (Fin x) (Some r) = Inr u \<Longrightarrow>
     Remaining u = Fin (left_of x b)"
  using SpendBudget_Fin [of r b x] by auto

lemma round64_budget:
  assumes "ErrorBudget objective = Inr r"
  shows "round64 r = Fin (rnd r)" "0 \<le> rnd r"
  using ErrorBudget_bounds [OF assms] by (simp_all add: round64_le_one r64.rn_nonneg)

text \<open>An objective the API server admits leaves a budget that does not round to zero.\<close>

lemma rnd_just_below_hundred: "rnd (100 - 1 / 2 ^ 60) = 100"
  by code_simp

lemma admitted_budget_positive:
  assumes "ErrorBudget objective = Inr r" and "objective_in_range objective"
  shows "0 < rnd r"
proof -
  from assms(1) obtain p where p: "rat_set_string objective = Some p" "p < 100" "90 \<le> p" "r = 1 - p / 100"
    by (auto simp: ErrorBudget_Inr_iff)
  have "rnd p \<le> 100" using p(2) by (intro r64.rn_le representable_of_int [of 100, simplified]) simp
  moreover have "0 \<le> rnd p" using p(3) by (intro r64.rn_nonneg) simp
  moreover have "representable 100" "f64_ok (Fin 100)"
    using representable_of_int [of 100] by (simp_all add: overflows_iff pow2_def)
  ultimately have "round64 p = Fin (rnd p)"
    using not_overflows_le [of "rnd p" 100] by (simp add: round64_def Let_def)
  with assms(2) p(1) have "rnd p < 100" by (simp add: objective_in_range_def)
  then have "p \<le> 100 - 1 / 2 ^ 60"
    using r64.rn_mono [of "100 - 1 / 2 ^ 60" p] rnd_just_below_hundred by linarith
  then have "pow2 (- 67) \<le> r" using p(4) by (simp add: pow2_def)
  then have "pow2 (- 67) \<le> rnd r" by (intro r64.rn_ge representable_pow2) simp
  then show ?thesis using pow2_pos [of "- 67"] by linarith
qed

text \<open>
  C34: for an objective that the API server admits and any finite error ratio, SpendBudget returns
  a remaining share between 0 and 1, and that share is 0 exactly when the ratio has reached the
  budget as a float64: rounding never makes an unspent budget look spent, nor the reverse.
\<close>

theorem SpendBudget_exhausted_iff:
  assumes "ErrorBudget objective = Inr budget" and "objective_in_range objective"
    and "f64_ok (Fin x)"
  shows "\<exists>c y. SpendBudget (Fin x) (Some budget) = Inr \<lparr>Consumed = c, Remaining = Fin y\<rparr> \<and>
           0 \<le> y \<and> y \<le> 1 \<and> (y = 0 \<longleftrightarrow> f_le (round64 budget) (Fin x))"
proof -
  note b = round64_budget [OF assms(1)] admitted_budget_positive [OF assms(1,2)]
  from ErrorBudget_bounds [OF assms(1)] b obtain c where
    "SpendBudget (Fin x) (Some budget) = Inr \<lparr>Consumed = c, Remaining = Fin (left_of x (rnd budget))\<rparr>"
    using SpendBudget_Fin [of budget "rnd budget" x] by blast
  moreover have "left_of x (rnd budget) = 0 \<longleftrightarrow> rnd budget \<le> x"
    using assms(3) b(3) by (intro left_of_zero_iff r64.repr_rn) simp_all
  ultimately show ?thesis using left_of_unit [OF b(3), of x] b(1) by (auto simp: not_less)
qed

theorem SpendBudget_exhausted_iff_witness:
  "\<exists>c y. SpendBudget (Fin (1 / 2)) (Some (1 / 200)) = Inr \<lparr>Consumed = c, Remaining = Fin y\<rparr> \<and>
     0 \<le> y \<and> y \<le> 1 \<and> (y = 0 \<longleftrightarrow> f_le (round64 (1 / 200)) (Fin (1 / 2)))"
proof (rule SpendBudget_exhausted_iff)
  show "ErrorBudget ''99.5'' = Inr (1 / 200)" by code_simp
  show "objective_in_range ''99.5''" by code_simp
  show "f64_ok (Fin (1 / 2))"
    using representable_pow2 [of "- 1"] not_overflows_le [of "1 / 2" 1] by (simp add: pow2_def)
qed

text \<open>
  A worse error ratio never leaves more of the budget.
\<close>

lemma SpendBudget_antimono:
  assumes "ErrorBudget objective = Inr budget" and "objective_in_range objective"
    and "x \<le> y"
    and "SpendBudget (Fin x) (Some budget) = Inr ux" and "SpendBudget (Fin y) (Some budget) = Inr uy"
  shows "f_le (Remaining uy) (Remaining ux)"
proof -
  note b = round64_budget [OF assms(1)] admitted_budget_positive [OF assms(1,2)]
  from ErrorBudget_bounds [OF assms(1)] have "0 < budget" by simp
  note left = SpendBudget_Remaining [OF this b(1,3)]
  from left [OF assms(4)] left [OF assms(5)] show ?thesis using left_of_antimono [OF b(3) assms(3)] by (simp add: not_less)
qed

text \<open>
  The budget of an accepted objective is written without loss: reading the text back gives the
  same fraction.
\<close>

lemma ErrorBudget_Decimal_roundtrip:
  assumes "ErrorBudget objective = Inr budget"
  shows "rat_set_string (Decimal budget) = Some budget"
proof -
  from ErrorBudget_decimal [OF assms] obtain a k where "budget = of_int a / 10 ^ k" by blast
  with ErrorBudget_bounds [OF assms] show ?thesis by (intro Decimal_exact) simp_all
qed

text \<open>
  The API server compares the objective as a float64 and the code as an exact fraction, so the
  CRD admits an objective just below 90 that ErrorBudget refuses.
\<close>

lemma CRD_admits_what_ErrorBudget_refuses:
  "objective_pattern ''89.99999999999999999999'' \<and> objective_in_range ''89.99999999999999999999'' \<and>
   isl (ErrorBudget ''89.99999999999999999999'')"
proof -
  have "objective_pattern ''89.99999999999999999999''" by code_simp
  moreover have "objective_in_range ''89.99999999999999999999''" by code_simp
  moreover have "isl (ErrorBudget ''89.99999999999999999999'')" by code_simp
  ultimately show ?thesis by blast
qed

text \<open>
  Within what the pattern admits, ErrorBudget succeeds exactly when the decimal is in
  [90, 100), and then the budget is one minus the objective's share, positive and at most a tenth.
\<close>

lemma ErrorBudget_spec:
  "ErrorBudget objective = Inr budget \<longleftrightarrow>
     objective_pattern objective \<and>
     (\<exists>p. rat_set_string objective = Some p \<and> 90 \<le> p \<and> p < 100 \<and> budget = 1 - p / 100 \<and>
          0 < budget \<and> budget \<le> 1 / 10)"
  by (auto simp: ErrorBudget_Inr_iff isDecimal_is_CRD_pattern)

end
