(* ===== verification/Go_Time.thy ===== *)
theory Go_Time
  imports Go_Strconv "HOL-Library.Signed_Division"
begin

text \<open>
  \<open>time.Duration\<close> and the parsing of durations and integers, as the Go standard library does them:
  a duration is a 64-bit count of nanoseconds, so its arithmetic wraps, and \<open>ParseDuration\<close> reads
  \<open>[-+]?([0-9]*(\.[0-9]*)?[a-z]+)+\<close> with fractions computed in \<open>float64\<close>.
\<close>

section \<open>64-bit integers\<close>

text \<open>\<open>wrap64\<close> reads an integer as the \<open>int64\<close> with the same low 64 bits.\<close>

definition wrap64 :: "int \<Rightarrow> int" where
  "wrap64 x = (x + 9223372036854775808) mod 18446744073709551616 - 9223372036854775808"

definition is_int64 :: "int \<Rightarrow> bool" where
  "is_int64 x \<longleftrightarrow> - 9223372036854775808 \<le> x \<and> x < 9223372036854775808"

lemma wrap64_int64 [simp]: "is_int64 (wrap64 x)"
  by (simp add: is_int64_def wrap64_def)

lemma wrap64_id [simp]: "is_int64 x \<Longrightarrow> wrap64 x = x"
  by (simp add: is_int64_def wrap64_def)

text \<open>\<open>strconv.Atoi\<close>: an optional sign, digits, and a value that fits an \<open>int\<close> (64 bits on every
  platform the operator is built for).\<close>

definition Atoi :: "string \<Rightarrow> int option" where
  "Atoi s =
     (let (neg, r) = (case s of [] \<Rightarrow> (False, s)
                      | c # r \<Rightarrow> if c = CHR ''-'' then (True, r) else if c = CHR ''+'' then (False, r) else (False, s));
          v = (if neg then - digits_val r else digits_val r)
      in if r \<noteq> [] \<and> list_all is_digit r \<and> is_int64 v then Some v else None)"

lemma Atoi_int64: "Atoi s = Some v \<Longrightarrow> is_int64 v"
  by (auto simp: Atoi_def Let_def split: prod.splits if_splits)

lemma sign_not_digit [simp]: "\<not> is_digit CHR ''-''" "\<not> is_digit CHR ''+''"
  by (simp_all add: is_digit_def)

lemma Atoi_utoa:
  assumes "0 \<le> n" "is_int64 n"
  shows "Atoi (utoa n) = Some n"
proof -
  obtain c r where cr: "utoa n = c # r" by (cases "utoa n") simp_all
  then have "is_digit c" using utoa_digits [of n] by simp
  then have "c \<noteq> CHR ''-''" "c \<noteq> CHR ''+''" by auto
  then show ?thesis
    using assms utoa_digits [of n] digits_val_utoa [OF assms(1)] by (simp add: Atoi_def cr)
qed

section \<open>Durations\<close>

definition Second :: int where "Second = 1000000000"
definition Minute :: int where "Minute = 60000000000"
definition Hour :: int where "Hour = 3600000000000"

text \<open>\<open>d.Seconds()\<close> and \<open>d.Hours()\<close>: whole units plus the remainder, added in \<open>float64\<close>.\<close>

definition float_of_int :: "int \<Rightarrow> float64" where
  "float_of_int n = round64 (of_int n)"

definition Seconds :: "int \<Rightarrow> float64" where
  "Seconds d =
     f_add (float_of_int (d sdiv Second)) (f_div (float_of_int (d smod Second)) (Fin 1000000000))"

definition Hours :: "int \<Rightarrow> float64" where
  "Hours d =
     f_add (float_of_int (d sdiv Hour)) (f_div (float_of_int (d smod Hour)) (Fin 3600000000000))"

text \<open>\<open>math.Round\<close>: to the nearest integer, halves away from zero.\<close>

fun f_round :: "float64 \<Rightarrow> float64" where
  "f_round (Fin x) = Fin (sgn x * of_int \<lfloor>\<bar>x\<bar> + 1 / 2\<rfloor>)"
| "f_round v = v"

section \<open>time.ParseDuration\<close>

text \<open>\<open>unitMap\<close>; the micro sign has two code points, U+00B5 and U+03BC.\<close>

definition unitMap :: "(string \<times> int) list" where
  "unitMap =
     [(''ns'', 1), (''us'', 1000), ([CHR 0xC2, CHR 0xB5, CHR ''s''], 1000), ([CHR 0xCE, CHR 0xBC, CHR ''s''], 1000),
      (''ms'', 1000000), (''s'', 1000000000), (''m'', 60000000000), (''h'', 3600000000000)]"

abbreviation two63 :: int where
  "two63 \<equiv> 9223372036854775808"

text \<open>The digits are read one at a time, so that an overflow is seen before it happens.\<close>

fun leadingInt :: "int \<Rightarrow> string \<Rightarrow> (int \<times> string) option" where
  "leadingInt x [] = Some (x, [])"
| "leadingInt x (c # s) =
     (if \<not> is_digit c then Some (x, c # s)
      else if x > two63 div 10 then None
      else let x' = x * 10 + digit_val c in if x' > two63 then None else leadingInt x' s)"

text \<open>Digits that no longer fit are read and dropped.\<close>

fun leadingFraction :: "bool \<Rightarrow> int \<Rightarrow> float64 \<Rightarrow> string \<Rightarrow> int \<times> float64 \<times> string" where
  "leadingFraction overflow x scale [] = (x, scale, [])"
| "leadingFraction overflow x scale (c # s) =
     (if \<not> is_digit c then (x, scale, c # s)
      else if overflow then leadingFraction True x scale s
      else if x > (two63 - 1) div 10 then leadingFraction True x scale s
      else let y = x * 10 + digit_val c
           in if y > two63 then leadingFraction True x scale s
              else leadingFraction False y (f_mul scale (Fin 10)) s)"

text \<open>\<open>quote\<close> of package \<open>time\<close>: bytes outside printable ASCII are written in hexadecimal.\<close>

definition time_quote :: "string \<Rightarrow> string" where
  "time_quote s =
     [CHR 0x22] @ concat (map (\<lambda>c. if byte c < 32 \<or> 128 \<le> byte c then [CHR 0x5C, CHR ''x''] @ hex_byte (byte c)
                                 else if byte c = 34 \<or> byte c = 92 then [CHR 0x5C, c] else [c]) s) @ [CHR 0x22]"

definition invalid_duration :: "string \<Rightarrow> error" where
  "invalid_duration orig = Errorf (''time: invalid duration '' @ time_quote orig)"

definition number_or_dot :: "char \<Rightarrow> bool" where
  "number_or_dot c \<longleftrightarrow> c = CHR ''.'' \<or> is_digit c"

text \<open>\<open>uint64(f)\<close> of a non-negative finite \<open>float64\<close>: the fraction is cut off.\<close>

fun trunc_u64 :: "float64 \<Rightarrow> int" where
  "trunc_u64 (Fin x) = \<lfloor>x\<rfloor>"
| "trunc_u64 _ = 0"

text \<open>
  One round of the loop: number, unit, and what is left of the text. The result is the number of
  nanoseconds, an unsigned 64-bit integer no larger than \<open>1 << 63\<close>.
\<close>

definition duration_fraction :: "string \<Rightarrow> int \<times> float64 \<times> string \<times> bool" where
  "duration_fraction s =
     (case s of
        [] \<Rightarrow> (0, Fin 1, s, False)
      | c # t \<Rightarrow>
          if c = CHR ''.'' then
            (let (f, scale, r) = leadingFraction False 0 (Fin 1) t in (f, scale, r, length t \<noteq> length r))
          else (0, Fin 1, s, False))"

definition duration_term :: "string \<Rightarrow> string \<Rightarrow> (int \<times> string) result" where
  "duration_term orig s =
     (if \<not> number_or_dot (hd s) then Inl (invalid_duration orig)
      else case leadingInt 0 s of
        None \<Rightarrow> Inl (invalid_duration orig)
      | Some (v, s1) \<Rightarrow>
          let pre = (length s \<noteq> length s1); (f, scale, s2, post) = duration_fraction s1;
              u = takeWhile (\<lambda>c. \<not> number_or_dot c) s2; s3 = dropWhile (\<lambda>c. \<not> number_or_dot c) s2
          in if \<not> pre \<and> \<not> post then Inl (invalid_duration orig)
             else if u = [] then Inl (Errorf (''time: missing unit in duration '' @ time_quote orig))
             else case map_of unitMap u of
               None \<Rightarrow> Inl (Errorf (''time: unknown unit '' @ time_quote u @ '' in duration '' @ time_quote orig))
             | Some unit \<Rightarrow>
                 if v > two63 div unit then Inl (invalid_duration orig)
                 else let v1 = v * unit;
                          v2 = (if 0 < f then v1 + trunc_u64 (f_mul (float_of_int f) (f_div (float_of_int unit) scale))
                                else v1)
                      in if 0 < f \<and> v2 > two63 then Inl (invalid_duration orig) else Inr (v2, s3))"

lemma leadingInt_length: "leadingInt x s = Some (v, r) \<Longrightarrow> length r \<le> length s"
  by (induction x s rule: leadingInt.induct) (auto simp: Let_def le_SucI split: if_splits)

lemma leadingFraction_length: "leadingFraction b x sc s = (f, sc', r) \<Longrightarrow> length r \<le> length s"
  by (induction b x sc s rule: leadingFraction.induct) (auto simp: Let_def le_SucI split: if_splits)

lemma duration_fraction_length: "duration_fraction s = (f, sc, r, p) \<Longrightarrow> length r \<le> length s"
  by (auto simp: duration_fraction_def le_SucI dest: leadingFraction_length split: list.splits if_splits prod.splits)

lemma duration_term_shorter:
  assumes "duration_term orig s = Inr (v, r)"
  shows "length r < length s"
proof -
  from assms obtain w s1 f sc s2 p where
    s1: "leadingInt 0 s = Some (w, s1)" and s2: "duration_fraction s1 = (f, sc, s2, p)"
    and u: "takeWhile (\<lambda>c. \<not> number_or_dot c) s2 \<noteq> []" and r: "r = dropWhile (\<lambda>c. \<not> number_or_dot c) s2"
    by (auto simp: duration_term_def Let_def split: if_splits option.splits prod.splits)
  have "length (takeWhile (\<lambda>c. \<not> number_or_dot c) s2) + length r = length s2"
    unfolding r by (metis length_append takeWhile_dropWhile_id)
  with u have "length r < length s2" by (cases "takeWhile (\<lambda>c. \<not> number_or_dot c) s2") auto
  with leadingInt_length [OF s1] duration_fraction_length [OF s2] show ?thesis by simp
qed

text \<open>The sum \<open>d += v\<close> is one of \<open>uint64\<close> values and wraps.\<close>

function duration_sum :: "string \<Rightarrow> int \<Rightarrow> string \<Rightarrow> int result" where
  "duration_sum orig d s =
     (if s = [] then Inr d
      else case duration_term orig s of
        Inl e \<Rightarrow> Inl e
      | Inr (v, r) \<Rightarrow>
          let d' = (d + v) mod 18446744073709551616
          in if d' > two63 then Inl (invalid_duration orig) else duration_sum orig d' r)"
  by pat_completeness auto
termination
  by (relation "measure (\<lambda>(_, _, s). length s)") (auto dest: duration_term_shorter)

declare duration_sum.simps [simp del]

definition ParseDuration :: "string \<Rightarrow> int result" where
  "ParseDuration orig =
     (let (neg, s) = (case orig of [] \<Rightarrow> (False, orig)
                      | c # r \<Rightarrow> if c = CHR ''-'' \<or> c = CHR ''+'' then (c = CHR ''-'', r) else (False, orig))
      in if s = ''0'' then Inr 0
         else if s = [] then Inl (invalid_duration orig)
         else and_then (duration_sum orig 0 s)
           (\<lambda>d. if neg then Inr (wrap64 (- wrap64 d))
                else if d > two63 - 1 then Inl (invalid_duration orig) else Inr d))"


lemma ParseDuration_upper: "ParseDuration s = Inr d \<Longrightarrow> d < two63"
  using wrap64_int64 [unfolded is_int64_def]
  by (auto simp: ParseDuration_def Let_def result_iff split: if_splits prod.splits)

section \<open>A positive duration in seconds\<close>

lemma float_of_int_small: "\<bar>n\<bar> < 2 ^ 53 \<Longrightarrow> float_of_int n = Fin (of_int n)"
proof -
  assume n: "\<bar>n\<bar> < 2 ^ 53"
  then have "rnd (of_int n) = of_int n" by (intro r64.rn_repr representable_of_int)
  moreover have "\<not> overflows (of_int n)"
  proof -
    have "\<bar>of_int n :: rat\<bar> < pow2 53" using n by (simp add: pow2_of_int flip: of_int_abs)
    also have "pow2 53 < pow2 1024" unfolding pow2_less_iff by simp
    finally show ?thesis by (simp add: overflows_iff)
  qed
  ultimately show ?thesis by (simp add: float_of_int_def round64_def)
qed

lemma Seconds_positive:
  assumes "0 < d" "d < two63"
  shows "\<exists>x. Seconds d = Fin x \<and> 0 < x \<and> representable x"
proof -
  define a b where "a = d div Second" and "b = d mod Second"
  have a: "0 \<le> a" "a < 2 ^ 53" and b: "0 \<le> b" "b < Second" and ab: "d = a * Second + b"
    using assms by (simp_all add: a_def b_def Second_def)
  have sd: "d sdiv Second = a" "d smod Second = b"
    using assms by (simp_all add: a_def b_def Second_def signed_divide_int_def signed_modulo_int_def
        minus_div_mult_eq_mod)
  define f where "f = rnd (of_int b / 1000000000)"
  have "of_int b / 1000000000 \<le> (1::rat)" using b by (simp add: Second_def)
  then have f: "0 \<le> f" "f \<le> 1"
    using b by (auto simp: f_def intro!: r64.rn_nonneg r64.rn_le u64.repr_one)
  have q: "f_div (float_of_int b) (Fin 1000000000) = Fin f"
    using b f not_overflows_le [of f 1] by (simp add: float_of_int_small Second_def round64_def f_def Let_def)
  define x where "x = rnd (of_int a + f)"
  have "of_int a + f \<le> of_int (2 ^ 53 - 1) + 1" using a f by (intro add_mono) (simp_all add: of_int_le_iff)
  then have "of_int a + f \<le> pow2 53" by (simp add: pow2_def)
  then have xle: "x \<le> pow2 53" unfolding x_def by (intro r64.rn_le representable_pow2) simp
  have x0: "0 \<le> x" using a f by (simp add: x_def r64.rn_nonneg)
  have "pow2 53 < pow2 1024" unfolding pow2_less_iff by simp
  with xle have "x < pow2 1024" by (rule le_less_trans)
  with x0 have "\<not> overflows x" by (simp add: overflows_iff)
  then have sx: "Seconds d = Fin x"
    using a q by (simp add: Seconds_def sd float_of_int_small round64_def x_def Let_def)
  have "pow2 (- 30) \<le> of_int a + f"
  proof (cases "a = 0")
    case True
    with ab assms(1) have "1 \<le> b" by simp
    then have "pow2 (- 30) \<le> of_int b / 1000000000" by (simp add: pow2_def)
    then have "pow2 (- 30) \<le> f" unfolding f_def by (intro r64.rn_ge representable_pow2) simp
    with True show ?thesis by simp
  next
    case False
    with a have "1 \<le> (of_int a :: rat)" by simp
    moreover have "pow2 (- 30) \<le> 1" by (simp add: pow2_def)
    ultimately show ?thesis using f by linarith
  qed
  then have "pow2 (- 30) \<le> x" unfolding x_def by (intro r64.rn_ge representable_pow2) simp
  then have "0 < x" using pow2_pos [of "- 30"] by linarith
  with sx show ?thesis by (simp add: x_def r64.repr_rn)
qed

end
