(* ===== verification/Slo_Rules.thy ===== *)
theory Slo_Rules
  imports Slo_Budget Go_Time
begin

text \<open>
  \<open>internal/slo/rules.go\<close>: the PromQL of a claim's error ratio and the recording rules that store
  it over every window the burn-rate alerts compare. Expressions are the text the code formats, so
  that what the alerts read and what the rules record can be compared as text.
\<close>

section \<open>Definitions\<close>

definition RequestsMetric :: string where "RequestsMetric = ''http_requests_total''"
definition DurationMetric :: string where "DurationMetric = ''http_request_duration_seconds''"
definition LabelService :: string where "LabelService = ''service''"
definition LabelOwner :: string where "LabelOwner = ''owner''"
definition LabelTier :: string where "LabelTier = ''tier''"

lemmas rule_label_defs = LabelService_def LabelOwner_def LabelTier_def

text \<open>The fields of \<open>monitoringv1.Rule\<close> the code sets; an unset string is empty.\<close>

record Rule =
  rule_Record :: string
  rule_Alert :: string
  rule_Expr :: string
  rule_Labels :: labels
  rule_Annotations :: labels

definition windows :: "string list" where
  "windows = [''5m'', ''30m'', ''1h'', ''2h'', ''6h'', ''1d'', ''3d'']"

definition RecordName :: "string \<Rightarrow> string \<Rightarrow> string" where
  "RecordName sliType window =
     ''sli:'' @ replace_char CHR ''-'' CHR ''_'' sliType @ '':error_ratio_rate'' @ window"

definition RuleLabels :: "ServiceClaim \<Rightarrow> labels" where
  "RuleLabels sc =
     [LabelService \<mapsto> sc_Name sc, LabelOwner \<mapsto> spec_Owner (sc_Spec sc), LabelTier \<mapsto> spec_Tier (sc_Spec sc)]"

definition goodStatusPattern :: "int list \<Rightarrow> string result" where
  "goodStatusPattern statuses =
     (if statuses = [] then
        Inl (Errorf ''goodStatuses is empty, so every request would count as an error'')
      else Inr (Join (map itoa statuses) ''|''))"

definition LatencyBucket :: "string \<Rightarrow> string result" where
  "LatencyBucket threshold =
     and_then
       (map_error (\<lambda>e. wrap_error (''latencyThreshold '' @ quote threshold @ '' is not a duration: '') e [])
          (ParseDuration threshold))
       (\<lambda>d. if d \<le> 0 then Inl (Errorf (''latencyThreshold '' @ quote threshold @ '' must be positive''))
            else let le = format_shortest (Seconds d)
                 in Inr (if Contains le ''.'' then le else le @ ''.0''))"

text \<open>
  The two queries, over the selector \<open>namespace="..."\<close>: bad requests over all requests, and one
  minus the share of requests at or below the bucket.
\<close>

definition availability_expr :: "string \<Rightarrow> string \<Rightarrow> string \<Rightarrow> string" where
  "availability_expr selector good window =
     ''(sum(rate('' @ RequestsMetric @ ''{'' @ selector @ '',code!~'' @ quote good @ ''}['' @ window @ '']))''
       @ '' or vector(0))'' @ newline @ ''/'' @ newline
       @ ''sum(rate('' @ RequestsMetric @ ''{'' @ selector @ ''}['' @ window @ '']))''"

definition latency_expr :: "string \<Rightarrow> string \<Rightarrow> string \<Rightarrow> string" where
  "latency_expr selector le window =
     ''1 - ('' @ newline @ ''  sum(rate('' @ DurationMetric @ ''_bucket{'' @ selector @ '',le='' @ quote le
       @ ''}['' @ window @ '']))'' @ newline @ ''  /'' @ newline
       @ ''  sum(rate('' @ DurationMetric @ ''_count{'' @ selector @ ''}['' @ window @ '']))'' @ newline @ '')''"

definition ErrorRatioExpr :: "SLISpec \<Rightarrow> string \<Rightarrow> string \<Rightarrow> string result" where
  "ErrorRatioExpr sli namespace window =
     (let selector = ''namespace='' @ quote namespace
      in if sli_Type sli = SLIHTTPAvailability then
           and_then (goodStatusPattern (sli_GoodStatuses sli))
             (\<lambda>good. Inr (availability_expr selector good window))
         else if sli_Type sli = SLIHTTPLatency then
           and_then (LatencyBucket (sli_LatencyThreshold sli))
             (\<lambda>le. Inr (latency_expr selector le window))
         else Inl (Errorf (''unsupported SLI type '' @ quote (sli_Type sli))))"

definition RecordingRules :: "ServiceClaim \<Rightarrow> string \<Rightarrow> Rule list result" where
  "RecordingRules sc namespace =
     traverse
       (\<lambda>window. and_then (ErrorRatioExpr (sc_SLI sc) namespace window)
          (\<lambda>expr. Inr \<lparr>rule_Record = RecordName (sli_Type (sc_SLI sc)) window, rule_Alert = [],
                       rule_Expr = expr, rule_Labels = RuleLabels sc, rule_Annotations = Map.empty\<rparr>))
       windows"

section \<open>Theorems\<close>

lemma RecordName_inject_window: "RecordName t w = RecordName t w' \<longleftrightarrow> w = w'"
  by (simp add: RecordName_def)

lemma rat_set_string_point_zero:
  assumes "rat_set_string s = Some r" "\<not> Contains s ''.''"
  shows "rat_set_string (s @ ''.0'') = Some r"
proof -
  from assms(1) obtain i f where p: "split_decimal s = Some (i, f)" "r = decimal_val (i, f)"
    by (auto simp: rat_set_string_def)
  have "CHR ''.'' \<notin> set s" using assms(2) by (auto simp: Contains_iff sublist_def dest!: split_list)
  then have "list_all is_digit s \<and> s \<noteq> [] \<and> i = s \<and> f = []"
    using p(1) by (auto simp: split_decimal_def Let_def list_all_iff takeWhile_eq_all_conv dropWhile_eq_Nil_conv
        split: list.splits if_splits dest!: arg_cong [of "dropWhile is_digit s" _ set] dest: set_dropWhileD)
  moreover from this have "split_decimal (s @ ''.0'') = Some (s, ''0'')"
    by (intro split_decimal_point) (simp_all add: is_digit_def)
  ultimately show ?thesis
    using p(2) by (simp add: rat_set_string_def decimal_val_def digits_val_append digit_val_def)
qed

lemma LatencyBucket_Inr_iff:
  "LatencyBucket t = Inr le \<longleftrightarrow>
     (\<exists>d. ParseDuration t = Inr d \<and> 0 < d \<and>
          le = (let f = format_shortest (Seconds d) in if Contains f ''.'' then f else f @ ''.0''))"
  by (auto simp: LatencyBucket_def result_iff Let_def not_le)

text \<open>
  The bucket label of an accepted latency threshold is a decimal with a point, as Prometheus
  writes bucket bounds, and reads back as the threshold in seconds.
\<close>

lemma LatencyBucket_reads_back:
  assumes "LatencyBucket threshold = Inr le"
  shows "\<exists>d r. ParseDuration threshold = Inr d \<and> 0 < d \<and> Contains le ''.'' \<and>
           rat_set_string le = Some r \<and> Seconds d = Fin (rnd r)"
proof -
  from assms obtain d where d: "ParseDuration threshold = Inr d" "0 < d"
    and le: "le = (let f = format_shortest (Seconds d) in if Contains f ''.'' then f else f @ ''.0'')"
    by (auto simp: LatencyBucket_Inr_iff)
  from Seconds_positive [OF d(2) ParseDuration_upper [OF d(1)]] obtain x where
    x: "Seconds d = Fin x" "0 < x" "representable x" by blast
  from format_shortest_reads_back [OF x(2,3)] obtain r where
    r: "rat_set_string (format_shortest (Fin x)) = Some r" "rnd r = x" by blast
  then have "rat_set_string le = Some r" by (simp add: le x Let_def rat_set_string_point_zero)
  moreover have "Contains le ''.''" by (simp add: le Let_def Contains_iff sublist_append)
  ultimately show ?thesis using d r x by blast
qed

lemma ErrorRatioExpr_succeeds_iff:
  "succeeds (ErrorRatioExpr sli ns w) \<longleftrightarrow>
     sli_Type sli = SLIHTTPAvailability \<and> sli_GoodStatuses sli \<noteq> [] \<or>
     sli_Type sli = SLIHTTPLatency \<and> (\<exists>d. ParseDuration (sli_LatencyThreshold sli) = Inr d \<and> 0 < d)"
  by (auto simp: ErrorRatioExpr_def result_iff Let_def goodStatusPattern_def succeeds_iff
      LatencyBucket_Inr_iff sli_types)

lemma RecordingRules_records:
  "RecordingRules sc ns = Inr rules \<Longrightarrow>
     map rule_Record rules = map (RecordName (sli_Type (sc_SLI sc))) windows"
proof -
  assume "RecordingRules sc ns = Inr rules"
  then have "list_all2 (\<lambda>w r. rule_Record r = RecordName (sli_Type (sc_SLI sc)) w) windows rules"
    by (auto simp: RecordingRules_def result_iff elim!: list_all2_mono)
  then show ?thesis by (rule list_all2_map_eq)
qed

text \<open>
  The recording rules exist exactly when the claim's SLI is usable: some good status for
  availability, a positive duration for latency. There is then one rule for every window, in order,
  each under its own name, with the claim's labels and the window's error ratio.
\<close>

lemma RecordingRules_spec:
  "(succeeds (RecordingRules sc ns) \<longleftrightarrow>
      sli_Type (sc_SLI sc) = SLIHTTPAvailability \<and> sli_GoodStatuses (sc_SLI sc) \<noteq> [] \<or>
      sli_Type (sc_SLI sc) = SLIHTTPLatency \<and>
        (\<exists>d. ParseDuration (sli_LatencyThreshold (sc_SLI sc)) = Inr d \<and> 0 < d)) \<and>
   (RecordingRules sc ns = Inr rules \<longleftrightarrow>
      list_all2 (\<lambda>w r. rule_Record r = RecordName (sli_Type (sc_SLI sc)) w \<and> rule_Alert r = [] \<and>
                      ErrorRatioExpr (sc_SLI sc) ns w = Inr (rule_Expr r) \<and>
                      rule_Labels r = RuleLabels sc \<and> rule_Annotations r = Map.empty)
        windows rules)"
proof
  have "\<exists>w. w \<in> set windows" by (auto simp: windows_def)
  then show "succeeds (RecordingRules sc ns) \<longleftrightarrow>
      sli_Type (sc_SLI sc) = SLIHTTPAvailability \<and> sli_GoodStatuses (sc_SLI sc) \<noteq> [] \<or>
      sli_Type (sc_SLI sc) = SLIHTTPLatency \<and>
        (\<exists>d. ParseDuration (sli_LatencyThreshold (sc_SLI sc)) = Inr d \<and> 0 < d)"
    by (auto simp: RecordingRules_def traverse_succeeds succeeds_and_then
        ErrorRatioExpr_succeeds_iff succeeds_iff [symmetric])
  show "RecordingRules sc ns = Inr rules \<longleftrightarrow>
      list_all2 (\<lambda>w r. rule_Record r = RecordName (sli_Type (sc_SLI sc)) w \<and> rule_Alert r = [] \<and>
                      ErrorRatioExpr (sc_SLI sc) ns w = Inr (rule_Expr r) \<and>
                      rule_Labels r = RuleLabels sc \<and> rule_Annotations r = Map.empty)
        windows rules"
    unfolding RecordingRules_def traverse_Inr_iff
    by (rule arg_cong [of _ _ "\<lambda>P. list_all2 P windows rules"]) (auto simp: fun_eq_iff and_then_Inr_iff)
qed

end
