(* ===== verification/Slo_Alerts.thy ===== *)
theory Slo_Alerts
  imports Slo_Rules
begin

text \<open>
  \<open>internal/slo/alerts.go\<close>: the multi-window, multi-burn-rate alert table, the exact thresholds the
  alerts compare with, how long a budget lasts at each rate, and the four alert rules of a claim.
\<close>

section \<open>Definitions\<close>

definition AlertName :: string where "AlertName = ''SLOErrorBudgetBurn''"
definition RunbookURL :: string where
  "RunbookURL = ''https://github.com/singha105/paved/blob/main/docs/runbooks/slo-burn-rate.md''"
definition LabelSeverity :: string where "LabelSeverity = ''severity''"
definition LabelLongWindow :: string where "LabelLongWindow = ''long_window''"
definition LabelShortWindow :: string where "LabelShortWindow = ''short_window''"
definition SeverityPage :: string where "SeverityPage = ''page''"
definition SeverityTicket :: string where "SeverityTicket = ''ticket''"

lemmas alert_label_defs = LabelSeverity_def LabelLongWindow_def LabelShortWindow_def

record BurnRateAlert =
  Severity :: string
  BurnRate_text :: string
  LongWindow :: string
  ShortWindow :: string

definition burnRateAlerts :: "BurnRateAlert list" where
  "burnRateAlerts =
     [\<lparr>Severity = SeverityPage, BurnRate_text = ''14.4'', LongWindow = ''1h'', ShortWindow = ''5m''\<rparr>,
      \<lparr>Severity = SeverityPage, BurnRate_text = ''6'', LongWindow = ''6h'', ShortWindow = ''30m''\<rparr>,
      \<lparr>Severity = SeverityTicket, BurnRate_text = ''3'', LongWindow = ''1d'', ShortWindow = ''2h''\<rparr>,
      \<lparr>Severity = SeverityTicket, BurnRate_text = ''1'', LongWindow = ''3d'', ShortWindow = ''6h''\<rparr>]"

definition Threshold :: "BurnRateAlert \<Rightarrow> rat \<Rightarrow> string result" where
  "Threshold a budget =
     (case rat_set_string (BurnRate_text a) of
        None \<Rightarrow> Inl (Errorf (''burn rate '' @ quote (BurnRate_text a) @ '' is not a number''))
      | Some burnRate \<Rightarrow> Inr (Decimal (burnRate * budget)))"

definition Rate :: "BurnRateAlert \<Rightarrow> float64 result" where
  "Rate a =
     (let err = Inl (Errorf (''burn rate '' @ quote (BurnRate_text a) @ '' is not a positive number''))
      in case ParseFloat (BurnRate_text a) of
           None \<Rightarrow> err
         | Some rate \<Rightarrow> if f_le rate (Fin 0) then err else Inr rate)"

definition BudgetLifetime :: "BurnRateAlert \<Rightarrow> int \<Rightarrow> string result" where
  "BudgetLifetime a window =
     and_then (Rate a)
       (\<lambda>burnRate.
          let hours = f_div (Hours window) burnRate
          in if f_less hours (Fin 48) then Inr (format_shortest (f_round hours) @ '' hours'')
             else Inr (format_shortest (f_div (f_round (f_mul (f_div hours (Fin 24)) (Fin 10))) (Fin 10)) @ '' days''))"

text \<open>\<open>time.Duration(days) * 24 * time.Hour\<close> wraps at 64 bits after each product.\<close>

definition SLOWindow :: "string \<Rightarrow> int result" where
  "SLOWindow window =
     (let err = Inl (Errorf (''SLO window '' @ quote window @ '' is not a whole number of days such as 28d''))
      in case Atoi (TrimSuffix window ''d'') of
           None \<Rightarrow> err
         | Some days \<Rightarrow>
             if \<not> HasSuffix window ''d'' \<or> days \<le> 0 then err
             else Inr (wrap64 (wrap64 (days * 24) * Hour)))"

text \<open>One row of the table as a rule: the loop body of \<open>AlertRules\<close>.\<close>

definition alert_expr :: "ServiceClaim \<Rightarrow> BurnRateAlert \<Rightarrow> string \<Rightarrow> string" where
  "alert_expr sc a threshold =
     RecordName (sli_Type (sc_SLI sc)) (LongWindow a) @ ''{service='' @ quote (sc_Name sc) @ ''} > '' @ threshold
       @ newline @ ''and'' @ newline
       @ RecordName (sli_Type (sc_SLI sc)) (ShortWindow a) @ ''{service='' @ quote (sc_Name sc) @ ''} > '' @ threshold"

definition alert_rule :: "ServiceClaim \<Rightarrow> string \<Rightarrow> rat \<Rightarrow> int \<Rightarrow> BurnRateAlert \<Rightarrow> Rule result" where
  "alert_rule sc runbook budget window a =
     and_then (Threshold a budget) (\<lambda>threshold.
     and_then (BudgetLifetime a window) (\<lambda>lifetime.
       Inr \<lparr>rule_Record = [], rule_Alert = AlertName, rule_Expr = alert_expr sc a threshold,
            rule_Labels = (RuleLabels sc)(LabelSeverity \<mapsto> Severity a, LabelLongWindow \<mapsto> LongWindow a,
                             LabelShortWindow \<mapsto> ShortWindow a),
            rule_Annotations =
              [''summary'' \<mapsto> sc_Name sc @ '' is spending its error budget '' @ BurnRate_text a
                  @ ''x faster than it can sustain'',
               ''description'' \<mapsto> ''The error ratio is above '' @ threshold @ '' over both the last '' @ LongWindow a
                  @ '' and the last '' @ ShortWindow a @ ''. At '' @ BurnRate_text a @ ''x, the ''
                  @ slo_Window (sc_SLO sc) @ '' error budget of '' @ Decimal budget @ '' lasts about '' @ lifetime @ ''.'',
               ''owner'' \<mapsto> spec_Owner (sc_Spec sc),
               ''runbook_url'' \<mapsto> RunbookURL,
               ''runbook'' \<mapsto> runbook]\<rparr>))"

definition AlertRules :: "ServiceClaim \<Rightarrow> string \<Rightarrow> Rule list result" where
  "AlertRules sc runbook =
     and_then (ErrorBudget (slo_Objective (sc_SLO sc))) (\<lambda>budget.
     and_then (SLOWindow (slo_Window (sc_SLO sc))) (\<lambda>window.
       traverse (alert_rule sc runbook budget window) burnRateAlerts))"

section \<open>The table\<close>

text \<open>The burn rate of a row as a number.\<close>

definition burn_rate_of :: "BurnRateAlert \<Rightarrow> rat" where
  "burn_rate_of a = (case rat_set_string (BurnRate_text a) of None \<Rightarrow> 0 | Some r \<Rightarrow> r)"

lemma table_numbers:
  "list_all (\<lambda>a. rat_set_string (BurnRate_text a) = Some (burn_rate_of a) \<and> 0 < burn_rate_of a \<and>
      burn_rate_of a = of_int \<lfloor>burn_rate_of a * 10\<rfloor> / 10) burnRateAlerts"
  by code_simp

lemma table_rates: "list_all (\<lambda>a. Rate a = Inr (round64 (burn_rate_of a))) burnRateAlerts"
  by code_simp

lemma table_row:
  assumes "a \<in> set burnRateAlerts"
  shows "rat_set_string (BurnRate_text a) = Some (burn_rate_of a)" "0 < burn_rate_of a"
    "\<exists>k. burn_rate_of a = of_int k / 10" "\<exists>v. Rate a = Inr v"
  using assms table_numbers table_rates by (auto simp: list_all_iff)

lemma table_windows_recorded:
  "a \<in> set burnRateAlerts \<Longrightarrow> LongWindow a \<in> set windows \<and> ShortWindow a \<in> set windows"
  by (auto simp: burnRateAlerts_def windows_def)

lemma Threshold_total:
  "a \<in> set burnRateAlerts \<Longrightarrow> Threshold a budget = Inr (Decimal (burn_rate_of a * budget))"
  by (simp add: Threshold_def table_row)

lemma BudgetLifetime_total: "a \<in> set burnRateAlerts \<Longrightarrow> succeeds (BudgetLifetime a window)"
  using table_row(4) [of a] by (auto simp: BudgetLifetime_def succeeds_iff Let_def)

text \<open>The threshold's text is exact: it reads back as burn rate times budget.\<close>

lemma threshold_exact:
  assumes "ErrorBudget objective = Inr budget" "a \<in> set burnRateAlerts"
  shows "rat_set_string (Decimal (burn_rate_of a * budget)) = Some (burn_rate_of a * budget)"
proof -
  from ErrorBudget_decimal [OF assms(1)] obtain n k where "budget = of_int n / 10 ^ k" by blast
  moreover from table_row(3) [OF assms(2)] obtain m where "burn_rate_of a = of_int m / 10" by blast
  ultimately have "burn_rate_of a * budget = of_int (m * n) / 10 ^ Suc k" by (simp only:) simp
  moreover have "0 \<le> burn_rate_of a * budget"
    using table_row(2) [OF assms(2)] ErrorBudget_bounds [OF assms(1)] by simp
  ultimately show ?thesis by (rule Decimal_exact [rotated])
qed

section \<open>The alert rules\<close>

lemma alert_rule_succeeds: "a \<in> set burnRateAlerts \<Longrightarrow> succeeds (alert_rule sc runbook budget window a)"
  using BudgetLifetime_total [of a window] by (auto simp: alert_rule_def Threshold_total succeeds_iff)

lemma alert_rule_Inr:
  assumes "a \<in> set burnRateAlerts" "alert_rule sc runbook budget window a = Inr r"
  shows "rule_Expr r = alert_expr sc a (Decimal (burn_rate_of a * budget))" "rule_Alert r = AlertName"
    "rule_Labels r = (RuleLabels sc)(LabelSeverity \<mapsto> Severity a, LabelLongWindow \<mapsto> LongWindow a,
                        LabelShortWindow \<mapsto> ShortWindow a)"
  using assms by (auto simp: alert_rule_def Threshold_total result_iff)

lemma AlertRules_rows:
  assumes "AlertRules sc runbook = Inr rules"
  obtains budget window where "ErrorBudget (slo_Objective (sc_SLO sc)) = Inr budget"
    and "list_all2 (\<lambda>a r. a \<in> set burnRateAlerts \<and> alert_rule sc runbook budget window a = Inr r)
           burnRateAlerts rules"
proof -
  from assms obtain budget window where b: "ErrorBudget (slo_Objective (sc_SLO sc)) = Inr budget"
    and l: "list_all2 (\<lambda>a r. alert_rule sc runbook budget window a = Inr r) burnRateAlerts rules"
    by (auto simp: AlertRules_def result_iff)
  from l have "list_all2 (\<lambda>a r. a \<in> set burnRateAlerts \<and> alert_rule sc runbook budget window a = Inr r)
           burnRateAlerts rules"
    by (simp add: list_all2_conv_all_nth)
  with b show thesis by (rule that)
qed

text \<open>
  C35: a claim's alerts are the four rows of the table in order. Each compares the error ratio over
  its long and its short window, both recorded by the claim's recording rules, with one number,
  whose text reads back as exactly burn rate times budget; and each carries the claim's labels.
\<close>

theorem AlertRules_spec:
  assumes "AlertRules sc runbook = Inr alerts" and "RecordingRules sc ns = Inr records"
  shows "\<exists>budget. ErrorBudget (slo_Objective (sc_SLO sc)) = Inr budget \<and>
           list_all2 (\<lambda>a r. \<exists>long short t.
               long \<in> set (map rule_Record records) \<and> short \<in> set (map rule_Record records) \<and>
               long = RecordName (sli_Type (sc_SLI sc)) (LongWindow a) \<and>
               short = RecordName (sli_Type (sc_SLI sc)) (ShortWindow a) \<and>
               rule_Expr r = long @ ''{service='' @ quote (sc_Name sc) @ ''} > '' @ t @ newline @ ''and'' @ newline
                 @ short @ ''{service='' @ quote (sc_Name sc) @ ''} > '' @ t \<and>
               rat_set_string t = Some (burn_rate_of a * budget) \<and>
               RuleLabels sc \<subseteq>\<^sub>m rule_Labels r \<and> rule_Labels r LabelSeverity = Some (Severity a))
             burnRateAlerts alerts"
proof -
  from assms(1) obtain budget window where b: "ErrorBudget (slo_Objective (sc_SLO sc)) = Inr budget"
    and rows: "list_all2 (\<lambda>a r. a \<in> set burnRateAlerts \<and> alert_rule sc runbook budget window a = Inr r)
                 burnRateAlerts alerts" by (rule AlertRules_rows)
  have labels: "RuleLabels sc \<subseteq>\<^sub>m (RuleLabels sc)(LabelSeverity \<mapsto> x, LabelLongWindow \<mapsto> y, LabelShortWindow \<mapsto> z)" for x y z
    by (simp add: map_le_def RuleLabels_def rule_label_defs alert_label_defs)
  show ?thesis
  proof (intro exI conjI, rule b, rule list_all2_mono [OF rows], elim conjE)
    fix a r
    assume a: "a \<in> set burnRateAlerts" and r: "alert_rule sc runbook budget window a = Inr r"
    note facts = alert_rule_Inr [OF a r] threshold_exact [OF b a] table_windows_recorded [OF a]
    show "\<exists>long short t.
               long \<in> set (map rule_Record records) \<and> short \<in> set (map rule_Record records) \<and>
               long = RecordName (sli_Type (sc_SLI sc)) (LongWindow a) \<and>
               short = RecordName (sli_Type (sc_SLI sc)) (ShortWindow a) \<and>
               rule_Expr r = long @ ''{service='' @ quote (sc_Name sc) @ ''} > '' @ t @ newline @ ''and'' @ newline
                 @ short @ ''{service='' @ quote (sc_Name sc) @ ''} > '' @ t \<and>
               rat_set_string t = Some (burn_rate_of a * budget) \<and>
               RuleLabels sc \<subseteq>\<^sub>m rule_Labels r \<and> rule_Labels r LabelSeverity = Some (Severity a)"
      using facts labels unfolding RecordingRules_records [OF assms(2)]
      by (intro exI [of _ "RecordName (sli_Type (sc_SLI sc)) (LongWindow a)"]
          exI [of _ "RecordName (sli_Type (sc_SLI sc)) (ShortWindow a)"] exI [of _ "Decimal (burn_rate_of a * budget)"])
        (simp add: alert_expr_def alert_label_defs)
  qed
qed

text \<open>A claim whose rules exist, for the witnesses.\<close>

definition example_claim :: ServiceClaim where
  "example_claim =
     \<lparr>sc_Name = ''shortlink'', sc_Namespace = ''default'', sc_Labels = Map.empty, sc_Annotations = Map.empty,
      sc_Generation = 1, sc_DeletionTimestamp = None, sc_Finalizers = [],
      sc_Spec = \<lparr>spec_Owner = ''payments'', spec_Image = ''ghcr.io/x/shortlink:v1'', spec_Port = 8080,
        spec_Tier = ''public'',
        spec_SLI = \<lparr>sli_Type = ''http-availability'', sli_GoodStatuses = [200, 404], sli_LatencyThreshold = []\<rparr>,
        spec_SLO = \<lparr>slo_Objective = ''99.5'', slo_Window = ''28d''\<rparr>,
        spec_Scale = \<lparr>scale_Min = 2, scale_Max = 6\<rparr>, spec_Storage = False\<rparr>,
      sc_Status = \<lparr>status_Conditions = [], status_ErrorBudgetRemaining = [], status_BurnRate1h = [],
        status_ManagedResources = 0, status_ObservedGeneration = 0, status_LastReconcileTime = None,
        status_Storage = None\<rparr>\<rparr>"

lemma example_budget: "ErrorBudget (slo_Objective (sc_SLO example_claim)) = Inr (1 / 200)"
  by code_simp

lemma example_window: "SLOWindow (slo_Window (sc_SLO example_claim)) = Inr 2419200000000000"
  by code_simp

lemma example_alerts: "succeeds (AlertRules example_claim runbook)"
  by (simp add: AlertRules_def example_budget example_window traverse_succeeds alert_rule_succeeds)

lemma example_records: "succeeds (RecordingRules example_claim ns)"
  by (auto simp: RecordingRules_def traverse_succeeds succeeds_and_then ErrorRatioExpr_succeeds_iff succeeds_iff
      [symmetric] example_claim_def sli_types)

theorem AlertRules_spec_witness:
  "\<exists>alerts records budget. AlertRules example_claim ''rb'' = Inr alerts \<and>
     RecordingRules example_claim ''svc-shortlink'' = Inr records \<and>
     ErrorBudget ''99.5'' = Inr budget \<and> length alerts = length burnRateAlerts"
proof -
  obtain alerts records where a: "AlertRules example_claim ''rb'' = Inr alerts"
    and r: "RecordingRules example_claim ''svc-shortlink'' = Inr records"
    using example_alerts [of "''rb''"] example_records [of "''svc-shortlink''"] unfolding succeeds_iff by blast
  from AlertRules_spec [OF a r] show ?thesis
    using a r by (auto simp: example_claim_def dest: list_all2_lengthD)
qed

text \<open>
  The alerts can be built exactly when the objective and the window are accepted; the rows of
  the table never fail.
\<close>

lemma AlertRules_succeeds_iff:
  "succeeds (AlertRules sc runbook) \<longleftrightarrow>
     succeeds (ErrorBudget (slo_Objective (sc_SLO sc))) \<and> succeeds (SLOWindow (slo_Window (sc_SLO sc)))"
  by (cases "ErrorBudget (slo_Objective (sc_SLO sc))"; cases "SLOWindow (slo_Window (sc_SLO sc))")
    (simp_all add: AlertRules_def traverse_succeeds alert_rule_succeeds)

lemma SLOWindow_days:
  assumes "0 < n" "is_int64 n"
  shows "SLOWindow (utoa n @ ''d'') = Inr (wrap64 (wrap64 (n * 24) * Hour))"
  using assms by (simp add: SLOWindow_def TrimSuffix_def HasSuffix_def suffix_def Atoi_utoa)

text \<open>
  A window of up to 106751 days is that many days in nanoseconds.
\<close>

lemma SLOWindow_exact:
  assumes "0 < n" and "n \<le> 106751"
  shows "SLOWindow (utoa n @ ''d'') = Inr (n * 24 * Hour)"
  using assms by (simp add: SLOWindow_days is_int64_def Hour_def)

text \<open>
  One more day overflows the 64-bit duration: the window is accepted and negative. The CRD
  admits only 7d, 28d and 30d, so no stored claim gets there.
\<close>

lemma SLOWindow_overflow: "\<exists>w. SLOWindow ''106752d'' = Inr w \<and> w < 0"
proof -
  have "SLOWindow ''106752d'' = Inr (- 9223371273709551616)" by code_simp
  then show ?thesis by simp
qed

text \<open>
  All four alerts share one name, and no two of them share their labels.
\<close>

lemma AlertRules_told_apart:
  assumes "AlertRules sc runbook = Inr alerts"
  shows "(\<forall>r \<in> set alerts. rule_Alert r = AlertName) \<and> distinct (map rule_Labels alerts) \<and> length alerts = 4"
proof -
  from assms obtain budget window where
    rows: "list_all2 (\<lambda>a r. a \<in> set burnRateAlerts \<and> alert_rule sc runbook budget window a = Inr r)
                 burnRateAlerts alerts" by (rule AlertRules_rows)
  have "list_all2 (\<lambda>a r. rule_Labels r LabelLongWindow = Some (LongWindow a)) burnRateAlerts alerts"
    using rows by (rule list_all2_mono) (auto simp: alert_rule_Inr alert_label_defs)
  then have "map (\<lambda>r. rule_Labels r LabelLongWindow) alerts = map (\<lambda>a. Some (LongWindow a)) burnRateAlerts"
    by (rule list_all2_map_eq)
  moreover have "distinct (map (\<lambda>a. Some (LongWindow a)) burnRateAlerts)" by (simp add: burnRateAlerts_def)
  ultimately have "distinct (map (\<lambda>l. l LabelLongWindow) (map rule_Labels alerts))" by (simp add: comp_def)
  moreover have "list_all2 (\<lambda>a r. rule_Alert r = AlertName) burnRateAlerts alerts"
    using rows by (rule list_all2_mono) (auto simp: alert_rule_Inr)
  then have "\<forall>r \<in> set alerts. rule_Alert r = AlertName" by (blast dest: list_all2_ballD)
  moreover have "length alerts = 4" using list_all2_lengthD [OF rows] by (simp add: burnRateAlerts_def)
  ultimately show ?thesis by (blast dest: distinct_map [THEN iffD1])
qed

end
