(* ===== verification/Go_Json.thy ===== *)
theory Go_Json
  imports Go_Strings "HOL-Library.List_Lexorder" "HOL-Library.Char_ord"
begin

text \<open>
  \<open>encoding/json\<close>: values, \<open>Marshal\<close> and \<open>MarshalIndent\<close>. Strings hold valid UTF-8, as every string
  the API server stores does.
\<close>

datatype json =
    JString string
  | JInt int
  | JBool bool
  | JArray "json list"
  | JObject "(string \<times> json) list"

text \<open>A struct's fields come in the order of its declaration, a map's entries sorted by key.\<close>

definition json_map :: "(string \<times> json) list \<Rightarrow> json" where
  "json_map kvs = JObject (sort_key fst kvs)"

text \<open>The bytes escaped in a string; \<open>Marshal\<close> also escapes the characters HTML gives a meaning.\<close>

definition json_char :: "char \<Rightarrow> string" where
  "json_char c =
     (let n = byte c
      in if n = 34 \<or> n = 92 then [CHR 0x5C, c]
         else if n = 8 then [CHR 0x5C, CHR ''b'']
         else if n = 12 then [CHR 0x5C, CHR ''f'']
         else if n = 10 then [CHR 0x5C, CHR ''n'']
         else if n = 13 then [CHR 0x5C, CHR ''r'']
         else if n = 9 then [CHR 0x5C, CHR ''t'']
         else if n < 32 \<or> n = 60 \<or> n = 62 \<or> n = 38 then [CHR 0x5C] @ ''u00'' @ hex_byte n
         else [c])"

fun json_chars :: "string \<Rightarrow> string" where
  "json_chars [] = []"
| "json_chars (c # s) =
     (if c = CHR 0xE2 \<and> take 2 s = [CHR 0x80, CHR 0xA8] then [CHR 0x5C] @ ''u2028'' @ json_chars (drop 2 s)
      else if c = CHR 0xE2 \<and> take 2 s = [CHR 0x80, CHR 0xA9] then [CHR 0x5C] @ ''u2029'' @ json_chars (drop 2 s)
      else json_char c @ json_chars s)"

definition json_string :: "string \<Rightarrow> string" where
  "json_string s = [CHR 0x22] @ json_chars s @ [CHR 0x22]"

fun Marshal :: "json \<Rightarrow> string" where
  "Marshal (JString s) = json_string s"
| "Marshal (JInt n) = itoa n"
| "Marshal (JBool b) = (if b then ''true'' else ''false'')"
| "Marshal (JArray xs) = ''['' @ Join (map Marshal xs) '','' @ '']''"
| "Marshal (JObject kvs) = ''{'' @ Join (map (\<lambda>(k, v). json_string k @ '':'' @ Marshal v) kvs) '','' @ ''}''"

text \<open>\<open>MarshalIndent(v, "", "  ")\<close>, at nesting depth \<open>d\<close>.\<close>

definition indent :: "nat \<Rightarrow> string" where
  "indent d = newline @ concat (replicate d ''  '')"

fun marshal_indent :: "nat \<Rightarrow> json \<Rightarrow> string" where
  "marshal_indent d (JArray xs) =
     (if xs = [] then ''[]''
      else ''['' @ Join (map (\<lambda>v. indent (Suc d) @ marshal_indent (Suc d) v) xs) '','' @ indent d @ '']'')"
| "marshal_indent d (JObject kvs) =
     (if kvs = [] then ''{}''
      else ''{'' @ Join (map (\<lambda>(k, v). indent (Suc d) @ json_string k @ '': '' @ marshal_indent (Suc d) v) kvs) '',''
             @ indent d @ ''}'')"
| "marshal_indent d v = Marshal v"

definition MarshalIndent :: "json \<Rightarrow> string" where
  "MarshalIndent v = marshal_indent 0 v"

section \<open>Plain strings\<close>

text \<open>A string of ASCII letters, digits and the punctuation of names and ARNs is written as it is.\<close>

definition json_plain :: "string \<Rightarrow> bool" where
  "json_plain s \<longleftrightarrow> (\<forall>c \<in> set s. 32 \<le> byte c \<and> byte c < 127 \<and> byte c \<notin> {34, 92, 60, 62, 38})"

lemma json_chars_plain: "json_plain s \<Longrightarrow> json_chars s = s"
proof (induction s)
  case Nil
  show ?case by simp
next
  case (Cons c s)
  then have c: "32 \<le> byte c" "byte c < 127" "byte c \<notin> {34, 92, 60, 62, 38}" and s: "json_chars s = s"
    by (auto simp: json_plain_def)
  from c(2) have "c \<noteq> CHR 0xE2" by auto
  with c s show ?case by (simp add: json_char_def Let_def)
qed

end
