(* ===== verification/K8s_Objects.thy ===== *)
theory K8s_Objects
  imports Slo_Alerts Go_Json
begin

text \<open>
  The Kubernetes, Argo Rollouts and Prometheus Operator types the builders fill in: one record per
  Go struct, with the fields the code sets. Every object is a \<open>client_object\<close>: its type and object
  metadata, and the spec of its kind.
\<close>

datatype int_or_string = FromInt int | FromString string

section \<open>Networking and scaling\<close>

record ServicePort =
  svp_Name :: string
  svp_Protocol :: string
  svp_Port :: int
  svp_TargetPort :: int_or_string

record ServiceSpec =
  svs_Type :: string
  svs_Selector :: labels
  svs_Ports :: "ServicePort list"

record PodDisruptionBudgetSpec =
  pdb_MaxUnavailable :: int_or_string
  pdb_Selector :: labels

record MetricSpec =
  ms_Type :: string
  ms_ResourceName :: string
  ms_TargetType :: string
  ms_AverageUtilization :: int

record HorizontalPodAutoscalerSpec =
  hpa_TargetAPIVersion :: string
  hpa_TargetKind :: string
  hpa_TargetName :: string
  hpa_MinReplicas :: int
  hpa_MaxReplicas :: int
  hpa_Metrics :: "MetricSpec list"

record HTTPIngressPath =
  ip_Path :: string
  ip_PathType :: string
  ip_ServiceName :: string
  ip_ServicePort :: string

record IngressRule =
  ir_Host :: string
  ir_Paths :: "HTTPIngressPath list"

record IngressSpec =
  ing_ClassName :: string
  ing_Rules :: "IngressRule list"

text \<open>A nil selector is \<open>None\<close>; an empty one selects everything.\<close>

record NetworkPolicyPeer =
  npp_PodSelector :: "labels option"
  npp_NamespaceSelector :: "labels option"

record NetworkPolicyPort =
  np_Protocol :: string
  np_Port :: int_or_string

record NetworkPolicyIngressRule =
  npr_From :: "NetworkPolicyPeer list"
  npr_Ports :: "NetworkPolicyPort list"

record NetworkPolicySpec =
  nps_PodSelector :: labels
  nps_PolicyTypes :: "string list"
  nps_Ingress :: "NetworkPolicyIngressRule list"

section \<open>Monitoring and analysis\<close>

record Endpoint =
  ep_Port :: string
  ep_Path :: string
  ep_Interval :: string

record ServiceMonitorSpec =
  smn_Selector :: labels
  smn_Endpoints :: "Endpoint list"

record RuleGroup =
  rg_Name :: string
  rg_Rules :: "Rule list"

record AnalysisMetric =
  am_Name :: string
  am_Interval :: string
  am_FailureCondition :: string
  am_FailureLimit :: int_or_string
  am_PrometheusAddress :: string
  am_PrometheusQuery :: string

section \<open>Pods and rollouts\<close>

record HTTPProbe =
  pr_Path :: string
  pr_Port :: int_or_string
  pr_InitialDelaySeconds :: int
  pr_PeriodSeconds :: int
  pr_FailureThreshold :: int

text \<open>CPU in thousandths of a core, memory in bytes.\<close>

record ResourceList =
  rl_CPU :: int
  rl_Memory :: int

record ContainerPort =
  cp_Name :: string
  cp_ContainerPort :: int
  cp_Protocol :: string

record VolumeMount =
  vm_Name :: string
  vm_MountPath :: string
  vm_ReadOnly :: bool

record Container =
  ct_Name :: string
  ct_Image :: string
  ct_Ports :: "ContainerPort list"
  ct_Requests :: ResourceList
  ct_Limits :: ResourceList
  ct_AllowPrivilegeEscalation :: bool
  ct_ReadOnlyRootFilesystem :: bool
  ct_DropCapabilities :: "string list"
  ct_ReadinessProbe :: HTTPProbe
  ct_LivenessProbe :: HTTPProbe
  ct_Env :: "(string \<times> string) list"
  ct_VolumeMounts :: "VolumeMount list"

text \<open>A projected service-account token.\<close>

record TokenVolume =
  tv_Name :: string
  tv_Audience :: string
  tv_ExpirationSeconds :: int
  tv_Path :: string

record PodSpec =
  ps_ServiceAccountName :: string
  ps_RunAsNonRoot :: bool
  ps_RunAsUser :: int
  ps_SeccompProfile :: string
  ps_Containers :: "Container list"
  ps_Volumes :: "TokenVolume list"

datatype CanaryStep = SetWeight int | Pause int_or_string

record AnalysisBackground =
  ab_Templates :: "string list"
  ab_StartingStep :: int

record RolloutSpec =
  ros_Replicas :: "int option"
  ros_Selector :: labels
  ros_TemplateLabels :: labels
  ros_PodSpec :: PodSpec
  ros_Steps :: "CanaryStep list"
  ros_Analysis :: "AnalysisBackground option"

section \<open>Objects\<close>

datatype object_spec =
    NoSpec
  | ServiceSpec_of ServiceSpec
  | PDBSpec_of PodDisruptionBudgetSpec
  | HPASpec_of HorizontalPodAutoscalerSpec
  | IngressSpec_of IngressSpec
  | NetworkPolicySpec_of NetworkPolicySpec
  | ServiceMonitorSpec_of ServiceMonitorSpec
  | RuleGroups_of "RuleGroup list"
  | AnalysisMetrics_of "AnalysisMetric list"
  | RolloutSpec_of RolloutSpec
  | Data_of labels
  | Unstructured_of json

record client_object =
  o_APIVersion :: string
  o_Kind :: string
  o_Name :: string
  o_Namespace :: string
  o_Labels :: labels
  o_Annotations :: labels
  o_Spec :: object_spec

text \<open>What tells objects apart in a cluster.\<close>

definition identity :: "client_object \<Rightarrow> string \<times> string \<times> string \<times> string" where
  "identity ob = (o_APIVersion ob, o_Kind ob, o_Namespace ob, o_Name ob)"

end
