(* ===== verification/Builders_Core.thy ===== *)
theory Builders_Core
  imports K8s_Objects
begin

text \<open>
  The builders of package \<open>internal/builders\<close> that read only the claim: names and labels
  (\<open>builders.go\<close>), the namespace, service account, service, disruption budget, autoscaler, ingress,
  network policy and service monitor. The network policy is compared with who should be able to
  connect, by the meaning Kubernetes gives to its rules.
\<close>

section \<open>Names and labels: builders.go\<close>

definition LabelName :: string where "LabelName = ''app.kubernetes.io/name''"
definition LabelManagedBy :: string where "LabelManagedBy = ''app.kubernetes.io/managed-by''"
definition LabelClaim :: string where "LabelClaim = ''paved.dev/claim''"
definition LabelClaimNamespace :: string where "LabelClaimNamespace = ''paved.dev/claim-namespace''"
definition LabelClaimOwner :: string where "LabelClaimOwner = ''paved.dev/owner''"
definition ManagedBy :: string where "ManagedBy = ''paved''"
definition PortName :: string where "PortName = ''http''"
definition ServicePort_default :: int where "ServicePort_default = 80"
definition namespacePrefix :: string where "namespacePrefix = ''svc-''"

lemmas object_label_defs = LabelName_def LabelManagedBy_def LabelClaim_def LabelClaimNamespace_def LabelClaimOwner_def

definition NamespaceName :: "ServiceClaim \<Rightarrow> string" where
  "NamespaceName sc = namespacePrefix @ sc_Name sc"

definition RunbookName :: "ServiceClaim \<Rightarrow> string" where
  "RunbookName sc = sc_Name sc @ ''-runbook''"

definition Labels :: "ServiceClaim \<Rightarrow> labels" where
  "Labels sc =
     [LabelName \<mapsto> sc_Name sc, LabelManagedBy \<mapsto> ManagedBy, LabelClaim \<mapsto> sc_Name sc,
      LabelClaimNamespace \<mapsto> sc_Namespace sc, LabelClaimOwner \<mapsto> spec_Owner (sc_Spec sc)]"

definition SelectorLabels :: "ServiceClaim \<Rightarrow> labels" where
  "SelectorLabels sc = [LabelName \<mapsto> sc_Name sc]"

text \<open>An object called \<open>name\<close> in the claim's namespace: \<open>TypeMeta\<close> and \<open>objectMeta(sc, name)\<close>.\<close>

definition objectMeta :: "ServiceClaim \<Rightarrow> string \<Rightarrow> string \<Rightarrow> string \<Rightarrow> object_spec \<Rightarrow> client_object" where
  "objectMeta sc apiVersion kind name spec =
     \<lparr>o_APIVersion = apiVersion, o_Kind = kind, o_Name = name, o_Namespace = NamespaceName sc,
      o_Labels = Labels sc, o_Annotations = Map.empty, o_Spec = spec\<rparr>"

section \<open>Replicas: rollout.go\<close>

definition publicMinReplicas :: int where "publicMinReplicas = 2"
definition rolloutKind :: string where "rolloutKind = ''Rollout''"
definition rolloutAPIVersion :: string where "rolloutAPIVersion = ''argoproj.io/v1alpha1''"

definition MinReplicas :: "ServiceClaim \<Rightarrow> int" where
  "MinReplicas sc =
     (if sc_Tier sc = TierPublic then max (scale_Min (spec_Scale (sc_Spec sc))) publicMinReplicas
      else if sc_Tier sc = TierInternal then scale_Min (spec_Scale (sc_Spec sc))
      else 1)"

definition HasAutoscaling :: "ServiceClaim \<Rightarrow> bool" where
  "HasAutoscaling sc \<longleftrightarrow> sc_Tier sc = TierPublic \<or> sc_Tier sc = TierInternal"

section \<open>The objects\<close>

definition BuildNamespace :: "ServiceClaim \<Rightarrow> client_object" where
  "BuildNamespace sc =
     \<lparr>o_APIVersion = ''v1'', o_Kind = ''Namespace'', o_Name = NamespaceName sc, o_Namespace = [],
      o_Labels = Labels sc, o_Annotations = Map.empty, o_Spec = NoSpec\<rparr>"

definition BuildServiceAccount :: "ServiceClaim \<Rightarrow> client_object" where
  "BuildServiceAccount sc = objectMeta sc ''v1'' ''ServiceAccount'' (sc_Name sc) NoSpec"

definition BuildService :: "ServiceClaim \<Rightarrow> client_object" where
  "BuildService sc = objectMeta sc ''v1'' ''Service'' (sc_Name sc)
     (ServiceSpec_of
        \<lparr>svs_Type = ''ClusterIP'', svs_Selector = SelectorLabels sc,
         svs_Ports = [\<lparr>svp_Name = PortName, svp_Protocol = ''TCP'', svp_Port = ServicePort_default,
                       svp_TargetPort = FromString PortName\<rparr>]\<rparr>)"

definition BuildPodDisruptionBudget :: "ServiceClaim \<Rightarrow> client_object" where
  "BuildPodDisruptionBudget sc = objectMeta sc ''policy/v1'' ''PodDisruptionBudget'' (sc_Name sc)
     (PDBSpec_of \<lparr>pdb_MaxUnavailable = FromInt 1, pdb_Selector = SelectorLabels sc\<rparr>)"

definition cpuTargetUtilization :: int where "cpuTargetUtilization = 70"

definition BuildHPA :: "ServiceClaim \<Rightarrow> client_object" where
  "BuildHPA sc = objectMeta sc ''autoscaling/v2'' ''HorizontalPodAutoscaler'' (sc_Name sc)
     (HPASpec_of
        \<lparr>hpa_TargetAPIVersion = rolloutAPIVersion, hpa_TargetKind = rolloutKind, hpa_TargetName = sc_Name sc,
         hpa_MinReplicas = MinReplicas sc,
         hpa_MaxReplicas = max (scale_Max (spec_Scale (sc_Spec sc))) (MinReplicas sc),
         hpa_Metrics = [\<lparr>ms_Type = ''Resource'', ms_ResourceName = ''cpu'', ms_TargetType = ''Utilization'',
                         ms_AverageUtilization = cpuTargetUtilization\<rparr>]\<rparr>)"

definition IngressClassName :: string where "IngressClassName = ''traefik''"
definition ingressHostSuffix :: string where "ingressHostSuffix = ''.localhost''"

definition IngressHost :: "ServiceClaim \<Rightarrow> string" where
  "IngressHost sc = sc_Name sc @ ingressHostSuffix"

definition BuildIngress :: "ServiceClaim \<Rightarrow> client_object" where
  "BuildIngress sc = objectMeta sc ''networking.k8s.io/v1'' ''Ingress'' (sc_Name sc)
     (IngressSpec_of
        \<lparr>ing_ClassName = IngressClassName,
         ing_Rules = [\<lparr>ir_Host = IngressHost sc,
           ir_Paths = [\<lparr>ip_Path = ''/'', ip_PathType = ''Prefix'', ip_ServiceName = sc_Name sc,
                        ip_ServicePort = PortName\<rparr>]\<rparr>]\<rparr>)"

definition IngressNamespace :: string where "IngressNamespace = ''traefik''"
definition MonitoringNamespace :: string where "MonitoringNamespace = ''monitoring''"
definition PlatformNamespace :: string where "PlatformNamespace = ''platform-system''"
definition namespaceNameLabel :: string where "namespaceNameLabel = ''kubernetes.io/metadata.name''"

definition namespacePeer :: "string \<Rightarrow> NetworkPolicyPeer" where
  "namespacePeer namespace = \<lparr>npp_PodSelector = None, npp_NamespaceSelector = Some [namespaceNameLabel \<mapsto> namespace]\<rparr>"

definition servicePortOnly :: "ServiceClaim \<Rightarrow> NetworkPolicyPort list" where
  "servicePortOnly sc = [\<lparr>np_Protocol = ''TCP'', np_Port = FromInt (spec_Port (sc_Spec sc))\<rparr>]"

definition BuildNetworkPolicy :: "ServiceClaim \<Rightarrow> client_object" where
  "BuildNetworkPolicy sc =
     (let rules =
        [\<lparr>npr_From = [namespacePeer MonitoringNamespace], npr_Ports = servicePortOnly sc\<rparr>]
        @ (if sc_Tier sc = TierPublic \<or> sc_Tier sc = TierInternal
           then [\<lparr>npr_From = [\<lparr>npp_PodSelector = Some Map.empty, npp_NamespaceSelector = None\<rparr>,
                             namespacePeer PlatformNamespace], npr_Ports = []\<rparr>]
           else [])
        @ (if sc_Tier sc = TierPublic
           then [\<lparr>npr_From = [namespacePeer IngressNamespace], npr_Ports = servicePortOnly sc\<rparr>]
           else [])
      in objectMeta sc ''networking.k8s.io/v1'' ''NetworkPolicy'' (sc_Name sc)
           (NetworkPolicySpec_of
              \<lparr>nps_PodSelector = Map.empty, nps_PolicyTypes = [''Ingress''], nps_Ingress = rules\<rparr>))"

definition metricsPath :: string where "metricsPath = ''/metrics''"
definition scrapeInterval :: string where "scrapeInterval = ''30s''"
definition monitoringAPIVersion :: string where "monitoringAPIVersion = ''monitoring.coreos.com/v1''"

definition BuildServiceMonitor :: "ServiceClaim \<Rightarrow> client_object" where
  "BuildServiceMonitor sc = objectMeta sc monitoringAPIVersion ''ServiceMonitor'' (sc_Name sc)
     (ServiceMonitorSpec_of
        \<lparr>smn_Selector = SelectorLabels sc,
         smn_Endpoints = [\<lparr>ep_Port = PortName, ep_Path = metricsPath, ep_Interval = scrapeInterval\<rparr>]\<rparr>)"

section \<open>Theorems\<close>

lemma NamespaceName_inject: "NamespaceName sc = NamespaceName sc' \<longleftrightarrow> sc_Name sc = sc_Name sc'"
  by (simp add: NamespaceName_def)

lemma SelectorLabels_match: "selects (SelectorLabels sc) (Labels sc)"
  by (simp add: selects_def map_le_def SelectorLabels_def Labels_def object_label_defs)

lemma objectMeta_simps [simp]:
  "o_APIVersion (objectMeta sc v k n s) = v" "o_Kind (objectMeta sc v k n s) = k"
  "o_Name (objectMeta sc v k n s) = n" "o_Namespace (objectMeta sc v k n s) = NamespaceName sc"
  "o_Labels (objectMeta sc v k n s) = Labels sc" "o_Spec (objectMeta sc v k n s) = s"
  "o_Annotations (objectMeta sc v k n s) = Map.empty"
  by (simp_all add: objectMeta_def)

text \<open>
  The autoscaler's bounds are never inverted, whatever the claim asks for; a public claim runs
  at least two replicas, and an internal one at least what it asks for.
\<close>

lemma HPA_bounds:
  "\<exists>h. o_Spec (BuildHPA sc) = HPASpec_of h \<and> hpa_MinReplicas h \<le> hpa_MaxReplicas h \<and>
     scale_Max (spec_Scale (sc_Spec sc)) \<le> hpa_MaxReplicas h \<and>
     (hpa_MaxReplicas h = scale_Max (spec_Scale (sc_Spec sc)) \<or> hpa_MaxReplicas h = hpa_MinReplicas h) \<and>
     hpa_MinReplicas h = (if sc_Tier sc = TierPublic then max 2 (scale_Min (spec_Scale (sc_Spec sc)))
                          else if sc_Tier sc = TierInternal then scale_Min (spec_Scale (sc_Spec sc)) else 1)"
  by (auto simp: BuildHPA_def MinReplicas_def publicMinReplicas_def max_def)

subsection \<open>Who can connect\<close>

text \<open>
  The meaning of a network policy in Kubernetes. A policy isolates the pods of its own namespace that its selector
  selects, for the directions it names. A connection to a pod it isolates for \<open>Ingress\<close> is admitted when some rule has a
  peer that matches where it comes from, or no peers, and names its protocol and port, or no ports; a connection to
  any other pod is none of its business. A peer with a namespace selector matches by the labels of the namespace the
  connection comes from, one with only a pod selector matches pods of the policy's own namespace. \<open>ns_labels\<close> gives the
  labels of each namespace.
\<close>

record connection =
  from_Namespace :: string
  from_Labels :: labels
  to_Namespace :: string
  to_Labels :: labels
  to_Protocol :: string
  to_Port :: int

definition policy_spec :: "client_object \<Rightarrow> NetworkPolicySpec option" where
  "policy_spec ob = (case o_Spec ob of NetworkPolicySpec_of s \<Rightarrow> Some s | _ \<Rightarrow> None)"

definition policy_isolates :: "string \<Rightarrow> client_object \<Rightarrow> string \<Rightarrow> labels \<Rightarrow> bool" where
  "policy_isolates direction ob namespace pod_labels \<longleftrightarrow>
     (case policy_spec ob of
        None \<Rightarrow> False
      | Some s \<Rightarrow> o_Namespace ob = namespace \<and> selects (nps_PodSelector s) pod_labels \<and> direction \<in> set (nps_PolicyTypes s))"

definition peer_matches :: "(string \<Rightarrow> labels) \<Rightarrow> string \<Rightarrow> connection \<Rightarrow> NetworkPolicyPeer \<Rightarrow> bool" where
  "peer_matches ns_labels policy_ns c p \<longleftrightarrow>
     (case npp_NamespaceSelector p of
        None \<Rightarrow> from_Namespace c = policy_ns
      | Some sel \<Rightarrow> selects sel (ns_labels (from_Namespace c))) \<and>
     (case npp_PodSelector p of None \<Rightarrow> True | Some sel \<Rightarrow> selects sel (from_Labels c))"

definition rule_admits :: "(string \<Rightarrow> labels) \<Rightarrow> string \<Rightarrow> connection \<Rightarrow> NetworkPolicyIngressRule \<Rightarrow> bool" where
  "rule_admits ns_labels policy_ns c r \<longleftrightarrow>
     (npr_From r = [] \<or> (\<exists>p \<in> set (npr_From r). peer_matches ns_labels policy_ns c p)) \<and>
     (npr_Ports r = [] \<or> (\<exists>p \<in> set (npr_Ports r). np_Protocol p = to_Protocol c \<and> np_Port p = FromInt (to_Port c)))"

definition policy_admits :: "(string \<Rightarrow> labels) \<Rightarrow> client_object \<Rightarrow> connection \<Rightarrow> bool" where
  "policy_admits ns_labels ob c \<longleftrightarrow>
     (policy_isolates ''Ingress'' ob (to_Namespace c) (to_Labels c) \<longrightarrow>
        (\<exists>s. policy_spec ob = Some s \<and> (\<exists>r \<in> set (nps_Ingress s). rule_admits ns_labels (o_Namespace ob) c r)))"

text \<open>Kubernetes labels each namespace with its own name.\<close>

definition names_namespaces :: "(string \<Rightarrow> labels) \<Rightarrow> bool" where
  "names_namespaces ns_labels \<longleftrightarrow> (\<forall>ns. ns_labels ns namespaceNameLabel = Some ns)"

text \<open>Who the tier lets connect to the pods in a claim's namespace.\<close>

definition on_service_port :: "ServiceClaim \<Rightarrow> connection \<Rightarrow> bool" where
  "on_service_port sc c \<longleftrightarrow> to_Protocol c = ''TCP'' \<and> to_Port c = spec_Port (sc_Spec sc)"

definition tier_admits :: "ServiceClaim \<Rightarrow> connection \<Rightarrow> bool" where
  "tier_admits sc c \<longleftrightarrow>
     from_Namespace c = MonitoringNamespace \<and> on_service_port sc c \<or>
     HasAutoscaling sc \<and> from_Namespace c \<in> {NamespaceName sc, PlatformNamespace} \<or>
     sc_Tier sc = TierPublic \<and> from_Namespace c = IngressNamespace \<and> on_service_port sc c"

lemma namespacePeer_matches:
  "names_namespaces ns_labels \<Longrightarrow> peer_matches ns_labels pns c (namespacePeer ns) \<longleftrightarrow> from_Namespace c = ns"
  by (auto simp: peer_matches_def namespacePeer_def selects_def map_le_def names_namespaces_def)

lemma own_namespace_matches:
  "peer_matches ns_labels pns c \<lparr>npp_PodSelector = Some Map.empty, npp_NamespaceSelector = None\<rparr> \<longleftrightarrow>
     from_Namespace c = pns"
  by (simp add: peer_matches_def selects_def)

lemma BuildNetworkPolicy_isolates:
  "policy_isolates direction (BuildNetworkPolicy sc) namespace pod_labels \<longleftrightarrow>
     direction = ''Ingress'' \<and> namespace = NamespaceName sc"
  by (auto simp: policy_isolates_def policy_spec_def BuildNetworkPolicy_def Let_def selects_def)

lemma BuildNetworkPolicy_rules:
  assumes "names_namespaces ns_labels"
  shows "(\<exists>s. policy_spec (BuildNetworkPolicy sc) = Some s \<and>
            (\<exists>r \<in> set (nps_Ingress s). rule_admits ns_labels (o_Namespace (BuildNetworkPolicy sc)) c r)) \<longleftrightarrow> tier_admits sc c"
  using assms
  by (auto simp: policy_spec_def BuildNetworkPolicy_def Let_def rule_admits_def servicePortOnly_def on_service_port_def
      namespacePeer_matches own_namespace_matches tier_admits_def HasAutoscaling_def)

text \<open>
  C37: the network policy lets exactly the connections through that the claim's tier allows. It isolates every pod of the
  claim's namespace from incoming connections, and no pod elsewhere, and nothing going out. Into the namespace come
  monitoring by TCP on the service port always, the claim's own and the platform's namespace for public and
  internal claims, and the ingress controller by TCP on the service port for public ones. Batch claims admit
  monitoring only.
\<close>

theorem BuildNetworkPolicy_admits:
  assumes "names_namespaces ns_labels"
  shows "(policy_admits ns_labels (BuildNetworkPolicy sc) c \<longleftrightarrow> to_Namespace c \<noteq> NamespaceName sc \<or> tier_admits sc c) \<and>
         \<not> policy_isolates ''Egress'' (BuildNetworkPolicy sc) namespace pod_labels"
  using BuildNetworkPolicy_rules [OF assms, of sc c]
  by (auto simp: policy_admits_def BuildNetworkPolicy_isolates)

text \<open>The ingress controller reaches a public claim by TCP only, strangers do not, and other namespaces are left alone.\<close>

theorem BuildNetworkPolicy_admits_witness:
  "(let admits = policy_admits (\<lambda>ns. [namespaceNameLabel \<mapsto> ns]) (BuildNetworkPolicy example_claim);
        c = \<lparr>from_Namespace = ''traefik'', from_Labels = Map.empty, to_Namespace = ''svc-shortlink'', to_Labels = Map.empty,
             to_Protocol = ''TCP'', to_Port = 8080\<rparr>
    in admits c \<and> \<not> admits (c\<lparr>to_Protocol := ''UDP''\<rparr>) \<and> \<not> admits (c\<lparr>from_Namespace := ''default''\<rparr>) \<and>
       admits (c\<lparr>from_Namespace := ''default'', to_Namespace := ''svc-other''\<rparr>))"
  using BuildNetworkPolicy_admits [of "\<lambda>ns. [namespaceNameLabel \<mapsto> ns]" example_claim]
  by (simp add: names_namespaces_def tier_admits_def on_service_port_def example_claim_def HasAutoscaling_def tiers
      IngressNamespace_def MonitoringNamespace_def PlatformNamespace_def NamespaceName_def namespacePrefix_def)

end
