(* ===== verification/Go_Sha256.thy ===== *)
theory Go_Sha256
  imports Go_Strings "HOL-Library.Word"
begin

text \<open>
  \<open>crypto/sha256\<close> (FIPS 180-4) on 32-bit words, and \<open>encoding/hex\<close>. Bucket names and dashboard UIDs
  end in digits of such a hash, so their length rests on the digest's.
\<close>

unbundle bit_operations_syntax

type_synonym word32 = "32 word"

definition round_constants :: "word32 list" where
  "round_constants =
     [
      0x428A2F98, 0x71374491, 0xB5C0FBCF, 0xE9B5DBA5, 0x3956C25B, 0x59F111F1,
      0x923F82A4, 0xAB1C5ED5, 0xD807AA98, 0x12835B01, 0x243185BE, 0x550C7DC3,
      0x72BE5D74, 0x80DEB1FE, 0x9BDC06A7, 0xC19BF174, 0xE49B69C1, 0xEFBE4786,
      0x0FC19DC6, 0x240CA1CC, 0x2DE92C6F, 0x4A7484AA, 0x5CB0A9DC, 0x76F988DA,
      0x983E5152, 0xA831C66D, 0xB00327C8, 0xBF597FC7, 0xC6E00BF3, 0xD5A79147,
      0x06CA6351, 0x14292967, 0x27B70A85, 0x2E1B2138, 0x4D2C6DFC, 0x53380D13,
      0x650A7354, 0x766A0ABB, 0x81C2C92E, 0x92722C85, 0xA2BFE8A1, 0xA81A664B,
      0xC24B8B70, 0xC76C51A3, 0xD192E819, 0xD6990624, 0xF40E3585, 0x106AA070,
      0x19A4C116, 0x1E376C08, 0x2748774C, 0x34B0BCB5, 0x391C0CB3, 0x4ED8AA4A,
      0x5B9CCA4F, 0x682E6FF3, 0x748F82EE, 0x78A5636F, 0x84C87814, 0x8CC70208,
      0x90BEFFFA, 0xA4506CEB, 0xBEF9A3F7, 0xC67178F2]"

definition initial_hash :: "word32 list" where
  "initial_hash =
     [
      0x6A09E667, 0xBB67AE85, 0x3C6EF372, 0xA54FF53A, 0x510E527F, 0x9B05688C,
      0x1F83D9AB, 0x5BE0CD19]"

definition ch :: "word32 \<Rightarrow> word32 \<Rightarrow> word32 \<Rightarrow> word32" where
  "ch x y z = (x AND y) XOR (NOT x AND z)"

definition maj :: "word32 \<Rightarrow> word32 \<Rightarrow> word32 \<Rightarrow> word32" where
  "maj x y z = (x AND y) XOR (x AND z) XOR (y AND z)"

definition big_sigma0 :: "word32 \<Rightarrow> word32" where
  "big_sigma0 x = word_rotr 2 x XOR word_rotr 13 x XOR word_rotr 22 x"

definition big_sigma1 :: "word32 \<Rightarrow> word32" where
  "big_sigma1 x = word_rotr 6 x XOR word_rotr 11 x XOR word_rotr 25 x"

definition small_sigma0 :: "word32 \<Rightarrow> word32" where
  "small_sigma0 x = word_rotr 7 x XOR word_rotr 18 x XOR drop_bit 3 x"

definition small_sigma1 :: "word32 \<Rightarrow> word32" where
  "small_sigma1 x = word_rotr 17 x XOR word_rotr 19 x XOR drop_bit 10 x"

text \<open>The message, a one bit, zeros, and the length in bits as eight bytes.\<close>

definition length_bytes :: "int \<Rightarrow> int list" where
  "length_bytes n = map (\<lambda>i. (8 * n) div 256 ^ i mod 256) [7, 6, 5, 4, 3, 2, 1, 0]"

definition pad_message :: "int list \<Rightarrow> int list" where
  "pad_message bs = bs @ [128] @ replicate ((119 - length bs mod 64) mod 64) 0 @ length_bytes (int (length bs))"

fun words_of_bytes :: "int list \<Rightarrow> word32 list" where
  "words_of_bytes (a # b # c # d # bs) =
     word_of_int (a * 16777216 + b * 65536 + c * 256 + d) # words_of_bytes bs"
| "words_of_bytes _ = []"

text \<open>The schedule, kept newest first: each new word comes from those 2, 7, 15 and 16 places back.\<close>

fun extend_schedule :: "nat \<Rightarrow> word32 list \<Rightarrow> word32 list" where
  "extend_schedule 0 ws = ws"
| "extend_schedule (Suc n) ws =
     extend_schedule n
       ((small_sigma1 (ws ! 1) + ws ! 6 + small_sigma0 (ws ! 14) + ws ! 15) # ws)"

definition schedule :: "word32 list \<Rightarrow> word32 list" where
  "schedule block = rev (extend_schedule 48 (rev block))"

fun compress_step :: "word32 list \<Rightarrow> word32 \<times> word32 \<Rightarrow> word32 list" where
  "compress_step [a, b, c, d, e, f, g, h] (k, w) =
     (let t1 = h + big_sigma1 e + ch e f g + k + w; t2 = big_sigma0 a + maj a b c
      in [t1 + t2, a, b, c, d + t1, e, f, g])"
| "compress_step s _ = s"

definition compress :: "word32 list \<Rightarrow> word32 list \<Rightarrow> word32 list" where
  "compress hash block =
     map2 (+) hash (foldl compress_step hash (zip round_constants (schedule block)))"

fun hash_blocks :: "nat \<Rightarrow> word32 list \<Rightarrow> word32 list \<Rightarrow> word32 list" where
  "hash_blocks 0 hash ws = hash"
| "hash_blocks (Suc n) hash ws = hash_blocks n (compress hash (take 16 ws)) (drop 16 ws)"

definition bytes_of_word :: "word32 \<Rightarrow> int list" where
  "bytes_of_word w = (let n = uint w in [n div 16777216, n div 65536 mod 256, n div 256 mod 256, n mod 256])"

definition Sum256 :: "int list \<Rightarrow> int list" where
  "Sum256 bs =
     (let ws = words_of_bytes (pad_message bs)
      in concat (map bytes_of_word (hash_blocks (length ws div 16) initial_hash ws)))"

text \<open>\<open>hex.EncodeToString\<close>, and the bytes of a Go string.\<close>

definition EncodeToString :: "int list \<Rightarrow> string" where
  "EncodeToString bs = concat (map (\<lambda>b. hex_byte (nat b)) bs)"

definition string_bytes :: "string \<Rightarrow> int list" where
  "string_bytes s = map (\<lambda>c. int (byte c)) s"

section \<open>The length of a digest\<close>

lemma compress_step_length: "length s = 8 \<Longrightarrow> length (compress_step s kw) = 8"
  by (cases "(s, kw)" rule: compress_step.cases) (simp_all add: Let_def)

lemma compress_length: "length hash = 8 \<Longrightarrow> length (compress hash block) = 8"
proof -
  assume h: "length hash = 8"
  have "length (foldl compress_step s xs) = 8" if "length s = 8" for s xs
    using that by (induction xs arbitrary: s) (simp_all add: compress_step_length)
  with h show ?thesis by (simp add: compress_def)
qed

lemma hash_blocks_length: "length hash = 8 \<Longrightarrow> length (hash_blocks n hash ws) = 8"
  by (induction n arbitrary: hash ws) (simp_all add: compress_length)

lemma Sum256_length [simp]: "length (Sum256 bs) = 32"
proof -
  have "length (concat (map bytes_of_word ws)) = 4 * length ws" for ws
    by (induction ws) (simp_all add: bytes_of_word_def Let_def)
  then show ?thesis by (simp add: Sum256_def Let_def hash_blocks_length initial_hash_def)
qed

lemma EncodeToString_length [simp]: "length (EncodeToString bs) = 2 * length bs"
  by (induction bs) (simp_all add: EncodeToString_def hex_byte_def)

text \<open>Padding fills whole blocks of sixteen words.\<close>

lemma pad_message_blocks: "64 dvd length (pad_message bs)"
proof -
  obtain q r where qr: "length bs = 64 * q + r" "r < 64"
    by (metis mod_less_divisor mult_div_mod_eq zero_less_numeral)
  then have "length (pad_message bs) = 64 * q + (r + 1 + (119 - r) mod 64 + 8)"
    by (simp add: pad_message_def length_bytes_def)
  moreover have "64 dvd r + 1 + (119 - r) mod 64 + 8"
  proof (cases "r \<le> 55")
    case True
    then have "119 - r = 64 + (55 - r)" by simp
    then have "(119 - r) mod 64 = 55 - r" by (simp only: mod_add_self1) simp
    with True show ?thesis by simp
  next
    case False
    with qr show ?thesis by (simp add: not_le)
  qed
  ultimately show ?thesis by simp
qed

text \<open>\<open>hex.EncodeToString\<close> writes lower-case hexadecimal digits only.\<close>

definition is_hex :: "char \<Rightarrow> bool" where
  "is_hex c \<longleftrightarrow> 48 \<le> byte c \<and> byte c \<le> 57 \<or> 97 \<le> byte c \<and> byte c \<le> 102"

lemma is_hex_digit: "d < 16 \<Longrightarrow> is_hex (hex_digit d)"
  by (simp add: is_hex_def hex_digit_def)

lemma EncodeToString_hex: "(\<forall>b \<in> set bs. 0 \<le> b \<and> b < 256) \<Longrightarrow> list_all is_hex (EncodeToString bs)"
  by (induction bs) (auto simp: EncodeToString_def hex_byte_def is_hex_digit)

lemma bytes_of_word_range: "b \<in> set (bytes_of_word w) \<Longrightarrow> 0 \<le> b \<and> b < 256"
  using uint_bounded [of w] uint_nonnegative [of w]
  by (auto simp: bytes_of_word_def Let_def div_less_iff_less_mult pos_imp_zdiv_nonneg_iff)

lemma Sum256_range: "b \<in> set (Sum256 bs) \<Longrightarrow> 0 \<le> b \<and> b < 256"
  by (auto simp: Sum256_def Let_def bytes_of_word_range)

end
