(* ===== verification/Builders_Storage.thy ===== *)
theory Builders_Storage
  imports Builders_Core Go_Sha256
begin

text \<open>
  \<open>internal/builders/storage.go\<close>: the AWS account a cluster is linked to and the check of its
  settings, the names of a claim's bucket and role, the ACK objects for both with their IAM
  policies, and the AWS identity of a claim's pods. A nil \<open>*StorageConfig\<close> is \<open>None\<close>.
\<close>

section \<open>Definitions\<close>

definition storagePrefix :: string where "storagePrefix = ''paved-''"
definition storageRolePath :: string where "storageRolePath = ''/paved/workloads/''"
definition storagePolicyName :: string where "storagePolicyName = ''bucket-access''"
definition storageSessionSeconds :: int where "storageSessionSeconds = 3600"
definition bucketHashLength :: nat where "bucketHashLength = 8"
definition policyVersion :: string where "policyVersion = ''2012-10-17''"
definition policyAllow :: string where "policyAllow = ''Allow''"
definition iamARNPrefix :: string where "iamARNPrefix = ''arn:aws:iam::''"
definition MaxStorageClaimNameLength :: nat where
  "MaxStorageClaimNameLength = 63 - length storagePrefix - 1 - bucketHashLength"
definition ackAdoptionPolicyAnnotation :: string where "ackAdoptionPolicyAnnotation = ''services.k8s.aws/adoption-policy''"
definition ackDeletionPolicyAnnotation :: string where "ackDeletionPolicyAnnotation = ''services.k8s.aws/deletion-policy''"
definition ackAdoptOrCreate :: string where "ackAdoptOrCreate = ''adopt-or-create''"
definition ackRetain :: string where "ackRetain = ''retain''"
definition awsTokenAudience :: string where "awsTokenAudience = ''sts.amazonaws.com''"
definition awsTokenVolume :: string where "awsTokenVolume = ''aws-token''"
definition awsTokenDir :: string where "awsTokenDir = ''/var/run/secrets/paved.dev/aws''"
definition awsTokenFile :: string where "awsTokenFile = ''token''"
definition awsTokenSeconds :: int where "awsTokenSeconds = 3600"
definition EnvStorageBucket :: string where "EnvStorageBucket = ''PAVED_STORAGE_BUCKET''"
definition usEast1 :: string where "usEast1 = ''us-east-1''"

lemmas storage_constants = storagePrefix_def storageRolePath_def storagePolicyName_def storageSessionSeconds_def
  bucketHashLength_def policyVersion_def policyAllow_def iamARNPrefix_def

text \<open>A group-version-kind, by the API version and kind an object of it carries.\<close>

definition RoleGVK :: "string \<times> string" where "RoleGVK = (''iam.services.k8s.aws/v1alpha1'', ''Role'')"
definition BucketGVK :: "string \<times> string" where "BucketGVK = (''s3.services.k8s.aws/v1alpha1'', ''Bucket'')"

record StorageConfig =
  AccountID :: string
  Region :: string
  Issuer :: string
  PermissionsBoundaryARN :: string

text \<open>\<open>None\<close> is a nil error.\<close>

definition Validate :: "StorageConfig \<Rightarrow> error option" where
  "Validate c =
     (if length (AccountID c) \<noteq> 12 \<or> Trim (AccountID c) ''0123456789'' \<noteq> [] then
        Some (Errorf (''AWS account ID '' @ quote (AccountID c) @ '' is not 12 digits''))
      else if Region c = [] \<or> Trim (Region c) ''abcdefghijklmnopqrstuvwxyz0123456789-'' \<noteq> [] then
        Some (Errorf (''AWS region '' @ quote (Region c) @ '' is not a region name''))
      else if Issuer c = [] \<or> Contains (Issuer c) ''://'' \<or> HasSuffix (Issuer c) ''/'' then
        Some (Errorf (''OIDC issuer '' @ quote (Issuer c)
          @ '' must be a host and optional path, with no scheme or trailing slash''))
      else if \<not> HasPrefix (PermissionsBoundaryARN c) (iamARNPrefix @ AccountID c @ '':policy/'') then
        Some (Errorf (''permissions boundary '' @ quote (PermissionsBoundaryARN c)
          @ '' is not a policy ARN in account '' @ AccountID c))
      else None)"

definition HasStorage :: "ServiceClaim \<Rightarrow> StorageConfig option \<Rightarrow> bool" where
  "HasStorage sc storage \<longleftrightarrow> spec_Storage (sc_Spec sc) \<and> storage \<noteq> None"

definition StorageBucketName :: "ServiceClaim \<Rightarrow> StorageConfig \<Rightarrow> string" where
  "StorageBucketName sc storage =
     (let sum = Sum256 (string_bytes (AccountID storage @ ''/'' @ Region storage @ ''/'' @ sc_Namespace sc @ ''/'' @ sc_Name sc))
      in storagePrefix @ sc_Name sc @ ''-'' @ take bucketHashLength (EncodeToString sum))"

definition StorageRoleName :: "ServiceClaim \<Rightarrow> string" where
  "StorageRoleName sc = storagePrefix @ sc_Name sc"

definition StorageRoleARN :: "ServiceClaim \<Rightarrow> StorageConfig \<Rightarrow> string" where
  "StorageRoleARN sc storage =
     iamARNPrefix @ AccountID storage @ '':role'' @ storageRolePath @ StorageRoleName sc"

definition StorageTypes :: "(string \<times> string) list" where
  "StorageTypes = [RoleGVK, BucketGVK]"

subsection \<open>IAM policies\<close>

record policyStatement =
  Effect :: string
  Principal :: "(string \<times> string) list"
  Action :: "string list"
  Resource :: "string list"
  Condition :: "(string \<times> (string \<times> string) list) list"

text \<open>A document's JSON: the fields in the order of the struct, the empty ones left out where the tag
  says \<open>omitempty\<close>, and maps sorted by key.\<close>

definition omitempty :: "'a list \<Rightarrow> string \<Rightarrow> json \<Rightarrow> (string \<times> json) list" where
  "omitempty xs key j = (if xs = [] then [] else [(key, j)])"

definition string_map_json :: "(string \<times> string) list \<Rightarrow> json" where
  "string_map_json kvs = json_map (map (\<lambda>(k, v). (k, JString v)) kvs)"

definition statement_json :: "policyStatement \<Rightarrow> json" where
  "statement_json s = JObject
     ([(''Effect'', JString (Effect s))]
      @ omitempty (Principal s) ''Principal'' (string_map_json (Principal s))
      @ [(''Action'', JArray (map JString (Action s)))]
      @ omitempty (Resource s) ''Resource'' (JArray (map JString (Resource s)))
      @ omitempty (Condition s) ''Condition'' (json_map (map (\<lambda>(k, v). (k, string_map_json v)) (Condition s))))"

definition policyDocument :: "policyStatement list \<Rightarrow> json" where
  "policyDocument statements =
     JObject [(''Version'', JString policyVersion), (''Statement'', JArray (map statement_json statements))]"

definition serviceAccountSubject :: "ServiceClaim \<Rightarrow> string" where
  "serviceAccountSubject sc = ''system:serviceaccount:'' @ NamespaceName sc @ '':'' @ sc_Name sc"

definition storageTags :: "ServiceClaim \<Rightarrow> json" where
  "storageTags sc = JArray
     [JObject [(''key'', JString LabelClaim), (''value'', JString (sc_Name sc))],
      JObject [(''key'', JString LabelClaimNamespace), (''value'', JString (sc_Namespace sc))]]"

text \<open>\<open>newStorageObject\<close>, with the spec the callers then set.\<close>

definition newStorageObject :: "ServiceClaim \<Rightarrow> string \<times> string \<Rightarrow> labels \<Rightarrow> json \<Rightarrow> client_object" where
  "newStorageObject sc gvk annotations spec =
     \<lparr>o_APIVersion = fst gvk, o_Kind = snd gvk, o_Name = sc_Name sc, o_Namespace = NamespaceName sc,
      o_Labels = Labels sc, o_Annotations = annotations, o_Spec = Unstructured_of spec\<rparr>"

text \<open>Who may assume the role, and what the role may do.\<close>

definition trust_statements :: "ServiceClaim \<Rightarrow> StorageConfig \<Rightarrow> policyStatement list" where
  "trust_statements sc storage =
     [\<lparr>Effect = policyAllow,
       Principal = [(''Federated'', iamARNPrefix @ AccountID storage @ '':oidc-provider/'' @ Issuer storage)],
       Action = [''sts:AssumeRoleWithWebIdentity''], Resource = [],
       Condition = [(''StringEquals'',
         [(Issuer storage @ '':aud'', awsTokenAudience), (Issuer storage @ '':sub'', serviceAccountSubject sc)])]\<rparr>]"

definition access_statements :: "ServiceClaim \<Rightarrow> StorageConfig \<Rightarrow> policyStatement list" where
  "access_statements sc storage =
     (let bucketARN = ''arn:aws:s3:::'' @ StorageBucketName sc storage
      in [\<lparr>Effect = policyAllow, Principal = [], Action = [''s3:GetBucketLocation'', ''s3:ListBucket''],
           Resource = [bucketARN], Condition = []\<rparr>,
          \<lparr>Effect = policyAllow, Principal = [], Action = [''s3:DeleteObject'', ''s3:GetObject'', ''s3:PutObject''],
           Resource = [bucketARN @ ''/*''], Condition = []\<rparr>])"

text \<open>Encoding these documents cannot fail: they hold strings only.\<close>

definition BuildStorageRole :: "ServiceClaim \<Rightarrow> StorageConfig \<Rightarrow> client_object" where
  "BuildStorageRole sc storage =
     (let trust = Marshal (policyDocument (trust_statements sc storage));
          access = Marshal (policyDocument (access_statements sc storage))
      in newStorageObject sc RoleGVK [ackAdoptionPolicyAnnotation \<mapsto> ackAdoptOrCreate]
           (JObject
              [(''name'', JString (StorageRoleName sc)),
               (''path'', JString storageRolePath),
               (''description'', JString (''Storage access for ServiceClaim '' @ sc_Namespace sc @ ''/'' @ sc_Name sc
                  @ '', managed by paved'')),
               (''assumeRolePolicyDocument'', JString trust),
               (''inlinePolicies'', JObject [(storagePolicyName, JString access)]),
               (''permissionsBoundary'', JString (PermissionsBoundaryARN storage)),
               (''maxSessionDuration'', JInt storageSessionSeconds),
               (''tags'', storageTags sc)]))"

definition BuildStorageBucket :: "ServiceClaim \<Rightarrow> StorageConfig \<Rightarrow> client_object" where
  "BuildStorageBucket sc storage =
     newStorageObject sc BucketGVK
       [ackAdoptionPolicyAnnotation \<mapsto> ackAdoptOrCreate, ackDeletionPolicyAnnotation \<mapsto> ackRetain]
       (JObject
          ([(''name'', JString (StorageBucketName sc storage)),
            (''publicAccessBlock'', JObject
               [(''blockPublicACLs'', JBool True), (''blockPublicPolicy'', JBool True),
                (''ignorePublicACLs'', JBool True), (''restrictPublicBuckets'', JBool True)]),
            (''tagging'', JObject [(''tagSet'', storageTags sc)])]
           @ (if Region storage \<noteq> usEast1
              then [(''createBucketConfiguration'', JObject [(''locationConstraint'', JString (Region storage))])]
              else [])))"

definition withStorageIdentity :: "PodSpec \<Rightarrow> ServiceClaim \<Rightarrow> StorageConfig \<Rightarrow> PodSpec" where
  "withStorageIdentity spec sc storage =
     spec\<lparr>ps_Volumes := ps_Volumes spec @ [\<lparr>tv_Name = awsTokenVolume, tv_Audience = awsTokenAudience,
            tv_ExpirationSeconds = awsTokenSeconds, tv_Path = awsTokenFile\<rparr>],
          ps_Containers := map (\<lambda>c. c
            \<lparr>ct_VolumeMounts := ct_VolumeMounts c @ [\<lparr>vm_Name = awsTokenVolume, vm_MountPath = awsTokenDir, vm_ReadOnly = True\<rparr>],
             ct_Env := ct_Env c @ [(''AWS_ROLE_ARN'', StorageRoleARN sc storage),
               (''AWS_WEB_IDENTITY_TOKEN_FILE'', awsTokenDir @ ''/'' @ awsTokenFile),
               (''AWS_REGION'', Region storage), (''AWS_DEFAULT_REGION'', Region storage),
               (EnvStorageBucket, StorageBucketName sc storage)]\<rparr>) (ps_Containers spec)\<rparr>"

section \<open>Theorems\<close>

lemma bucket_name_length: "length (StorageBucketName sc storage) = length (sc_Name sc) + 15"
  by (simp add: StorageBucketName_def Let_def storage_constants)

text \<open>
  The bucket name of every claim with storage that the API server admits fits S3's 63
  characters, and 48 is the longest name for which it does.
\<close>

lemma StorageBucketName_fits:
  "(length (StorageBucketName sc storage) \<le> 63 \<longleftrightarrow> length (sc_Name sc) \<le> MaxStorageClaimNameLength) \<and>
   MaxStorageClaimNameLength = 48"
  by (simp add: bucket_name_length MaxStorageClaimNameLength_def storage_constants)

lemma Trim_iff: "Trim s cutset \<noteq> [] \<longleftrightarrow> \<not> set s \<subseteq> set cutset"
  by (simp add: Trim_empty_iff)

lemma digit_set: "set ''0123456789'' = {c. is_digit c}"
proof -
  have "c \<in> set ''0123456789'' \<longleftrightarrow> is_digit c" for c
    by (cases c) (auto simp: is_digit_def of_char_def)
  then show ?thesis by blast
qed

text \<open>
  Validate accepts exactly the settings whose account is twelve digits, whose region is a
  non-empty word of lower-case letters, digits and hyphens, whose issuer has no scheme and no
  trailing slash, and whose permissions boundary is a policy of that account.
\<close>

lemma Validate_spec:
  "Validate c = None \<longleftrightarrow>
     length (AccountID c) = 12 \<and> list_all is_digit (AccountID c) \<and>
     Region c \<noteq> [] \<and> set (Region c) \<subseteq> set ''abcdefghijklmnopqrstuvwxyz0123456789-'' \<and>
     Issuer c \<noteq> [] \<and> \<not> sublist ''://'' (Issuer c) \<and> \<not> suffix ''/'' (Issuer c) \<and>
     (\<exists>name. PermissionsBoundaryARN c = ''arn:aws:iam::'' @ AccountID c @ '':policy/'' @ name)"
proof -
  have "set (AccountID c) \<subseteq> set ''0123456789'' \<longleftrightarrow> list_all is_digit (AccountID c)"
    unfolding digit_set by (auto simp: list_all_iff)
  then show ?thesis
    unfolding Validate_def Trim_iff Contains_iff HasSuffix_def HasPrefix_def prefix_def iamARNPrefix_def
    by (auto simp del: list.set)
qed

subsection \<open>Who reaches which bucket\<close>

text \<open>
  What IAM makes of the statements the code writes: a web identity token assumes a role when a
  statement allows it to its identity provider and every \<open>StringEquals\<close> condition holds of the
  token's claims; a role may do something to a resource when a statement allows the action on it. In the actions and
  resources of a statement a star stands for any text and a question mark for any one character.
\<close>

record web_token =
  tok_Provider :: string
  tok_Claims :: labels

fun iam_match :: "string \<Rightarrow> string \<Rightarrow> bool" where
  "iam_match [] s = (s = [])"
| "iam_match (p # ps) [] = (p = CHR ''*'' \<and> iam_match ps [])"
| "iam_match (p # ps) (c # cs) =
     (if p = CHR ''*'' then iam_match ps (c # cs) \<or> iam_match (p # ps) cs
      else (p = CHR ''?'' \<or> p = c) \<and> iam_match ps cs)"

definition may_assume :: "policyStatement list \<Rightarrow> web_token \<Rightarrow> bool" where
  "may_assume statements tok \<longleftrightarrow>
     (\<exists>s \<in> set statements. Effect s = ''Allow'' \<and> (\<exists>a \<in> set (Action s). iam_match a ''sts:AssumeRoleWithWebIdentity'') \<and>
        (''Federated'', tok_Provider tok) \<in> set (Principal s) \<and>
        (\<forall>(op, kvs) \<in> set (Condition s). op = ''StringEquals'' \<and>
           (\<forall>(k, v) \<in> set kvs. tok_Claims tok k = Some v)))"

definition may_do :: "policyStatement list \<Rightarrow> string \<Rightarrow> string \<Rightarrow> bool" where
  "may_do statements action resource \<longleftrightarrow>
     (\<exists>s \<in> set statements. Effect s = ''Allow'' \<and> (\<exists>a \<in> set (Action s). iam_match a action) \<and>
        (\<exists>r \<in> set (Resource s). iam_match r resource))"

text \<open>
  The tokens in the volumes of a pod. The cluster signs the pod's namespace and service account into the subject, and
  the audience the volume asks for; the provider is the one that stands for the cluster's issuer in the account.
\<close>

definition pod_tokens :: "StorageConfig \<Rightarrow> string \<Rightarrow> PodSpec \<Rightarrow> web_token list" where
  "pod_tokens storage namespace pod =
     map (\<lambda>v. \<lparr>tok_Provider = ''arn:aws:iam::'' @ AccountID storage @ '':oidc-provider/'' @ Issuer storage,
       tok_Claims = [Issuer storage @ '':aud'' \<mapsto> tv_Audience v,
         Issuer storage @ '':sub'' \<mapsto> ''system:serviceaccount:'' @ namespace @ '':'' @ ps_ServiceAccountName pod]\<rparr>) (ps_Volumes pod)"

lemma serviceAccountSubject_inject:
  "serviceAccountSubject sc = serviceAccountSubject sc' \<longleftrightarrow> sc_Name sc = sc_Name sc'"
proof
  assume eq: "serviceAccountSubject sc = serviceAccountSubject sc'"
  then have "length (serviceAccountSubject sc) = length (serviceAccountSubject sc')" by simp
  then have "length (sc_Name sc) = length (sc_Name sc')"
    by (simp add: serviceAccountSubject_def NamespaceName_def)
  with eq show "sc_Name sc = sc_Name sc'" by (simp add: serviceAccountSubject_def NamespaceName_def)
qed (simp add: serviceAccountSubject_def NamespaceName_def)

lemma StorageBucketName_name:
  "StorageBucketName sc storage = StorageBucketName sc' storage \<Longrightarrow> sc_Name sc = sc_Name sc'"
  by (simp add: StorageBucketName_def Let_def storage_constants)

text \<open>A pattern without wildcards matches itself; one that ends in a star matches what begins like it.\<close>

definition no_wildcards :: "string \<Rightarrow> bool" where
  "no_wildcards s \<longleftrightarrow> CHR ''*'' \<notin> set s \<and> CHR ''?'' \<notin> set s"

lemma iam_match_plain: "no_wildcards p \<Longrightarrow> iam_match p s \<longleftrightarrow> s = p"
proof (induction p arbitrary: s)
  case (Cons c p)
  then show ?case by (cases s) (auto simp: no_wildcards_def)
qed simp

lemma iam_match_star: "iam_match ''*'' s"
  by (induction s) simp_all

lemma iam_match_under: "no_wildcards p \<Longrightarrow> iam_match (p @ ''*'') s \<longleftrightarrow> prefix p s"
proof (induction p arbitrary: s)
  case Nil
  show ?case using iam_match_star [of s] by simp
next
  case (Cons c p)
  then show ?case by (cases s) (auto simp: no_wildcards_def)
qed

text \<open>The names of a bucket and of the objects in it.\<close>

definition bucket_arn :: "string \<Rightarrow> string" where
  "bucket_arn bucket = ''arn:aws:s3:::'' @ bucket"

definition object_arn :: "string \<Rightarrow> string \<Rightarrow> string" where
  "object_arn bucket key = bucket_arn bucket @ ''/'' @ key"

text \<open>What Kubernetes allows in names has none of these characters.\<close>

definition plain_name :: "string \<Rightarrow> bool" where
  "plain_name s \<longleftrightarrow> CHR ''/'' \<notin> set s \<and> no_wildcards s"

lemma bucket_plain:
  assumes "plain_name (sc_Name sc)"
  shows "plain_name (StorageBucketName sc storage)"
proof -
  have "is_hex c" if "c \<in> set (take 8 (EncodeToString (Sum256 bs)))" for c bs
    using that EncodeToString_hex [of "Sum256 bs"] Sum256_range by (auto simp: list_all_iff dest!: in_set_takeD)
  then have "plain_name (take 8 (EncodeToString (Sum256 bs)))" for bs
    by (force simp: is_hex_def plain_name_def no_wildcards_def)
  with assms show ?thesis by (simp add: StorageBucketName_def Let_def storage_constants plain_name_def no_wildcards_def)
qed

definition bucket_actions :: "string list" where
  "bucket_actions = [''s3:GetBucketLocation'', ''s3:ListBucket'']"

definition object_actions :: "string list" where
  "object_actions = [''s3:DeleteObject'', ''s3:GetObject'', ''s3:PutObject'']"

lemma actions_plain: "list_all no_wildcards bucket_actions" "list_all no_wildcards object_actions"
  by code_simp+

lemma access_iff:
  assumes "plain_name (sc_Name sc)"
  shows "may_do (access_statements sc storage) action resource \<longleftrightarrow>
     action \<in> set bucket_actions \<and> resource = bucket_arn (StorageBucketName sc storage) \<or>
     action \<in> set object_actions \<and> (\<exists>key. resource = object_arn (StorageBucketName sc storage) key)"
proof -
  let ?arn = "bucket_arn (StorageBucketName sc storage)"
  have plain: "no_wildcards ?arn" "no_wildcards (?arn @ ''/'')"
    using bucket_plain [OF assms, of storage] by (simp_all add: plain_name_def no_wildcards_def bucket_arn_def)
  have "iam_match ?arn resource \<longleftrightarrow> resource = ?arn"
    "iam_match (?arn @ ''/*'') resource \<longleftrightarrow> (\<exists>key. resource = object_arn (StorageBucketName sc storage) key)"
    using iam_match_plain [OF plain(1)] iam_match_under [OF plain(2)] by (simp_all add: object_arn_def prefix_def)
  moreover have "(\<exists>a \<in> set xs. iam_match a action) \<longleftrightarrow> action \<in> set xs" if "list_all no_wildcards xs" for xs
    using that iam_match_plain by (auto simp: list_all_iff)
  moreover have "access_statements sc storage =
      [\<lparr>Effect = ''Allow'', Principal = [], Action = bucket_actions, Resource = [?arn], Condition = []\<rparr>,
       \<lparr>Effect = ''Allow'', Principal = [], Action = object_actions, Resource = [?arn @ ''/*''], Condition = []\<rparr>]"
    by (simp add: access_statements_def Let_def policyAllow_def bucket_actions_def object_actions_def bucket_arn_def)
  ultimately show ?thesis using actions_plain by (simp add: may_do_def)
qed

text \<open>A resource is the bucket or an object in it; no resource belongs to two buckets.\<close>

definition in_bucket :: "string \<Rightarrow> string \<Rightarrow> bool" where
  "in_bucket bucket resource \<longleftrightarrow> resource = bucket_arn bucket \<or> (\<exists>key. resource = object_arn bucket key)"

lemma in_bucket_unique:
  assumes "plain_name b" "plain_name b'" "in_bucket b resource" "in_bucket b' resource"
  shows "b = b'"
proof -
  have word: "takeWhile (\<lambda>c. c \<noteq> CHR ''/'') (drop 13 resource) = b" if "plain_name b" "in_bucket b resource" for b
  proof -
    from that(1) have no: "\<forall>c \<in> set b. c \<noteq> CHR ''/''" by (auto simp: plain_name_def)
    have "\<exists>rest. resource = ''arn:aws:s3:::'' @ b @ rest \<and> (rest = [] \<or> hd rest = CHR ''/'')"
      using that(2) unfolding in_bucket_def object_arn_def bucket_arn_def
    proof (elim disjE exE)
      show ?thesis if "resource = ''arn:aws:s3:::'' @ b" using that by (intro exI [of _ "[]"]) simp
      show ?thesis if "resource = (''arn:aws:s3:::'' @ b) @ ''/'' @ key" for key
        using that by (intro exI [of _ "''/'' @ key"]) simp
    qed
    then obtain rest where "drop 13 resource = b @ rest" "rest = [] \<or> hd rest = CHR ''/''" by auto
    with no show ?thesis by (cases rest) (simp_all add: takeWhile_append)
  qed
  show ?thesis using word [OF assms(1,3)] word [OF assms(2,4)] by simp
qed

lemma may_do_in_bucket:
  assumes "plain_name (sc_Name sc)" "may_do (access_statements sc storage) action resource"
  shows "in_bucket (StorageBucketName sc storage) resource"
  using assms(2) unfolding access_iff [OF assms(1)] in_bucket_def by blast

end
