(* ===== verification/Builders_Workload.thy ===== *)
theory Builders_Workload
  imports Builders_Storage
begin

text \<open>
  \<open>internal/builders/rollout.go\<close> and \<open>analysistemplate.go\<close>: the Argo Rollout of a claim with its pod,
  probes, resources and canary steps, and the analysis of the claim's SLI that gates the canary.
\<close>

section \<open>analysistemplate.go\<close>

definition DefaultPrometheusURL :: string where
  "DefaultPrometheusURL = ''http://kps-kube-prometheus-stack-prometheus.monitoring.svc:9090''"

definition analysisTemplateKind :: string where "analysisTemplateKind = ''AnalysisTemplate''"
definition CanaryMetric :: string where "CanaryMetric = ''sli-error-ratio''"
definition canaryErrorRatioLimit :: string where "canaryErrorRatioLimit = ''0.05''"
definition canaryWindow :: string where "canaryWindow = ''5m''"
definition canaryInterval :: string where "canaryInterval = ''30s''"

definition HasCanaryAnalysis :: "ServiceClaim \<Rightarrow> bool" where
  "HasCanaryAnalysis sc \<longleftrightarrow> sc_Tier sc \<noteq> TierBatch"

definition CanaryAnalysisName :: "ServiceClaim \<Rightarrow> string" where
  "CanaryAnalysisName sc = sc_Name sc @ ''-canary''"

definition BuildAnalysisTemplate :: "ServiceClaim \<Rightarrow> client_object" where
  "BuildAnalysisTemplate sc =
     (let query = RecordName (sli_Type (sc_SLI sc)) canaryWindow @ ''{'' @ LabelService @ ''='' @ quote (sc_Name sc) @ ''}''
      in objectMeta sc rolloutAPIVersion analysisTemplateKind (CanaryAnalysisName sc)
           (AnalysisMetrics_of
              [\<lparr>am_Name = CanaryMetric, am_Interval = canaryInterval,
                am_FailureCondition = ''len(result) > 0 && result[0] > '' @ canaryErrorRatioLimit,
                am_FailureLimit = FromInt 0, am_PrometheusAddress = DefaultPrometheusURL,
                am_PrometheusQuery = query\<rparr>]))"

section \<open>rollout.go\<close>

definition containerName :: string where "containerName = ''app''"
definition runAsUser :: int where "runAsUser = 65532"
definition readinessPath :: string where "readinessPath = ''/readyz''"
definition livenessPath :: string where "livenessPath = ''/healthz''"
definition probePeriodSeconds :: int where "probePeriodSeconds = 10"
definition probeFailureThreshold :: int where "probeFailureThreshold = 3"
definition livenessInitialDelaySeconds :: int where "livenessInitialDelaySeconds = 10"
definition canaryPause :: string where "canaryPause = ''2m''"
definition analysisStartingStep :: int where "analysisStartingStep = 1"
definition mebibyte :: int where "mebibyte = 1048576"

definition httpProbe :: "string \<Rightarrow> int \<Rightarrow> HTTPProbe" where
  "httpProbe path initialDelaySeconds =
     \<lparr>pr_Path = path, pr_Port = FromString PortName, pr_InitialDelaySeconds = initialDelaySeconds,
      pr_PeriodSeconds = probePeriodSeconds, pr_FailureThreshold = probeFailureThreshold\<rparr>"

text \<open>Requests and limits.\<close>

definition containerResources :: "ResourceList \<times> ResourceList" where
  "containerResources =
     (\<lparr>rl_CPU = 50, rl_Memory = 64 * mebibyte\<rparr>, \<lparr>rl_CPU = 250, rl_Memory = 128 * mebibyte\<rparr>)"

definition app_container :: "ServiceClaim \<Rightarrow> Container" where
  "app_container sc =
     \<lparr>ct_Name = containerName, ct_Image = spec_Image (sc_Spec sc),
      ct_Ports = [\<lparr>cp_Name = PortName, cp_ContainerPort = spec_Port (sc_Spec sc), cp_Protocol = ''TCP''\<rparr>],
      ct_Requests = fst containerResources, ct_Limits = snd containerResources,
      ct_AllowPrivilegeEscalation = False, ct_ReadOnlyRootFilesystem = True, ct_DropCapabilities = [''ALL''],
      ct_ReadinessProbe = httpProbe readinessPath 0,
      ct_LivenessProbe = httpProbe livenessPath livenessInitialDelaySeconds,
      ct_Env = [], ct_VolumeMounts = []\<rparr>"

definition podSpec :: "ServiceClaim \<Rightarrow> StorageConfig option \<Rightarrow> PodSpec" where
  "podSpec sc storage =
     (let spec =
        \<lparr>ps_ServiceAccountName = sc_Name sc, ps_RunAsNonRoot = True, ps_RunAsUser = runAsUser,
         ps_SeccompProfile = ''RuntimeDefault'', ps_Containers = [app_container sc], ps_Volumes = []\<rparr>
      in case storage of
           None \<Rightarrow> spec
         | Some config \<Rightarrow> if HasStorage sc storage then withStorageIdentity spec sc config else spec)"

definition canarySteps :: "CanaryStep list" where
  "canarySteps =
     [SetWeight 20, Pause (FromString canaryPause), SetWeight 50, Pause (FromString canaryPause), SetWeight 100]"

definition canaryAnalysis :: "ServiceClaim \<Rightarrow> AnalysisBackground" where
  "canaryAnalysis sc = \<lparr>ab_Templates = [CanaryAnalysisName sc], ab_StartingStep = analysisStartingStep\<rparr>"

definition BuildRollout :: "ServiceClaim \<Rightarrow> StorageConfig option \<Rightarrow> client_object" where
  "BuildRollout sc storage =
     objectMeta sc rolloutAPIVersion rolloutKind (sc_Name sc)
       (RolloutSpec_of
          \<lparr>ros_Replicas = (if HasAutoscaling sc then None else Some (MinReplicas sc)),
           ros_Selector = SelectorLabels sc, ros_TemplateLabels = Labels sc, ros_PodSpec = podSpec sc storage,
           ros_Steps = canarySteps,
           ros_Analysis = (if HasCanaryAnalysis sc then Some (canaryAnalysis sc) else None)\<rparr>)"

section \<open>Theorems\<close>

lemma podSpec_cases:
  "podSpec sc storage =
     (let spec =
        \<lparr>ps_ServiceAccountName = sc_Name sc, ps_RunAsNonRoot = True, ps_RunAsUser = runAsUser,
         ps_SeccompProfile = ''RuntimeDefault'', ps_Containers = [app_container sc], ps_Volumes = []\<rparr>
      in if HasStorage sc storage then withStorageIdentity spec sc (the storage) else spec)"
  by (cases storage) (simp_all add: podSpec_def HasStorage_def Let_def)

lemma podSpec_fields:
  "ps_ServiceAccountName (podSpec sc storage) = sc_Name sc"
  "ps_RunAsNonRoot (podSpec sc storage)"
  "ps_RunAsUser (podSpec sc storage) = runAsUser"
  "ps_SeccompProfile (podSpec sc storage) = ''RuntimeDefault''"
  "ps_Volumes (podSpec sc storage) \<noteq> [] \<longleftrightarrow> HasStorage sc storage"
  by (simp_all add: podSpec_cases Let_def withStorageIdentity_def)

text \<open>The one container of a claim's pods, with the AWS environment when it has storage.\<close>

lemma podSpec_container:
  "\<exists>env mounts. ps_Containers (podSpec sc storage) = [app_container sc\<lparr>ct_VolumeMounts := mounts, ct_Env := env\<rparr>] \<and>
     (env \<noteq> [] \<longleftrightarrow> HasStorage sc storage)"
proof (cases "HasStorage sc storage")
  case True
  then show ?thesis
    by (intro exI, intro conjI) (simp add: podSpec_cases Let_def withStorageIdentity_def, simp add: app_container_def)
next
  case False
  then show ?thesis
    by (intro exI [of _ "[]"]) (simp add: podSpec_cases Let_def app_container_def)
qed

text \<open>
  Every claim's pod is hardened the same way whatever the claim says: one container, not root,
  no privilege escalation, read-only root filesystem, no capabilities, requests within limits, and
  probes on the port the container names. AWS credentials are mounted exactly for claims with
  storage.
\<close>

lemma podSpec_hardened:
  "\<exists>c. ps_Containers (podSpec sc storage) = [c] \<and>
     ps_RunAsNonRoot (podSpec sc storage) \<and> 0 < ps_RunAsUser (podSpec sc storage) \<and>
     ps_SeccompProfile (podSpec sc storage) = ''RuntimeDefault'' \<and>
     \<not> ct_AllowPrivilegeEscalation c \<and> ct_ReadOnlyRootFilesystem c \<and> ct_DropCapabilities c = [''ALL''] \<and>
     rl_CPU (ct_Requests c) \<le> rl_CPU (ct_Limits c) \<and> rl_Memory (ct_Requests c) \<le> rl_Memory (ct_Limits c) \<and>
     (\<exists>p. ct_Ports c = [p] \<and> cp_ContainerPort p = spec_Port (sc_Spec sc) \<and>
          pr_Port (ct_ReadinessProbe c) = FromString (cp_Name p) \<and> pr_Port (ct_LivenessProbe c) = FromString (cp_Name p)) \<and>
     (ps_Volumes (podSpec sc storage) \<noteq> [] \<longleftrightarrow> HasStorage sc storage) \<and>
     (ct_Env c \<noteq> [] \<longleftrightarrow> HasStorage sc storage)"
proof -
  from podSpec_container [of sc storage] obtain env mounts where
    "ps_Containers (podSpec sc storage) = [app_container sc\<lparr>ct_VolumeMounts := mounts, ct_Env := env\<rparr>]"
    "env \<noteq> [] \<longleftrightarrow> HasStorage sc storage" by blast
  then show ?thesis
    by (intro exI [of _ "app_container sc\<lparr>ct_VolumeMounts := mounts, ct_Env := env\<rparr>"])
      (simp add: podSpec_fields runAsUser_def app_container_def containerResources_def mebibyte_def httpProbe_def)
qed

section \<open>Whose storage a claim's pods reach\<close>

text \<open>The tokens in the pods of a Rollout.\<close>

definition rollout_tokens :: "StorageConfig \<Rightarrow> client_object \<Rightarrow> web_token list" where
  "rollout_tokens storage ob =
     (case o_Spec ob of RolloutSpec_of r \<Rightarrow> pod_tokens storage (o_Namespace ob) (ros_PodSpec r) | _ \<Rightarrow> [])"

lemma BuildRollout_tokens:
  "rollout_tokens storage (BuildRollout sc (Some storage)) =
     (if spec_Storage (sc_Spec sc)
      then [\<lparr>tok_Provider = iamARNPrefix @ AccountID storage @ '':oidc-provider/'' @ Issuer storage,
              tok_Claims = [Issuer storage @ '':aud'' \<mapsto> awsTokenAudience, Issuer storage @ '':sub'' \<mapsto> serviceAccountSubject sc]\<rparr>]
      else [])"
  by (simp add: rollout_tokens_def BuildRollout_def pod_tokens_def podSpec_def HasStorage_def Let_def withStorageIdentity_def
      iamARNPrefix_def serviceAccountSubject_def)

lemma assume_iff:
  "may_assume (trust_statements sc storage)
     \<lparr>tok_Provider = iamARNPrefix @ AccountID storage @ '':oidc-provider/'' @ Issuer storage,
      tok_Claims = [Issuer storage @ '':aud'' \<mapsto> awsTokenAudience, Issuer storage @ '':sub'' \<mapsto> serviceAccountSubject other]\<rparr>
   \<longleftrightarrow> sc_Name other = sc_Name sc"
proof -
  have "iam_match ''sts:AssumeRoleWithWebIdentity'' ''sts:AssumeRoleWithWebIdentity''"
    by (subst iam_match_plain) (simp_all add: no_wildcards_def)
  then show ?thesis
    using serviceAccountSubject_inject [of other sc] by (auto simp: may_assume_def trust_statements_def policyAllow_def)
qed

text \<open>
  C38: whose storage a claim's pods reach. The pods of a claim with storage, and only of such a claim, carry a token. It
  assumes the role of any claim of the same name, in whatever namespace, and of no claim of another name. A claim's role
  allows the two actions on its bucket and the three on the objects in it, and nothing else, so that the role of a
  claim of another name does nothing to this claim's bucket.
\<close>

theorem storage_isolated:
  assumes "plain_name (sc_Name sc)" and "plain_name (sc_Name other)"
  shows "(rollout_tokens storage (BuildRollout other (Some storage)) \<noteq> [] \<longleftrightarrow> spec_Storage (sc_Spec other)) \<and>
         (\<forall>tok \<in> set (rollout_tokens storage (BuildRollout other (Some storage))).
            may_assume (trust_statements sc storage) tok \<longleftrightarrow> sc_Name other = sc_Name sc) \<and>
         (\<forall>action resource. may_do (access_statements sc storage) action resource \<longleftrightarrow>
            action \<in> set bucket_actions \<and> resource = bucket_arn (StorageBucketName sc storage) \<or>
            action \<in> set object_actions \<and> (\<exists>key. resource = object_arn (StorageBucketName sc storage) key)) \<and>
         (sc_Name other \<noteq> sc_Name sc \<longrightarrow>
            (\<forall>action resource. in_bucket (StorageBucketName sc storage) resource \<longrightarrow>
               \<not> may_do (access_statements other storage) action resource))"
proof (intro conjI ballI allI impI notI)
  show "rollout_tokens storage (BuildRollout other (Some storage)) \<noteq> [] \<longleftrightarrow> spec_Storage (sc_Spec other)"
    by (simp add: BuildRollout_tokens)
  show "may_assume (trust_statements sc storage) tok \<longleftrightarrow> sc_Name other = sc_Name sc"
    if "tok \<in> set (rollout_tokens storage (BuildRollout other (Some storage)))" for tok
  proof -
    from that have tok: "tok = \<lparr>tok_Provider = iamARNPrefix @ AccountID storage @ '':oidc-provider/'' @ Issuer storage,
        tok_Claims = [Issuer storage @ '':aud'' \<mapsto> awsTokenAudience, Issuer storage @ '':sub'' \<mapsto> serviceAccountSubject other]\<rparr>"
      unfolding BuildRollout_tokens by (auto split: if_splits)
    show ?thesis unfolding tok by (rule assume_iff)
  qed
  show "may_do (access_statements sc storage) action resource \<longleftrightarrow>
      action \<in> set bucket_actions \<and> resource = bucket_arn (StorageBucketName sc storage) \<or>
      action \<in> set object_actions \<and> (\<exists>key. resource = object_arn (StorageBucketName sc storage) key)" for action resource
    by (rule access_iff [OF assms(1)])
  show False if "sc_Name other \<noteq> sc_Name sc" "in_bucket (StorageBucketName sc storage) resource"
    "may_do (access_statements other storage) action resource" for action resource
    using in_bucket_unique [OF bucket_plain [OF assms(1)] bucket_plain [OF assms(2)] that(2) may_do_in_bucket [OF assms(2) that(3)]]
      StorageBucketName_name that(1) by metis
qed

text \<open>A claim with storage, one of another name, and one of its name in another namespace.\<close>

definition example_storage :: StorageConfig where
  "example_storage = \<lparr>AccountID = ''123456789012'', Region = ''eu-west-2'', Issuer = ''oidc.example.com'', PermissionsBoundaryARN = []\<rparr>"

definition storing_claim :: "string \<Rightarrow> string \<Rightarrow> ServiceClaim" where
  "storing_claim namespace name =
     example_claim\<lparr>sc_Namespace := namespace, sc_Name := name, sc_Spec := (sc_Spec example_claim)\<lparr>spec_Storage := True\<rparr>\<rparr>"

theorem storage_isolated_witness:
  "(let tokens = \<lambda>sc. set (rollout_tokens example_storage (BuildRollout sc (Some example_storage)));
        trust = trust_statements (storing_claim ''default'' ''shortlink'') example_storage
    in (\<exists>tok. tokens (storing_claim ''default'' ''other'') = {tok} \<and> \<not> may_assume trust tok) \<and>
       (\<exists>tok. tokens (storing_claim ''team-b'' ''shortlink'') = {tok} \<and> may_assume trust tok) \<and>
       may_do (access_statements (storing_claim ''default'' ''shortlink'') example_storage) ''s3:PutObject''
         (object_arn (StorageBucketName (storing_claim ''default'' ''shortlink'') example_storage) ''a/b''))"
proof -
  let ?sc = "storing_claim ''default'' ''shortlink''"
  have names: "sc_Name (storing_claim ns n) = n" "spec_Storage (sc_Spec (storing_claim ns n)) = True" for ns n
    by (simp_all add: storing_claim_def)
  have plain: "plain_name (sc_Name (storing_claim ns ''shortlink''))" "plain_name (sc_Name (storing_claim ns ''other''))" for ns
    unfolding names by code_simp+
  have one: "\<exists>tok. set (rollout_tokens example_storage (BuildRollout (storing_claim ns n) (Some example_storage))) = {tok}" for ns n
    by (simp add: BuildRollout_tokens names)
  note other = storage_isolated [OF plain(1) [of "''default''"] plain(2) [of "''default''"], where storage = example_storage]
    and same = storage_isolated [OF plain(1) [of "''default''"] plain(1) [of "''team-b''"], where storage = example_storage]
  have "''s3:PutObject'' \<in> set object_actions" by (simp add: object_actions_def)
  with same have "may_do (access_statements ?sc example_storage) ''s3:PutObject''
      (object_arn (StorageBucketName ?sc example_storage) ''a/b'')" by blast
  moreover obtain tok where "set (rollout_tokens example_storage (BuildRollout (storing_claim ''default'' ''other'') (Some example_storage))) = {tok}"
    using one by blast
  moreover from this other have "\<not> may_assume (trust_statements ?sc example_storage) tok" unfolding names by simp
  moreover obtain tok' where "set (rollout_tokens example_storage (BuildRollout (storing_claim ''team-b'' ''shortlink'') (Some example_storage))) = {tok'}"
    using one by blast
  moreover from this same have "may_assume (trust_statements ?sc example_storage) tok'" unfolding names by simp
  ultimately show ?thesis unfolding Let_def by blast
qed

end
