(* ===== verification/Builders_Docs.thy ===== *)
theory Builders_Docs
  imports Builders_Storage
begin

text \<open>
  The builders that turn a claim's SLO into something people read: the PrometheusRule
  (\<open>prometheusrule.go\<close>), the Grafana dashboard (\<open>dashboard.go\<close>) and the runbook (\<open>runbook.go\<close>).
  They are the only builders that can fail, and fail on the same claims.
\<close>

section \<open>prometheusrule.go\<close>

definition SLIRuleGroupName :: "ServiceClaim \<Rightarrow> string" where
  "SLIRuleGroupName sc = sc_Name sc @ ''.sli''"

definition AlertRuleGroupName :: "ServiceClaim \<Rightarrow> string" where
  "AlertRuleGroupName sc = sc_Name sc @ ''.slo-alerts''"

definition BuildPrometheusRule :: "ServiceClaim \<Rightarrow> client_object result" where
  "BuildPrometheusRule sc =
     (let namespace = NamespaceName sc
      in and_then (map_error (\<lambda>e. wrap_error ''building SLI recording rules: '' e []) (RecordingRules sc namespace)) (\<lambda>records.
         and_then (map_error (\<lambda>e. wrap_error ''building burn-rate alerts: '' e [])
             (AlertRules sc (namespace @ ''/'' @ RunbookName sc))) (\<lambda>alerts.
           Inr (objectMeta sc monitoringAPIVersion ''PrometheusRule'' (sc_Name sc)
             (RuleGroups_of [\<lparr>rg_Name = SLIRuleGroupName sc, rg_Rules = records\<rparr>,
                             \<lparr>rg_Name = AlertRuleGroupName sc, rg_Rules = alerts\<rparr>])))))"

section \<open>dashboard.go\<close>

definition DashboardLabel :: string where "DashboardLabel = ''grafana_dashboard''"
definition dashboardLabelValue :: string where "dashboardLabelValue = ''1''"
definition prometheusDatasourceUID :: string where "prometheusDatasourceUID = ''prometheus''"
definition PanelRequestRate :: string where "PanelRequestRate = ''Request rate''"
definition PanelErrorRatio :: string where "PanelErrorRatio = ''Error ratio vs objective''"
definition PanelLatency :: string where "PanelLatency = ''Latency p50 / p95 / p99''"
definition PanelBudgetLeft :: string where "PanelBudgetLeft = ''Error budget remaining''"
definition dashboardTagPaved :: string where "dashboardTagPaved = ''paved''"
definition dashboardTimeRange :: string where "dashboardTimeRange = ''now-6h''"

text \<open>The subset of Grafana's model the platform generates.\<close>

record grafanaTime =
  gt_From :: string
  gt_To :: string

record grafanaGridPos =
  gp_H :: int
  gp_W :: int
  gp_X :: int
  gp_Y :: int

record grafanaDatasource =
  gd_Type :: string
  gd_UID :: string

record grafanaFieldDefaults =
  gf_Unit :: string

record grafanaFieldConfig =
  gc_Defaults :: grafanaFieldDefaults
  gc_Overrides :: "json list"

record grafanaTarget =
  gg_RefID :: string
  gg_Expr :: string
  gg_LegendFormat :: string
  gg_Datasource :: grafanaDatasource

record grafanaPanel =
  gl_ID :: int
  gl_Type :: string
  gl_Title :: string
  gl_Description :: string
  gl_GridPos :: grafanaGridPos
  gl_Datasource :: grafanaDatasource
  gl_FieldConfig :: grafanaFieldConfig
  gl_Targets :: "grafanaTarget list"

record grafanaDashboard =
  ga_UID :: string
  ga_Title :: string
  ga_Tags :: "string list"
  ga_Time :: grafanaTime
  ga_Refresh :: string
  ga_Panels :: "grafanaPanel list"

text \<open>What the struct tags make of them in JSON.\<close>

definition json_of_time :: "grafanaTime \<Rightarrow> json" where
  "json_of_time t = JObject [(''from'', JString (gt_From t)), (''to'', JString (gt_To t))]"

definition json_of_gridPos :: "grafanaGridPos \<Rightarrow> json" where
  "json_of_gridPos g = JObject [(''h'', JInt (gp_H g)), (''w'', JInt (gp_W g)), (''x'', JInt (gp_X g)), (''y'', JInt (gp_Y g))]"

definition json_of_datasource :: "grafanaDatasource \<Rightarrow> json" where
  "json_of_datasource d = JObject [(''type'', JString (gd_Type d)), (''uid'', JString (gd_UID d))]"

definition json_of_fieldConfig :: "grafanaFieldConfig \<Rightarrow> json" where
  "json_of_fieldConfig c =
     JObject [(''defaults'', JObject [(''unit'', JString (gf_Unit (gc_Defaults c)))]), (''overrides'', JArray (gc_Overrides c))]"

definition json_of_target :: "grafanaTarget \<Rightarrow> json" where
  "json_of_target t =
     JObject [(''refId'', JString (gg_RefID t)), (''expr'', JString (gg_Expr t)), (''legendFormat'', JString (gg_LegendFormat t)),
              (''datasource'', json_of_datasource (gg_Datasource t))]"

definition json_of_panel :: "grafanaPanel \<Rightarrow> json" where
  "json_of_panel p =
     JObject [(''id'', JInt (gl_ID p)), (''type'', JString (gl_Type p)), (''title'', JString (gl_Title p)),
              (''description'', JString (gl_Description p)), (''gridPos'', json_of_gridPos (gl_GridPos p)),
              (''datasource'', json_of_datasource (gl_Datasource p)), (''fieldConfig'', json_of_fieldConfig (gl_FieldConfig p)),
              (''targets'', JArray (map json_of_target (gl_Targets p)))]"

definition json_of_dashboard :: "grafanaDashboard \<Rightarrow> json" where
  "json_of_dashboard d =
     JObject [(''uid'', JString (ga_UID d)), (''title'', JString (ga_Title d)), (''tags'', JArray (map JString (ga_Tags d))),
              (''time'', json_of_time (ga_Time d)), (''refresh'', JString (ga_Refresh d)),
              (''panels'', JArray (map json_of_panel (ga_Panels d)))]"

definition prometheusDatasource :: grafanaDatasource where
  "prometheusDatasource = \<lparr>gd_Type = ''prometheus'', gd_UID = prometheusDatasourceUID\<rparr>"

definition gridPos :: "int \<Rightarrow> int \<Rightarrow> grafanaGridPos" where
  "gridPos x y = \<lparr>gp_H = 8, gp_W = 12, gp_X = x, gp_Y = y\<rparr>"

definition target :: "string \<Rightarrow> string \<Rightarrow> string \<Rightarrow> grafanaTarget" where
  "target refID expr legend =
     \<lparr>gg_RefID = refID, gg_Expr = expr, gg_LegendFormat = legend, gg_Datasource = prometheusDatasource\<rparr>"

definition panel :: "int \<Rightarrow> string \<Rightarrow> string \<Rightarrow> string \<Rightarrow> grafanaGridPos \<Rightarrow> string \<Rightarrow> grafanaTarget list \<Rightarrow> grafanaPanel" where
  "panel panelID kind title unit pos description targets =
     \<lparr>gl_ID = panelID, gl_Type = kind, gl_Title = title, gl_Description = description, gl_GridPos = pos,
      gl_Datasource = prometheusDatasource,
      gl_FieldConfig = \<lparr>gc_Defaults = \<lparr>gf_Unit = unit\<rparr>, gc_Overrides = []\<rparr>, gl_Targets = targets\<rparr>"

definition DashboardUID :: "ServiceClaim \<Rightarrow> string" where
  "DashboardUID sc =
     ''paved-'' @ EncodeToString (take 8 (Sum256 (string_bytes (sc_Namespace sc @ ''/'' @ sc_Name sc))))"

definition latencyTargets :: "ServiceClaim \<Rightarrow> grafanaTarget list result" where
  "latencyTargets sc =
     (let buckets = ''sum by (le) (rate('' @ DurationMetric @ ''_bucket{namespace='' @ quote (NamespaceName sc)
                      @ ''}[$__rate_interval]))'';
          base = [target ''A'' (''histogram_quantile(0.5, '' @ buckets @ '')'') ''p50'',
                  target ''B'' (''histogram_quantile(0.95, '' @ buckets @ '')'') ''p95'',
                  target ''C'' (''histogram_quantile(0.99, '' @ buckets @ '')'') ''p99'']
      in if sli_Type (sc_SLI sc) = SLIHTTPLatency then
           and_then
             (map_error (\<lambda>e. wrap_error (''latencyThreshold '' @ quote (sli_LatencyThreshold (sc_SLI sc))
                 @ '' is not a duration: '') e []) (ParseDuration (sli_LatencyThreshold (sc_SLI sc))))
             (\<lambda>threshold. Inr (base @ [target ''D'' (''vector('' @ format_g (Seconds threshold) @ '')'') ''SLO threshold'']))
         else Inr base)"

definition dashboardModel :: "ServiceClaim \<Rightarrow> grafanaDashboard result" where
  "dashboardModel sc =
     (let namespace = NamespaceName sc;
          requests = RequestsMetric @ ''{namespace='' @ quote namespace @ ''}'';
          record = (\<lambda>window. RecordName (sli_Type (sc_SLI sc)) window @ ''{service='' @ quote (sc_Name sc) @ ''}'')
      in and_then (ErrorBudget (slo_Objective (sc_SLO sc))) (\<lambda>budget.
         and_then (ErrorRatioExpr (sc_SLI sc) namespace (slo_Window (sc_SLO sc))) (\<lambda>windowRatio.
         and_then (latencyTargets sc) (\<lambda>latency.
           let budgetText = Decimal budget
           in Inr
             \<lparr>ga_UID = DashboardUID sc, ga_Title = sc_Name sc, ga_Tags = [dashboardTagPaved, sc_Tier sc],
              ga_Time = \<lparr>gt_From = dashboardTimeRange, gt_To = ''now''\<rparr>, ga_Refresh = ''30s'',
              ga_Panels =
                [panel 1 ''timeseries'' PanelRequestRate ''reqps'' (gridPos 0 0)
                   ''Requests per second, by status code.''
                   [target ''A'' (''sum by (code) (rate('' @ requests @ ''[$__rate_interval]))'') ''{{code}}''],
                 panel 2 ''timeseries'' PanelErrorRatio ''percentunit'' (gridPos 12 0)
                   (''Share of bad requests. Above the budget line ('' @ budgetText @ ''), the service is spending ''
                      @ ''its error budget faster than its '' @ slo_Objective (sc_SLO sc) @ ''% objective allows.'')
                   [target ''A'' (record ''5m'') ''error ratio, 5m'', target ''B'' (record ''1h'') ''error ratio, 1h'',
                    target ''C'' (''vector('' @ budgetText @ '')'') ''error budget''],
                 panel 3 ''timeseries'' PanelLatency ''s'' (gridPos 0 8) ''Request latency percentiles.'' latency,
                 panel 4 ''stat'' PanelBudgetLeft ''percentunit'' (gridPos 12 8)
                   (''Share of the '' @ slo_Window (sc_SLO sc) @ '' error budget still unspent. Prometheus keeps 10 days of data by ''
                      @ ''default, so a longer window only counts what it still has.'')
                   [target ''A'' (''1 - (('' @ windowRatio @ '') / '' @ budgetText @ '')'') ''remaining'']]\<rparr>))))"

text \<open>Encoding the model cannot fail: it holds strings and small integers only.\<close>

definition BuildDashboard :: "ServiceClaim \<Rightarrow> client_object result" where
  "BuildDashboard sc =
     and_then (dashboardModel sc) (\<lambda>model.
       Inr \<lparr>o_APIVersion = ''v1'', o_Kind = ''ConfigMap'', o_Name = sc_Name sc @ ''-dashboard'',
            o_Namespace = NamespaceName sc, o_Labels = (Labels sc)(DashboardLabel \<mapsto> dashboardLabelValue),
            o_Annotations = Map.empty, o_Spec = Data_of [sc_Name sc @ ''.json'' \<mapsto> MarshalIndent (json_of_dashboard model)]\<rparr>)"

section \<open>runbook.go\<close>

definition RunbookKey :: string where "RunbookKey = ''runbook.md''"

definition badRequestDefinition :: "SLISpec \<Rightarrow> string result" where
  "badRequestDefinition sli =
     (if sli_Type sli = SLIHTTPAvailability then
        (if sli_GoodStatuses sli = [] then Inl (Errorf ''goodStatuses is empty'')
         else Inr (''A request is bad when its status code is not one of ''
                     @ Join (map itoa (sli_GoodStatuses sli)) '', '' @ ''.''))
      else if sli_Type sli = SLIHTTPLatency then
        and_then (LatencyBucket (sli_LatencyThreshold sli))
          (\<lambda>_. Inr (''A request is bad when it takes longer than '' @ sli_LatencyThreshold sli @ ''.''))
      else Inl (Errorf (''unsupported SLI type '' @ quote (sli_Type sli))))"

definition alert_row :: "rat \<Rightarrow> int \<Rightarrow> BurnRateAlert \<Rightarrow> string result" where
  "alert_row budget window a =
     and_then (Threshold a budget) (\<lambda>threshold.
     and_then (BudgetLifetime a window) (\<lambda>lifetime.
       Inr (''| '' @ Severity a @ '' | '' @ LongWindow a @ '' and '' @ ShortWindow a @ '' | '' @ threshold
              @ '' ('' @ BurnRate_text a @ ''x) | about '' @ lifetime @ '' |'')))"

definition runbook_intro :: "ServiceClaim \<Rightarrow> rat \<Rightarrow> string \<Rightarrow> string list" where
  "runbook_intro sc budget badRequest =
     (let namespace = NamespaceName sc; budgetPercent = Decimal (budget * 100)
      in [''# Runbook: '' @ sc_Name sc, [],
          ''## What this service is'', [],
          sc_Name sc @ '' is a '' @ sc_Tier sc @ '' service onboarded through paved. It runs `'' @ spec_Image (sc_Spec sc)
            @ ''` in the namespace `'' @ namespace @ ''`.'', [],
          ''- **SLI:** '' @ sli_Type (sc_SLI sc) @ ''. '' @ badRequest,
          ''- **SLO:** '' @ slo_Objective (sc_SLO sc) @ ''% of requests are good over '' @ slo_Window (sc_SLO sc)
            @ '', so the error budget is '' @ Decimal budget @ '' ('' @ budgetPercent @ ''% of requests).'', [],
          ''## Who owns it'', [],
          ''**'' @ spec_Owner (sc_Spec sc) @ ''** owns this service. Everything in `'' @ namespace
            @ ''` is generated from the ServiceClaim `'' @ sc_Namespace sc @ ''/'' @ sc_Name sc @ ''`, ''
            @ ''so change it there rather than in the namespace.'', [],
          ''## What each alert means'', [],
          ''Every alert is `'' @ AlertName @ ''` with `service='' @ [CHR 0x22] @ sc_Name sc @ [CHR 0x22]
            @ ''`; its `severity` and window labels say which one fired.'', [],
          ''| Severity | Windows | Fires above error ratio | At that rate the '' @ slo_Window (sc_SLO sc)
            @ '' budget lasts |'',
          ''|---|---|---|---|''])"

definition runbook_steps :: "ServiceClaim \<Rightarrow> string list" where
  "runbook_steps sc =
     (let namespace = NamespaceName sc; claim = sc_Name sc
      in [[],
          ''A **page** means users are affected now and the budget runs out within days: respond immediately. ''
            @ ''A **ticket** means a slower burn that will still use up the budget before the window ends: ''
            @ ''handle it during working hours.'', [],
          ''## First three debugging steps'', [],
          ''1. **Check whether a deploy is involved.** Compare the claim's image with the Rollout: ''
            @ ''`kubectl get serviceclaim '' @ claim @ '' -n '' @ sc_Namespace sc @ '' -o jsonpath='{.spec.image}'` and ''
            @ ''`kubectl get rollout '' @ claim @ '' -n '' @ namespace @ ''`.'',
          ''2. **Find when the burn started** on the Grafana dashboard `'' @ claim @ ''` (tag `paved`): the error ratio ''
            @ ''against its budget line, and request rate by status code.'',
          ''3. **Read recent logs:** `kubectl logs -n '' @ namespace @ '' -l '' @ LabelName @ ''='' @ claim
            @ '' --since=1h --tail=200`. If the burn began ''
            @ ''with an image change, set `spec.image` in the ServiceClaim back to the previous version.'', [],
          ''General guidance for these alerts: '' @ RunbookURL])"

definition runbookText :: "ServiceClaim \<Rightarrow> string result" where
  "runbookText sc =
     and_then (ErrorBudget (slo_Objective (sc_SLO sc))) (\<lambda>budget.
     and_then (SLOWindow (slo_Window (sc_SLO sc))) (\<lambda>window.
     and_then (badRequestDefinition (sc_SLI sc)) (\<lambda>badRequest.
     and_then (traverse (alert_row budget window) burnRateAlerts) (\<lambda>rows.
       Inr (Join (runbook_intro sc budget badRequest @ rows @ runbook_steps sc) newline @ newline)))))"

definition BuildRunbook :: "ServiceClaim \<Rightarrow> client_object result" where
  "BuildRunbook sc =
     and_then (map_error (\<lambda>e. wrap_error ''building runbook: '' e []) (runbookText sc)) (\<lambda>text.
       Inr (objectMeta sc ''v1'' ''ConfigMap'' (RunbookName sc) (Data_of [RunbookKey \<mapsto> text])))"

section \<open>When they succeed\<close>

text \<open>An SLI the code can measure: some good status, or a positive latency threshold.\<close>

definition usable_SLI :: "SLISpec \<Rightarrow> bool" where
  "usable_SLI sli \<longleftrightarrow>
     sli_Type sli = SLIHTTPAvailability \<and> sli_GoodStatuses sli \<noteq> [] \<or>
     sli_Type sli = SLIHTTPLatency \<and> (\<exists>d. ParseDuration (sli_LatencyThreshold sli) = Inr d \<and> 0 < d)"

definition usable_SLO :: "ServiceClaim \<Rightarrow> bool" where
  "usable_SLO sc \<longleftrightarrow>
     succeeds (ErrorBudget (slo_Objective (sc_SLO sc))) \<and> succeeds (SLOWindow (slo_Window (sc_SLO sc))) \<and>
     usable_SLI (sc_SLI sc)"

lemma ErrorRatioExpr_usable: "succeeds (ErrorRatioExpr sli ns w) \<longleftrightarrow> usable_SLI sli"
  unfolding usable_SLI_def by (rule ErrorRatioExpr_succeeds_iff)

lemma RecordingRules_usable: "succeeds (RecordingRules sc ns) \<longleftrightarrow> usable_SLI (sc_SLI sc)"
proof -
  have "\<exists>w. w \<in> set windows" by (auto simp: windows_def)
  then show ?thesis
    by (auto simp: RecordingRules_def traverse_succeeds succeeds_and_then ErrorRatioExpr_usable
        succeeds_iff [symmetric])
qed

lemma AlertRules_usable:
  "succeeds (AlertRules sc runbook) \<longleftrightarrow>
     succeeds (ErrorBudget (slo_Objective (sc_SLO sc))) \<and> succeeds (SLOWindow (slo_Window (sc_SLO sc)))"
  by (cases "ErrorBudget (slo_Objective (sc_SLO sc))"; cases "SLOWindow (slo_Window (sc_SLO sc))")
    (simp_all add: AlertRules_def traverse_succeeds alert_rule_succeeds)

lemma BuildPrometheusRule_usable: "succeeds (BuildPrometheusRule sc) \<longleftrightarrow> usable_SLO sc"
proof -
  have "succeeds (BuildPrometheusRule sc) \<longleftrightarrow>
      succeeds (RecordingRules sc (NamespaceName sc)) \<and> succeeds (AlertRules sc (NamespaceName sc @ ''/'' @ RunbookName sc))"
    unfolding succeeds_iff by (auto simp: BuildPrometheusRule_def Let_def and_then_Inr_iff map_error_Inr_iff)
  then show ?thesis by (auto simp: RecordingRules_usable AlertRules_usable usable_SLO_def)
qed

lemma latencyTargets_usable: "usable_SLI (sc_SLI sc) \<Longrightarrow> succeeds (latencyTargets sc)"
  by (auto simp: latencyTargets_def usable_SLI_def Let_def succeeds_and_then map_error_Inr_iff sli_types)

lemma BuildDashboard_usable:
  "succeeds (BuildDashboard sc) \<longleftrightarrow>
     succeeds (ErrorBudget (slo_Objective (sc_SLO sc))) \<and> usable_SLI (sc_SLI sc)"
proof -
  have "succeeds (BuildDashboard sc) \<longleftrightarrow>
      succeeds (ErrorBudget (slo_Objective (sc_SLO sc))) \<and>
      succeeds (ErrorRatioExpr (sc_SLI sc) (NamespaceName sc) (slo_Window (sc_SLO sc))) \<and> succeeds (latencyTargets sc)"
    by (auto simp: BuildDashboard_def dashboardModel_def Let_def succeeds_and_then and_then_Inr_iff succeeds_iff)
  then show ?thesis using latencyTargets_usable [of sc] by (auto simp: ErrorRatioExpr_usable)
qed

lemma badRequestDefinition_usable: "succeeds (badRequestDefinition sli) \<longleftrightarrow> usable_SLI sli"
  by (auto simp: badRequestDefinition_def usable_SLI_def succeeds_and_then LatencyBucket_Inr_iff sli_types)

lemma alert_row_succeeds: "a \<in> set burnRateAlerts \<Longrightarrow> succeeds (alert_row budget window a)"
  using BudgetLifetime_total [of a window] by (auto simp: alert_row_def Threshold_total succeeds_iff)

lemma BuildRunbook_usable: "succeeds (BuildRunbook sc) \<longleftrightarrow> usable_SLO sc"
proof -
  have "succeeds (traverse (alert_row b w) burnRateAlerts)" for b w
    by (simp add: traverse_succeeds alert_row_succeeds)
  then have "succeeds (BuildRunbook sc) \<longleftrightarrow>
      succeeds (ErrorBudget (slo_Objective (sc_SLO sc))) \<and> succeeds (SLOWindow (slo_Window (sc_SLO sc))) \<and>
      succeeds (badRequestDefinition (sc_SLI sc))"
    unfolding succeeds_iff by (auto simp: BuildRunbook_def runbookText_def and_then_Inr_iff map_error_Inr_iff)
  then show ?thesis by (simp add: badRequestDefinition_usable usable_SLO_def)
qed

text \<open>
  Whatever the claim's name, its dashboard's UID stays within Grafana's 40 characters.
\<close>

lemma DashboardUID_length: "length (DashboardUID sc) = 22"
  by (simp add: DashboardUID_def)

end
