(* ===== verification/Builders_Set.thy ===== *)
theory Builders_Set
  imports Builders_Workload Builders_Docs
begin

text \<open>
  \<open>internal/builders/set.go\<close>: every object a claim's tier requires, in the order they are applied,
  and the kinds the controller watches. The set's promises to the controller are a locale:
  the namespace comes first, everything else lives in it, labels lead back to the claim, and no two
  objects are the same. \<open>Build\<close> keeps them.
\<close>

section \<open>Definitions\<close>

definition Build :: "ServiceClaim \<Rightarrow> StorageConfig option \<Rightarrow> client_object list result" where
  "Build sc storage =
     and_then (BuildPrometheusRule sc) (\<lambda>rule.
     and_then (BuildDashboard sc) (\<lambda>dashboard.
     and_then (BuildRunbook sc) (\<lambda>runbook.
       Inr ([BuildNamespace sc, BuildServiceAccount sc]
            @ (case storage of
                 Some config \<Rightarrow> if HasStorage sc storage then [BuildStorageRole sc config, BuildStorageBucket sc config] else []
               | None \<Rightarrow> [])
            @ (if HasCanaryAnalysis sc then [BuildAnalysisTemplate sc] else [])
            @ [BuildRollout sc storage, BuildNetworkPolicy sc, rule, BuildServiceMonitor sc, dashboard, runbook]
            @ (if HasAutoscaling sc then [BuildService sc, BuildHPA sc, BuildPodDisruptionBudget sc] else [])
            @ (if sc_Tier sc = TierPublic then [BuildIngress sc] else [])))))"

text \<open>The API version and kind of every managed type.\<close>

definition ManagedTypes :: "(string \<times> string) list" where
  "ManagedTypes =
     [(''v1'', ''Namespace''), (''v1'', ''ServiceAccount''), (''argoproj.io/v1alpha1'', ''Rollout''),
      (''argoproj.io/v1alpha1'', ''AnalysisTemplate''), (''networking.k8s.io/v1'', ''NetworkPolicy''),
      (''monitoring.coreos.com/v1'', ''PrometheusRule''), (''monitoring.coreos.com/v1'', ''ServiceMonitor''),
      (''v1'', ''ConfigMap''), (''v1'', ''Service''), (''autoscaling/v2'', ''HorizontalPodAutoscaler''),
      (''policy/v1'', ''PodDisruptionBudget''), (''networking.k8s.io/v1'', ''Ingress'')]"

section \<open>What the controller relies on\<close>

locale object_set =
  fixes build :: "ServiceClaim \<Rightarrow> StorageConfig option \<Rightarrow> client_object list result"
  assumes namespace_first:
      "build sc storage = Inr obs \<Longrightarrow>
         \<exists>rest. obs = BuildNamespace sc # rest \<and> (\<forall>ob \<in> set rest. o_Namespace ob = NamespaceName sc)"
    and carries_labels: "build sc storage = Inr obs \<Longrightarrow> ob \<in> set obs \<Longrightarrow> Labels sc \<subseteq>\<^sub>m o_Labels ob"
    and distinct_identities: "build sc storage = Inr obs \<Longrightarrow> distinct (map identity obs)"
begin

lemma nonempty: "build sc storage = Inr obs \<Longrightarrow> obs \<noteq> [] \<and> hd obs = BuildNamespace sc"
  using namespace_first by fastforce

lemma leads_back:
  assumes "build sc storage = Inr obs" "ob \<in> set obs"
  shows "map_get (o_Labels ob) LabelClaim = sc_Name sc" "map_get (o_Labels ob) LabelClaimNamespace = sc_Namespace sc"
    "map_get (o_Labels ob) LabelManagedBy = ManagedBy"
  by (rule map_get_le [OF carries_labels [OF assms]], simp add: Labels_def object_label_defs)+

text \<open>Objects of claims with different names are different objects.\<close>

lemma disjoint_claims:
  assumes "build sc storage = Inr obs" "build sc' storage' = Inr obs'" "sc_Name sc \<noteq> sc_Name sc'"
    and "ob \<in> set obs" "ob' \<in> set obs'"
  shows "identity ob \<noteq> identity ob'"
proof -
  from namespace_first [OF assms(1)] assms(4) have
    "ob = BuildNamespace sc \<or> o_Namespace ob = NamespaceName sc" by auto
  moreover from namespace_first [OF assms(2)] assms(5) have
    "ob' = BuildNamespace sc' \<or> o_Namespace ob' = NamespaceName sc'" by auto
  ultimately show ?thesis
    using assms(3) by (auto simp: identity_def BuildNamespace_def NamespaceName_def namespacePrefix_def)
qed

end

section \<open>Build keeps its promises\<close>

lemmas built_objects = BuildServiceAccount_def BuildAnalysisTemplate_def BuildRollout_def BuildNetworkPolicy_def
  BuildServiceMonitor_def BuildService_def BuildHPA_def BuildPodDisruptionBudget_def BuildIngress_def
  BuildStorageRole_def BuildStorageBucket_def newStorageObject_def Let_def

lemma BuildPrometheusRule_shape:
  "BuildPrometheusRule sc = Inr ob \<Longrightarrow>
     \<exists>s. ob = objectMeta sc monitoringAPIVersion ''PrometheusRule'' (sc_Name sc) s"
  by (auto simp: BuildPrometheusRule_def Let_def result_iff)

lemma BuildRunbook_shape:
  "BuildRunbook sc = Inr ob \<Longrightarrow> \<exists>s. ob = objectMeta sc ''v1'' ''ConfigMap'' (RunbookName sc) s"
  by (auto simp: BuildRunbook_def result_iff)

lemma BuildDashboard_shape:
  "BuildDashboard sc = Inr ob \<Longrightarrow>
     o_APIVersion ob = ''v1'' \<and> o_Kind ob = ''ConfigMap'' \<and> o_Name ob = sc_Name sc @ ''-dashboard'' \<and>
     o_Namespace ob = NamespaceName sc \<and> o_Labels ob = (Labels sc)(DashboardLabel \<mapsto> dashboardLabelValue)"
  by (auto simp: BuildDashboard_def result_iff)

lemma dashboard_labels: "Labels sc \<subseteq>\<^sub>m (Labels sc)(DashboardLabel \<mapsto> dashboardLabelValue)"
  by (simp add: map_le_def Labels_def object_label_defs DashboardLabel_def)

text \<open>The identities of the objects, in order.\<close>

definition claim_identities :: "ServiceClaim \<Rightarrow> StorageConfig option \<Rightarrow> (string \<times> string \<times> string \<times> string) list" where
  "claim_identities sc storage =
     (let ns = NamespaceName sc; n = sc_Name sc
      in [(''v1'', ''Namespace'', [], ns), (''v1'', ''ServiceAccount'', ns, n)]
         @ (if HasStorage sc storage
            then [(''iam.services.k8s.aws/v1alpha1'', ''Role'', ns, n), (''s3.services.k8s.aws/v1alpha1'', ''Bucket'', ns, n)]
            else [])
         @ (if HasCanaryAnalysis sc then [(''argoproj.io/v1alpha1'', ''AnalysisTemplate'', ns, n @ ''-canary'')] else [])
         @ [(''argoproj.io/v1alpha1'', ''Rollout'', ns, n), (''networking.k8s.io/v1'', ''NetworkPolicy'', ns, n),
            (''monitoring.coreos.com/v1'', ''PrometheusRule'', ns, n), (''monitoring.coreos.com/v1'', ''ServiceMonitor'', ns, n),
            (''v1'', ''ConfigMap'', ns, n @ ''-dashboard''), (''v1'', ''ConfigMap'', ns, n @ ''-runbook'')]
         @ (if HasAutoscaling sc
            then [(''v1'', ''Service'', ns, n), (''autoscaling/v2'', ''HorizontalPodAutoscaler'', ns, n),
                  (''policy/v1'', ''PodDisruptionBudget'', ns, n)]
            else [])
         @ (if sc_Tier sc = TierPublic then [(''networking.k8s.io/v1'', ''Ingress'', ns, n)] else []))"

lemma Build_Inr:
  assumes "Build sc storage = Inr obs"
  obtains rule dashboard runbook where "BuildPrometheusRule sc = Inr rule" "BuildDashboard sc = Inr dashboard"
    "BuildRunbook sc = Inr runbook"
    "obs = BuildNamespace sc # BuildServiceAccount sc
       # (if HasStorage sc storage then [BuildStorageRole sc (the storage), BuildStorageBucket sc (the storage)] else [])
       @ (if HasCanaryAnalysis sc then [BuildAnalysisTemplate sc] else [])
       @ [BuildRollout sc storage, BuildNetworkPolicy sc, rule, BuildServiceMonitor sc, dashboard, runbook]
       @ (if HasAutoscaling sc then [BuildService sc, BuildHPA sc, BuildPodDisruptionBudget sc] else [])
       @ (if sc_Tier sc = TierPublic then [BuildIngress sc] else [])"
  using assms by (cases storage) (auto simp: Build_def result_iff HasStorage_def)

lemma Build_identities:
  assumes "Build sc storage = Inr obs"
  shows "map identity obs = claim_identities sc storage"
proof -
  from assms obtain rule dashboard runbook where
    shapes: "BuildPrometheusRule sc = Inr rule" "BuildDashboard sc = Inr dashboard" "BuildRunbook sc = Inr runbook"
    and obs: "obs = BuildNamespace sc # BuildServiceAccount sc
       # (if HasStorage sc storage then [BuildStorageRole sc (the storage), BuildStorageBucket sc (the storage)] else [])
       @ (if HasCanaryAnalysis sc then [BuildAnalysisTemplate sc] else [])
       @ [BuildRollout sc storage, BuildNetworkPolicy sc, rule, BuildServiceMonitor sc, dashboard, runbook]
       @ (if HasAutoscaling sc then [BuildService sc, BuildHPA sc, BuildPodDisruptionBudget sc] else [])
       @ (if sc_Tier sc = TierPublic then [BuildIngress sc] else [])"
    by (rule Build_Inr)
  from shapes have "identity rule = (''monitoring.coreos.com/v1'', ''PrometheusRule'', NamespaceName sc, sc_Name sc)"
    "identity dashboard = (''v1'', ''ConfigMap'', NamespaceName sc, sc_Name sc @ ''-dashboard'')"
    "identity runbook = (''v1'', ''ConfigMap'', NamespaceName sc, sc_Name sc @ ''-runbook'')"
    by (auto simp: identity_def monitoringAPIVersion_def RunbookName_def
        dest!: BuildPrometheusRule_shape BuildDashboard_shape BuildRunbook_shape)
  then show ?thesis
    unfolding obs claim_identities_def
    by (simp add: Let_def identity_def BuildNamespace_def built_objects rolloutAPIVersion_def rolloutKind_def
        analysisTemplateKind_def CanaryAnalysisName_def monitoringAPIVersion_def RoleGVK_def BucketGVK_def)
qed

lemma claim_identities_distinct: "distinct (claim_identities sc storage)"
  by (cases "HasStorage sc storage"; cases "HasCanaryAnalysis sc"; cases "HasAutoscaling sc"; cases "sc_Tier sc = TierPublic")
    (simp_all add: claim_identities_def Let_def)

lemma claim_identities_namespace:
  "list_all (\<lambda>i. fst (snd (snd i)) = NamespaceName sc) (tl (claim_identities sc storage))"
  by (simp add: claim_identities_def Let_def)

lemma built_labels:
  "o_Labels (BuildNamespace sc) = Labels sc" "o_Labels (BuildServiceAccount sc) = Labels sc"
  "o_Labels (BuildAnalysisTemplate sc) = Labels sc" "o_Labels (BuildRollout sc storage) = Labels sc"
  "o_Labels (BuildNetworkPolicy sc) = Labels sc" "o_Labels (BuildServiceMonitor sc) = Labels sc"
  "o_Labels (BuildService sc) = Labels sc" "o_Labels (BuildHPA sc) = Labels sc"
  "o_Labels (BuildPodDisruptionBudget sc) = Labels sc" "o_Labels (BuildIngress sc) = Labels sc"
  "o_Labels (BuildStorageRole sc config) = Labels sc" "o_Labels (BuildStorageBucket sc config) = Labels sc"
  by (simp_all add: BuildNamespace_def built_objects)

lemma Build_labels:
  assumes "Build sc storage = Inr obs" "ob \<in> set obs"
  shows "Labels sc \<subseteq>\<^sub>m o_Labels ob"
  using assms(1)
proof (rule Build_Inr)
  fix rule dashboard runbook
  assume "BuildPrometheusRule sc = Inr rule" "BuildDashboard sc = Inr dashboard" "BuildRunbook sc = Inr runbook"
  then have "o_Labels rule = Labels sc" "Labels sc \<subseteq>\<^sub>m o_Labels dashboard" "o_Labels runbook = Labels sc"
    using dashboard_labels by (auto dest!: BuildPrometheusRule_shape BuildDashboard_shape BuildRunbook_shape)
  moreover assume "obs = BuildNamespace sc # BuildServiceAccount sc
       # (if HasStorage sc storage then [BuildStorageRole sc (the storage), BuildStorageBucket sc (the storage)] else [])
       @ (if HasCanaryAnalysis sc then [BuildAnalysisTemplate sc] else [])
       @ [BuildRollout sc storage, BuildNetworkPolicy sc, rule, BuildServiceMonitor sc, dashboard, runbook]
       @ (if HasAutoscaling sc then [BuildService sc, BuildHPA sc, BuildPodDisruptionBudget sc] else [])
       @ (if sc_Tier sc = TierPublic then [BuildIngress sc] else [])"
  ultimately have "list_all (\<lambda>ob. Labels sc \<subseteq>\<^sub>m o_Labels ob) obs" by (simp add: built_labels)
  with assms(2) show ?thesis by (simp add: list_all_iff)
qed

interpretation bs: object_set Build
proof
  fix sc storage obs
  assume b: "Build sc storage = Inr obs"
  then show "distinct (map identity obs)" by (simp add: Build_identities claim_identities_distinct)
  from b obtain rest where obs: "obs = BuildNamespace sc # rest" by (rule Build_Inr) blast
  have "map identity rest = tl (claim_identities sc storage)"
    using Build_identities [OF b] by (simp add: obs) (metis list.sel(3))
  then have "list_all (\<lambda>i. fst (snd (snd i)) = NamespaceName sc) (map identity rest)"
    by (simp add: claim_identities_namespace)
  then have "\<forall>ob \<in> set rest. o_Namespace ob = NamespaceName sc" by (simp add: list_all_iff identity_def)
  with obs show "\<exists>rest. obs = BuildNamespace sc # rest \<and> (\<forall>ob \<in> set rest. o_Namespace ob = NamespaceName sc)" by blast
qed (rule Build_labels)

section \<open>Theorems\<close>

text \<open>
  The objects of a claim are exactly those of its tier, in order: 13 for public, 12 for internal,
  8 for batch, and 2 more with storage, no two of them the same object.
\<close>

lemma Build_tier_objects:
  assumes "Build sc storage = Inr obs" and "sc_Tier sc \<in> {TierPublic, TierInternal, TierBatch}"
  shows "map identity obs = claim_identities sc storage \<and> distinct (map identity obs) \<and>
         length obs = (if sc_Tier sc = TierPublic then 13 else if sc_Tier sc = TierInternal then 12 else 8)
                        + (if HasStorage sc storage then 2 else 0)"
proof -
  note i = Build_identities [OF assms(1)]
  have "length obs = length (claim_identities sc storage)" by (simp flip: i)
  also have "\<dots> = (if sc_Tier sc = TierPublic then 13 else if sc_Tier sc = TierInternal then 12 else 8)
                    + (if HasStorage sc storage then 2 else 0)"
    using assms(2) by (auto simp: claim_identities_def Let_def HasCanaryAnalysis_def HasAutoscaling_def tiers)
  finally show ?thesis using i bs.distinct_identities [OF assms(1)] by simp
qed

text \<open>
  A claim's objects can be built exactly when its objective and window are accepted and its SLI
  can be measured; the cluster's storage settings never make a difference.
\<close>

lemma Build_succeeds_iff:
  "succeeds (Build sc storage) \<longleftrightarrow>
     succeeds (ErrorBudget (slo_Objective (sc_SLO sc))) \<and> succeeds (SLOWindow (slo_Window (sc_SLO sc))) \<and>
     usable_SLI (sc_SLI sc)"
proof -
  have "succeeds (Build sc storage) \<longleftrightarrow>
      succeeds (BuildPrometheusRule sc) \<and> succeeds (BuildDashboard sc) \<and> succeeds (BuildRunbook sc)"
    unfolding succeeds_iff by (auto simp: Build_def and_then_Inr_iff)
  then show ?thesis
    by (auto simp: BuildPrometheusRule_usable BuildDashboard_usable BuildRunbook_usable usable_SLO_def)
qed

lemma example_Build: "succeeds (Build example_claim storage)"
proof -
  have "succeeds (BuildPrometheusRule example_claim) \<and> succeeds (BuildDashboard example_claim) \<and> succeeds (BuildRunbook example_claim)"
    unfolding BuildPrometheusRule_usable BuildDashboard_usable BuildRunbook_usable usable_SLO_def example_budget example_window
    by (simp add: usable_SLI_def example_claim_def sli_types)
  then show ?thesis unfolding succeeds_iff by (auto simp: Build_def and_then_Inr_iff)
qed

text \<open>
  The namespace is built first and everything else lives in it; every object's labels name the
  claim, so that a watch on the object leads back to it.
\<close>

lemma Build_structure:
  assumes "Build sc storage = Inr obs"
  shows "\<exists>rest. obs = BuildNamespace sc # rest \<and> (\<forall>ob \<in> set rest. o_Namespace ob = NamespaceName sc) \<and>
     (\<forall>ob \<in> set obs. map_get (o_Labels ob) LabelClaim = sc_Name sc \<and>
        map_get (o_Labels ob) LabelClaimNamespace = sc_Namespace sc \<and> map_get (o_Labels ob) LabelManagedBy = ManagedBy)"
  using bs.namespace_first [OF assms] bs.leads_back [OF assms] by blast

text \<open>
  Claims with different names never build the same object, whatever namespaces they are in.
\<close>

lemma Build_disjoint:
  assumes "Build sc storage = Inr obs" and "Build sc' storage' = Inr obs'" and "sc_Name sc \<noteq> sc_Name sc'"
  shows "set (map identity obs) \<inter> set (map identity obs') = {}"
proof (rule equals0I)
  fix i
  assume "i \<in> set (map identity obs) \<inter> set (map identity obs')"
  then have "i \<in> identity ` set obs" "i \<in> identity ` set obs'" by simp_all
  then obtain ob ob' where "ob \<in> set obs" "ob' \<in> set obs'" "identity ob = identity ob'" by (elim imageE) simp
  with bs.disjoint_claims [OF assms] show False by blast
qed

text \<open>Every object built is of a managed type, or of a storage type for a claim with storage.\<close>

lemma Build_kinds_watched:
  assumes "Build sc storage = Inr obs" and "ob \<in> set obs"
  shows "(o_APIVersion ob, o_Kind ob) \<in> set ManagedTypes \<or>
         HasStorage sc storage \<and> (o_APIVersion ob, o_Kind ob) \<in> set StorageTypes"
proof -
  have "identity ob \<in> set (claim_identities sc storage)"
    using assms Build_identities [OF assms(1)] by (metis image_eqI set_map)
  moreover have "list_all (\<lambda>i. (fst i, fst (snd i)) \<in> set ManagedTypes \<or>
      HasStorage sc storage \<and> (fst i, fst (snd i)) \<in> set StorageTypes) (claim_identities sc storage)"
    by (simp add: claim_identities_def Let_def ManagedTypes_def StorageTypes_def RoleGVK_def BucketGVK_def)
  ultimately show ?thesis by (force simp: list_all_iff identity_def)
qed

subsection \<open>References between objects\<close>

text \<open>
  Objects refer to each other by name, label and port, in one namespace; Kubernetes does not check any of it.
  \<open>resolves obs ob\<close> says that what \<open>ob\<close> refers to is among \<open>obs\<close>. Whatever is in a namespace has that namespace. The
  selector of a Service, a disruption budget or a network policy selects the Rollout's pods, a Service's target port is a
  named port of their container, and a policy's port one of its port numbers. An autoscaler's target, an ingress
  backend with its port, a pod's service account and volumes, a probe's port and a Rollout's analysis templates
  (which stand before it) are there, and a Rollout leaves its replicas to the autoscaler exactly when there is one. The
  bucket and the role that a pod's environment names are those of objects. A ServiceMonitor selects a Service
  that has its ports. The runbook of an alert is a ConfigMap, and the query of an analysis reads a series that a rule records.
  Texts for people, and the documents that name things in AWS, refer to no object.
\<close>

definition rollouts_in :: "client_object list \<Rightarrow> string \<Rightarrow> RolloutSpec set" where
  "rollouts_in obs ns = {r. \<exists>ob \<in> set obs. o_Namespace ob = ns \<and> o_Spec ob = RolloutSpec_of r}"

definition services_in :: "client_object list \<Rightarrow> string \<Rightarrow> (client_object \<times> ServiceSpec) set" where
  "services_in obs ns = {(ob, s). ob \<in> set obs \<and> o_Namespace ob = ns \<and> o_Spec ob = ServiceSpec_of s}"

definition container_ports :: "RolloutSpec \<Rightarrow> ContainerPort list" where
  "container_ports r = concat (map ct_Ports (ps_Containers (ros_PodSpec r)))"

definition port_names :: "ServiceSpec \<Rightarrow> string set" where
  "port_names s = svp_Name ` set (svs_Ports s)"

text \<open>A text field of the spec of an ACK object.\<close>

definition ack_field :: "string \<Rightarrow> client_object \<Rightarrow> string option" where
  "ack_field key ob =
     (case o_Spec ob of
        Unstructured_of (JObject kvs) \<Rightarrow> (case map_of kvs key of Some (JString v) \<Rightarrow> Some v | _ \<Rightarrow> None)
      | _ \<Rightarrow> None)"

definition container_resolves :: "client_object list \<Rightarrow> PodSpec \<Rightarrow> Container \<Rightarrow> bool" where
  "container_resolves obs pod c \<longleftrightarrow>
     (\<forall>p \<in> {ct_ReadinessProbe c, ct_LivenessProbe c}. \<exists>port \<in> set (ct_Ports c). pr_Port p = FromString (cp_Name port)) \<and>
     (\<forall>m \<in> set (ct_VolumeMounts c). vm_Name m \<in> tv_Name ` set (ps_Volumes pod)) \<and>
     (\<forall>v. (''PAVED_STORAGE_BUCKET'', v) \<in> set (ct_Env c) \<longrightarrow>
        (\<exists>ob \<in> set obs. o_Kind ob = ''Bucket'' \<and> ack_field ''name'' ob = Some v)) \<and>
     (\<forall>v. (''AWS_ROLE_ARN'', v) \<in> set (ct_Env c) \<longrightarrow>
        (\<exists>ob \<in> set obs. \<exists>path name. o_Kind ob = ''Role'' \<and> ack_field ''path'' ob = Some path \<and> ack_field ''name'' ob = Some name \<and>
           suffix ('':role'' @ path @ name) v))"

definition rule_groups_in :: "client_object list \<Rightarrow> Rule set" where
  "rule_groups_in obs = {rule. \<exists>ob \<in> set obs. \<exists>gs. o_Spec ob = RuleGroups_of gs \<and> (\<exists>g \<in> set gs. rule \<in> set (rg_Rules g))}"

definition lives_in :: "client_object list \<Rightarrow> client_object \<Rightarrow> bool" where
  "lives_in obs ob \<longleftrightarrow> o_Namespace ob = [] \<or> (''v1'', ''Namespace'', [], o_Namespace ob) \<in> set (map identity obs)"

definition refers_to :: "client_object list \<Rightarrow> client_object \<Rightarrow> bool" where
  "refers_to obs ob \<longleftrightarrow>
     (case o_Spec ob of
        NoSpec \<Rightarrow> True
      | Data_of d \<Rightarrow> True
      | Unstructured_of j \<Rightarrow> True
      | ServiceSpec_of s \<Rightarrow>
          (\<exists>r \<in> rollouts_in obs (o_Namespace ob). selects (svs_Selector s) (ros_TemplateLabels r) \<and>
             (\<forall>p \<in> set (svs_Ports s). \<exists>port \<in> set (container_ports r). svp_TargetPort p = FromString (cp_Name port)))
      | PDBSpec_of s \<Rightarrow> (\<exists>r \<in> rollouts_in obs (o_Namespace ob). selects (pdb_Selector s) (ros_TemplateLabels r))
      | NetworkPolicySpec_of s \<Rightarrow>
          (\<exists>r \<in> rollouts_in obs (o_Namespace ob). selects (nps_PodSelector s) (ros_TemplateLabels r) \<and>
             (\<forall>rule \<in> set (nps_Ingress s). \<forall>p \<in> set (npr_Ports rule).
                \<exists>port \<in> set (container_ports r). np_Port p = FromInt (cp_ContainerPort port) \<and> np_Protocol p = cp_Protocol port))
      | HPASpec_of s \<Rightarrow>
          (hpa_TargetAPIVersion s, hpa_TargetKind s, o_Namespace ob, hpa_TargetName s) \<in> set (map identity obs)
      | IngressSpec_of s \<Rightarrow>
          (\<forall>rule \<in> set (ing_Rules s). \<forall>path \<in> set (ir_Paths rule).
             \<exists>(svc, sp) \<in> services_in obs (o_Namespace ob). o_Name svc = ip_ServiceName path \<and> ip_ServicePort path \<in> port_names sp)
      | ServiceMonitorSpec_of s \<Rightarrow>
          (\<exists>(svc, sp) \<in> services_in obs (o_Namespace ob). selects (smn_Selector s) (o_Labels svc) \<and>
             (\<forall>e \<in> set (smn_Endpoints s). ep_Port e \<in> port_names sp))
      | RuleGroups_of gs \<Rightarrow>
          (\<forall>g \<in> set gs. \<forall>rule \<in> set (rg_Rules g). \<forall>runbook. rule_Annotations rule ''runbook'' = Some runbook \<longrightarrow>
             (\<exists>cm \<in> set obs. o_Kind cm = ''ConfigMap'' \<and> runbook = o_Namespace cm @ ''/'' @ o_Name cm))
      | AnalysisMetrics_of ms \<Rightarrow>
          (\<forall>m \<in> set ms. \<exists>rule \<in> rule_groups_in obs. \<exists>service. rule_Record rule \<noteq> [] \<and> rule_Labels rule ''service'' = Some service \<and>
             am_PrometheusQuery m = rule_Record rule @ ''{service='' @ quote service @ ''}'')
      | RolloutSpec_of r \<Rightarrow>
          selects (ros_Selector r) (ros_TemplateLabels r) \<and>
          (''v1'', ''ServiceAccount'', o_Namespace ob, ps_ServiceAccountName (ros_PodSpec r)) \<in> set (map identity obs) \<and>
          list_all (container_resolves obs (ros_PodSpec r)) (ps_Containers (ros_PodSpec r)) \<and>
          (\<forall>a. ros_Analysis r = Some a \<longrightarrow>
             (\<forall>t \<in> set (ab_Templates a).
                (o_APIVersion ob, ''AnalysisTemplate'', o_Namespace ob, t)
                  \<in> set (map identity (takeWhile (\<lambda>x. x \<noteq> ob) obs)))) \<and>
          (ros_Replicas r = None \<longleftrightarrow> (\<exists>x \<in> set obs. o_Kind x = ''HorizontalPodAutoscaler'')))"

definition resolves :: "client_object list \<Rightarrow> client_object \<Rightarrow> bool" where
  "resolves obs ob \<longleftrightarrow> lives_in obs ob \<and> refers_to obs ob"

lemma Build_members:
  assumes "Build sc storage = Inr obs"
  shows "BuildServiceAccount sc \<in> set obs" "BuildRollout sc storage \<in> set obs"
    "HasAutoscaling sc \<Longrightarrow> BuildService sc \<in> set obs" "HasAutoscaling sc \<Longrightarrow> BuildHPA sc \<in> set obs"
    "HasStorage sc storage \<Longrightarrow> BuildStorageRole sc (the storage) \<in> set obs"
    "HasStorage sc storage \<Longrightarrow> BuildStorageBucket sc (the storage) \<in> set obs"
  using assms by (rule Build_Inr, simp)+

lemma Build_docs:
  assumes "Build sc storage = Inr obs"
  obtains rule runbook where "BuildPrometheusRule sc = Inr rule" "rule \<in> set obs" "BuildRunbook sc = Inr runbook" "runbook \<in> set obs"
proof -
  from assms obtain rule dashboard runbook where docs: "BuildPrometheusRule sc = Inr rule" "BuildRunbook sc = Inr runbook"
    and obs: "obs = BuildNamespace sc # BuildServiceAccount sc
       # (if HasStorage sc storage then [BuildStorageRole sc (the storage), BuildStorageBucket sc (the storage)] else [])
       @ (if HasCanaryAnalysis sc then [BuildAnalysisTemplate sc] else [])
       @ [BuildRollout sc storage, BuildNetworkPolicy sc, rule, BuildServiceMonitor sc, dashboard, runbook]
       @ (if HasAutoscaling sc then [BuildService sc, BuildHPA sc, BuildPodDisruptionBudget sc] else [])
       @ (if sc_Tier sc = TierPublic then [BuildIngress sc] else [])"
    by (rule Build_Inr)
  have "rule \<in> set obs" "runbook \<in> set obs" unfolding obs by simp_all
  with docs show thesis by (intro that)
qed

lemma Build_lives_in:
  assumes "Build sc storage = Inr obs" "ob \<in> set obs"
  shows "lives_in obs ob"
proof -
  from bs.namespace_first [OF assms(1)] obtain rest where obs: "obs = BuildNamespace sc # rest"
    "\<forall>ob \<in> set rest. o_Namespace ob = NamespaceName sc" by blast
  have "identity (BuildNamespace sc) = (''v1'', ''Namespace'', [], NamespaceName sc)" "o_Namespace (BuildNamespace sc) = []"
    by (simp_all add: identity_def BuildNamespace_def)
  with obs assms(2) show ?thesis by (auto simp: lives_in_def)
qed

lemma Build_rollout_spec:
  assumes "Build sc storage = Inr obs"
  shows "\<exists>r \<in> rollouts_in obs (NamespaceName sc). ros_TemplateLabels r = Labels sc \<and>
     container_ports r = [\<lparr>cp_Name = PortName, cp_ContainerPort = spec_Port (sc_Spec sc), cp_Protocol = ''TCP''\<rparr>]"
proof -
  obtain r where r: "o_Spec (BuildRollout sc storage) = RolloutSpec_of r" "ros_TemplateLabels r = Labels sc"
    "ros_PodSpec r = podSpec sc storage" "o_Namespace (BuildRollout sc storage) = NamespaceName sc" by (simp add: BuildRollout_def)
  from podSpec_container [of sc storage] obtain env mounts where
    "ps_Containers (podSpec sc storage) = [app_container sc\<lparr>ct_VolumeMounts := mounts, ct_Env := env\<rparr>]" by blast
  then have "container_ports r = [\<lparr>cp_Name = PortName, cp_ContainerPort = spec_Port (sc_Spec sc), cp_Protocol = ''TCP''\<rparr>]"
    by (simp add: container_ports_def r app_container_def)
  moreover have "r \<in> rollouts_in obs (NamespaceName sc)" using Build_members(2) [OF assms] r(1,4) by (auto simp: rollouts_in_def)
  ultimately show ?thesis using r(2) by blast
qed

lemma Build_service_in:
  assumes "Build sc storage = Inr obs" "HasAutoscaling sc"
  shows "\<exists>sp. (BuildService sc, sp) \<in> services_in obs (NamespaceName sc) \<and> port_names sp = {PortName}"
  using Build_members(3) [OF assms] by (auto simp: services_in_def port_names_def BuildService_def)

lemma Build_hpa_iff:
  assumes "Build sc storage = Inr obs"
  shows "(\<exists>x \<in> set obs. o_Kind x = ''HorizontalPodAutoscaler'') \<longleftrightarrow> HasAutoscaling sc"
proof -
  have "(\<exists>x \<in> set obs. o_Kind x = ''HorizontalPodAutoscaler'') \<longleftrightarrow>
      list_ex (\<lambda>i. fst (snd i) = ''HorizontalPodAutoscaler'') (map identity obs)"
    by (simp add: identity_def list_ex_iff)
  then show ?thesis unfolding Build_identities [OF assms] by (simp add: claim_identities_def Let_def)
qed

lemma doc_specs:
  "BuildPrometheusRule sc = Inr ob \<Longrightarrow> \<exists>g. o_Spec ob = RuleGroups_of g"
  "BuildDashboard sc = Inr ob \<Longrightarrow> \<exists>d. o_Spec ob = Data_of d"
  "BuildRunbook sc = Inr ob \<Longrightarrow> \<exists>d. o_Spec ob = Data_of d"
  by (auto simp: BuildPrometheusRule_def BuildDashboard_def BuildRunbook_def Let_def result_iff)

lemma selecting_refers:
  assumes "Build sc storage = Inr obs"
  shows "refers_to obs (BuildService sc)" "refers_to obs (BuildPodDisruptionBudget sc)" "refers_to obs (BuildNetworkPolicy sc)"
proof -
  from Build_rollout_spec [OF assms] obtain r where r: "r \<in> rollouts_in obs (NamespaceName sc)" "ros_TemplateLabels r = Labels sc"
    "container_ports r = [\<lparr>cp_Name = PortName, cp_ContainerPort = spec_Port (sc_Spec sc), cp_Protocol = ''TCP''\<rparr>]" by blast
  have sel: "selects (SelectorLabels sc) (ros_TemplateLabels r)" "selects Map.empty (ros_TemplateLabels r)"
    using SelectorLabels_match [of sc] r(2) by (simp_all add: selects_def)
  show "refers_to obs (BuildService sc)" "refers_to obs (BuildPodDisruptionBudget sc)" "refers_to obs (BuildNetworkPolicy sc)"
    using r(1,3) sel
    by (auto simp: refers_to_def BuildService_def BuildPodDisruptionBudget_def BuildNetworkPolicy_def Let_def servicePortOnly_def
        intro!: bexI [of _ r])
qed

lemma HPA_refers: "Build sc storage = Inr obs \<Longrightarrow> refers_to obs (BuildHPA sc)"
  using Build_members(2) [of sc storage obs]
  by (simp add: refers_to_def BuildHPA_def) (force simp: identity_def BuildRollout_def)

lemma Ingress_refers:
  assumes "Build sc storage = Inr obs" "HasAutoscaling sc"
  shows "refers_to obs (BuildIngress sc)"
proof -
  from Build_service_in [OF assms] obtain sp where "(BuildService sc, sp) \<in> services_in obs (NamespaceName sc)" "port_names sp = {PortName}"
    by blast
  moreover have "o_Name (BuildService sc) = sc_Name sc" by (simp add: BuildService_def)
  ultimately have "\<exists>(svc, sp) \<in> services_in obs (NamespaceName sc). o_Name svc = sc_Name sc \<and> PortName \<in> port_names sp" by force
  then show ?thesis by (simp add: refers_to_def BuildIngress_def)
qed

text \<open>A ServiceMonitor has a Service to scrape exactly when the claim's tier has one.\<close>

lemma ServiceMonitor_refers:
  assumes "Build sc storage = Inr obs"
  shows "refers_to obs (BuildServiceMonitor sc) \<longleftrightarrow> HasAutoscaling sc"
proof
  assume "HasAutoscaling sc"
  from Build_service_in [OF assms this] obtain sp where sp: "(BuildService sc, sp) \<in> services_in obs (NamespaceName sc)" "port_names sp = {PortName}"
    by blast
  have "selects (SelectorLabels sc) (o_Labels (BuildService sc))" using SelectorLabels_match [of sc] by (simp add: BuildService_def)
  with sp show "refers_to obs (BuildServiceMonitor sc)"
    by (auto simp: refers_to_def BuildServiceMonitor_def intro!: bexI [of _ "(BuildService sc, sp)"])
next
  assume "refers_to obs (BuildServiceMonitor sc)"
  then obtain svc sp where svc: "svc \<in> set obs" "o_Spec svc = ServiceSpec_of sp"
    by (auto simp: refers_to_def BuildServiceMonitor_def services_in_def)
  from assms obtain rule dashboard runbook where
    docs: "BuildPrometheusRule sc = Inr rule" "BuildDashboard sc = Inr dashboard" "BuildRunbook sc = Inr runbook"
    and obs: "obs = BuildNamespace sc # BuildServiceAccount sc
       # (if HasStorage sc storage then [BuildStorageRole sc (the storage), BuildStorageBucket sc (the storage)] else [])
       @ (if HasCanaryAnalysis sc then [BuildAnalysisTemplate sc] else [])
       @ [BuildRollout sc storage, BuildNetworkPolicy sc, rule, BuildServiceMonitor sc, dashboard, runbook]
       @ (if HasAutoscaling sc then [BuildService sc, BuildHPA sc, BuildPodDisruptionBudget sc] else [])
       @ (if sc_Tier sc = TierPublic then [BuildIngress sc] else [])"
    by (rule Build_Inr)
  show "HasAutoscaling sc"
  proof (rule ccontr)
    assume no: "\<not> HasAutoscaling sc"
    from no have "sc_Tier sc \<noteq> TierPublic" by (simp add: HasAutoscaling_def)
    moreover have "o_Spec rule \<noteq> ServiceSpec_of sp" "o_Spec dashboard \<noteq> ServiceSpec_of sp" "o_Spec runbook \<noteq> ServiceSpec_of sp"
      using doc_specs(1) [OF docs(1)] doc_specs(2) [OF docs(2)] doc_specs(3) [OF docs(3)] by auto
    moreover have "list_all (\<lambda>ob. o_Spec ob \<noteq> ServiceSpec_of sp)
        [BuildNamespace sc, BuildServiceAccount sc, BuildStorageRole sc (the storage), BuildStorageBucket sc (the storage),
         BuildAnalysisTemplate sc, BuildRollout sc storage, BuildNetworkPolicy sc, BuildServiceMonitor sc]"
      by (simp add: BuildNamespace_def built_objects)
    ultimately have "list_all (\<lambda>ob. o_Spec ob \<noteq> ServiceSpec_of sp) obs" unfolding obs using no by simp
    with svc show False by (simp add: list_all_iff)
  qed
qed

text \<open>The analysis template stands before the rollout that refers to it.\<close>

lemma template_before_rollout:
  assumes "Build sc storage = Inr obs" "HasCanaryAnalysis sc"
  shows "BuildAnalysisTemplate sc \<in> set (takeWhile (\<lambda>x. x \<noteq> BuildRollout sc storage) obs)"
  using assms(1)
proof (rule Build_Inr)
  fix rule dashboard runbook
  assume "obs = BuildNamespace sc # BuildServiceAccount sc
       # (if HasStorage sc storage then [BuildStorageRole sc (the storage), BuildStorageBucket sc (the storage)] else [])
       @ (if HasCanaryAnalysis sc then [BuildAnalysisTemplate sc] else [])
       @ [BuildRollout sc storage, BuildNetworkPolicy sc, rule, BuildServiceMonitor sc, dashboard, runbook]
       @ (if HasAutoscaling sc then [BuildService sc, BuildHPA sc, BuildPodDisruptionBudget sc] else [])
       @ (if sc_Tier sc = TierPublic then [BuildIngress sc] else [])"
  moreover have "BuildNamespace sc \<noteq> BuildRollout sc storage" "BuildServiceAccount sc \<noteq> BuildRollout sc storage"
    "BuildStorageRole sc c \<noteq> BuildRollout sc storage" "BuildStorageBucket sc c \<noteq> BuildRollout sc storage"
    "BuildAnalysisTemplate sc \<noteq> BuildRollout sc storage" for c
    by (auto dest!: arg_cong [of _ _ o_Spec] simp: BuildNamespace_def built_objects)
  ultimately show ?thesis using assms(2) by simp
qed

lemma pods_refer:
  assumes "Build sc storage = Inr obs"
  shows "list_all (container_resolves obs (podSpec sc storage)) (ps_Containers (podSpec sc storage))"
proof (cases "HasStorage sc storage")
  case False
  then show ?thesis
    by (simp add: podSpec_cases Let_def container_resolves_def app_container_def httpProbe_def)
next
  case True
  then obtain config where config: "storage = Some config" by (auto simp: HasStorage_def)
  with True have pod: "podSpec sc storage = withStorageIdentity
      \<lparr>ps_ServiceAccountName = sc_Name sc, ps_RunAsNonRoot = True, ps_RunAsUser = runAsUser,
       ps_SeccompProfile = ''RuntimeDefault'', ps_Containers = [app_container sc], ps_Volumes = []\<rparr> sc config"
    by (simp add: podSpec_cases Let_def)
  have bucket: "ack_field ''name'' (BuildStorageBucket sc config) = Some (StorageBucketName sc config)" "o_Kind (BuildStorageBucket sc config) = ''Bucket''"
    and role: "ack_field ''name'' (BuildStorageRole sc config) = Some (StorageRoleName sc)"
      "ack_field ''path'' (BuildStorageRole sc config) = Some storageRolePath" "o_Kind (BuildStorageRole sc config) = ''Role''"
    by (simp_all add: ack_field_def BuildStorageBucket_def BuildStorageRole_def newStorageObject_def Let_def BucketGVK_def RoleGVK_def)
  have "suffix ('':role'' @ storageRolePath @ StorageRoleName sc) (StorageRoleARN sc config)"
    by (simp add: StorageRoleARN_def suffix_def)
  moreover have "BuildStorageBucket sc config \<in> set obs" "BuildStorageRole sc config \<in> set obs"
    using Build_members(5,6) [OF assms True] config by simp_all
  ultimately have names: "\<exists>ob \<in> set obs. o_Kind ob = ''Bucket'' \<and> ack_field ''name'' ob = Some (StorageBucketName sc config)"
    "\<exists>ob \<in> set obs. \<exists>path name. o_Kind ob = ''Role'' \<and> ack_field ''path'' ob = Some path \<and> ack_field ''name'' ob = Some name \<and>
       suffix ('':role'' @ path @ name) (StorageRoleARN sc config)"
    using bucket role by metis+
  show ?thesis
    unfolding pod withStorageIdentity_def
    using names [simplified]
    by (simp add: container_resolves_def app_container_def httpProbe_def EnvStorageBucket_def)
qed

lemma Rollout_refers:
  assumes "Build sc storage = Inr obs"
  shows "refers_to obs (BuildRollout sc storage)"
proof -
  have "(''v1'', ''ServiceAccount'', NamespaceName sc, sc_Name sc) = identity (BuildServiceAccount sc)"
    by (simp add: identity_def BuildServiceAccount_def)
  then have "(''v1'', ''ServiceAccount'', NamespaceName sc, sc_Name sc) \<in> identity ` set obs"
    using Build_members(1) [OF assms] by (rule image_eqI)
  moreover have "(rolloutAPIVersion, ''AnalysisTemplate'', NamespaceName sc, CanaryAnalysisName sc)
      \<in> identity ` set (takeWhile (\<lambda>x. x \<noteq> BuildRollout sc storage) obs)" if "HasCanaryAnalysis sc"
    using template_before_rollout [OF assms that]
    by (rule image_eqI [rotated]) (simp add: identity_def BuildAnalysisTemplate_def analysisTemplateKind_def Let_def)
  ultimately show ?thesis
    using Build_hpa_iff [OF assms] SelectorLabels_match [of sc] pods_refer [OF assms]
    by (auto simp: refers_to_def podSpec_fields canaryAnalysis_def BuildRollout_def)
qed

text \<open>The series that the analysis reads is one that a rule records, and the runbook an alert names is built.\<close>

lemma traverse_origin:
  assumes "traverse f xs = Inr ys" "y \<in> set ys"
  shows "\<exists>x \<in> set xs. f x = Inr y"
proof -
  from assms(2) obtain i where "i < length ys" "y = ys ! i" by (auto simp: in_set_conv_nth)
  with assms(1) show ?thesis
    unfolding traverse_Inr_iff list_all2_conv_all_nth by (intro bexI [of _ "xs ! i"]) simp_all
qed

lemma alert_rule_runbook: "alert_rule sc runbook budget window a = Inr r \<Longrightarrow> rule_Annotations r ''runbook'' = Some runbook"
  by (auto simp: alert_rule_def result_iff)

lemma recorded:
  assumes "RecordingRules sc ns = Inr records"
  shows "map rule_Record records = map (RecordName (sli_Type (sc_SLI sc))) windows" and
    "r \<in> set records \<Longrightarrow> rule_Labels r = RuleLabels sc \<and> rule_Annotations r = Map.empty"
proof -
  from assms have "list_all2 (\<lambda>window r. rule_Record r = RecordName (sli_Type (sc_SLI sc)) window) windows records"
    unfolding RecordingRules_def traverse_Inr_iff by (rule list_all2_mono) (auto simp: result_iff)
  then show "map rule_Record records = map (RecordName (sli_Type (sc_SLI sc))) windows" by (rule list_all2_map_eq)
  assume "r \<in> set records"
  from traverse_origin [OF assms [unfolded RecordingRules_def] this]
  show "rule_Labels r = RuleLabels sc \<and> rule_Annotations r = Map.empty" by (auto simp: result_iff)
qed

lemma rules_refer:
  assumes "Build sc storage = Inr obs" "BuildPrometheusRule sc = Inr rule"
  shows "refers_to obs rule"
proof -
  from assms(2) obtain records alerts where rules: "RecordingRules sc (NamespaceName sc) = Inr records"
    "AlertRules sc (NamespaceName sc @ ''/'' @ RunbookName sc) = Inr alerts"
    "o_Spec rule = RuleGroups_of [\<lparr>rg_Name = SLIRuleGroupName sc, rg_Rules = records\<rparr>, \<lparr>rg_Name = AlertRuleGroupName sc, rg_Rules = alerts\<rparr>]"
    by (auto simp: BuildPrometheusRule_def Let_def result_iff)
  have "rule_Annotations r ''runbook'' = Some (NamespaceName sc @ ''/'' @ RunbookName sc)" if "r \<in> set alerts" for r
  proof -
    from rules(2) obtain budget window where
      "traverse (alert_rule sc (NamespaceName sc @ ''/'' @ RunbookName sc) budget window) burnRateAlerts = Inr alerts"
      unfolding AlertRules_def and_then_Inr_iff by blast
    from traverse_origin [OF this that] show ?thesis using alert_rule_runbook by blast
  qed
  moreover have "rule_Annotations r = Map.empty" if "r \<in> set records" for r
    using recorded [OF rules(1)] that by blast
  moreover from Build_docs [OF assms(1)] obtain runbook where "BuildRunbook sc = Inr runbook" "runbook \<in> set obs" by blast
  with BuildRunbook_shape [of sc runbook] have "\<exists>cm \<in> set obs. o_Kind cm = ''ConfigMap'' \<and>
      NamespaceName sc @ ''/'' @ RunbookName sc = o_Namespace cm @ ''/'' @ o_Name cm"
    by (intro bexI [of _ runbook]) auto
  ultimately show ?thesis by (auto simp: refers_to_def rules(3))
qed

lemma analysis_refers:
  assumes "Build sc storage = Inr obs"
  shows "refers_to obs (BuildAnalysisTemplate sc)"
proof -
  from Build_docs [OF assms] obtain ob where ob: "BuildPrometheusRule sc = Inr ob" "ob \<in> set obs" by blast
  from ob(1) obtain records alerts where rules: "RecordingRules sc (NamespaceName sc) = Inr records"
    "o_Spec ob = RuleGroups_of [\<lparr>rg_Name = SLIRuleGroupName sc, rg_Rules = records\<rparr>, \<lparr>rg_Name = AlertRuleGroupName sc, rg_Rules = alerts\<rparr>]"
    by (auto simp: BuildPrometheusRule_def Let_def result_iff)
  have "canaryWindow \<in> set windows" by (simp add: canaryWindow_def windows_def)
  then have "RecordName (sli_Type (sc_SLI sc)) canaryWindow \<in> set (map rule_Record records)"
    unfolding recorded(1) [OF rules(1)] by simp
  then obtain rule where rule: "rule \<in> set records" "rule_Record rule = RecordName (sli_Type (sc_SLI sc)) canaryWindow" by auto
  with recorded(2) [OF rules(1)] have labels: "rule_Labels rule = RuleLabels sc" by blast
  have "rule \<in> rule_groups_in obs"
    unfolding rule_groups_in_def mem_Collect_eq
    by (rule bexI [OF _ ob(2)], rule exI, rule conjI [OF rules(2)]) (simp add: rule(1))
  moreover have "rule_Record rule \<noteq> []" "rule_Labels rule ''service'' = Some (sc_Name sc)"
    by (simp_all add: rule(2) labels RecordName_def RuleLabels_def rule_label_defs)
  ultimately have "\<exists>r \<in> rule_groups_in obs. \<exists>service. rule_Record r \<noteq> [] \<and> rule_Labels r ''service'' = Some service \<and>
      RecordName (sli_Type (sc_SLI sc)) canaryWindow @ ''{service='' @ quote (sc_Name sc) @ ''}''
        = rule_Record r @ ''{service='' @ quote service @ ''}''"
    using rule(2) by (intro bexI [of _ rule] exI [of _ "sc_Name sc"]) simp_all
  then show ?thesis
    by (simp add: refers_to_def BuildAnalysisTemplate_def Let_def LabelService_def)
qed

lemma others_refer:
  "refers_to obs (BuildNamespace sc)" "refers_to obs (BuildServiceAccount sc)"
  "refers_to obs (BuildStorageRole sc c)" "refers_to obs (BuildStorageBucket sc c)"
  by (simp_all add: refers_to_def BuildNamespace_def built_objects)

lemma docs_refer:
  "BuildDashboard sc = Inr ob \<Longrightarrow> refers_to obs ob" "BuildRunbook sc = Inr ob \<Longrightarrow> refers_to obs ob"
  using doc_specs(2,3) [of sc ob] by (auto simp: refers_to_def)

text \<open>
  C36: the references between a claim's objects. All objects but one find what they refer to among the objects of the
  claim: selectors their pods, ports the ports of the container, the autoscaler, the ingress, the pods, the Rollout, the
  alerts and the canary analysis what they name. The one is the ServiceMonitor of a batch claim, which has no Service to
  scrape.
\<close>

theorem Build_references_resolve:
  assumes "Build sc storage = Inr obs" and "ob \<in> set obs"
  shows "resolves obs ob \<longleftrightarrow> HasAutoscaling sc \<or> o_Kind ob \<noteq> ''ServiceMonitor''"
proof -
  from assms(1) obtain rule dashboard runbook where
    docs: "BuildPrometheusRule sc = Inr rule" "BuildDashboard sc = Inr dashboard" "BuildRunbook sc = Inr runbook"
    and obs: "obs = BuildNamespace sc # BuildServiceAccount sc
       # (if HasStorage sc storage then [BuildStorageRole sc (the storage), BuildStorageBucket sc (the storage)] else [])
       @ (if HasCanaryAnalysis sc then [BuildAnalysisTemplate sc] else [])
       @ [BuildRollout sc storage, BuildNetworkPolicy sc, rule, BuildServiceMonitor sc, dashboard, runbook]
       @ (if HasAutoscaling sc then [BuildService sc, BuildHPA sc, BuildPodDisruptionBudget sc] else [])
       @ (if sc_Tier sc = TierPublic then [BuildIngress sc] else [])"
    by (rule Build_Inr)
  have "sc_Tier sc = TierPublic \<Longrightarrow> HasAutoscaling sc" by (simp add: HasAutoscaling_def)
  then have ingress: "sc_Tier sc = TierPublic \<Longrightarrow> refers_to obs (BuildIngress sc)"
    using Ingress_refers [OF assms(1)] by simp
  note refer = rules_refer [OF assms(1) docs(1)] docs_refer(1) [OF docs(2)] docs_refer(2) [OF docs(3)] ingress others_refer
    selecting_refers [OF assms(1)] HPA_refers [OF assms(1)] Rollout_refers [OF assms(1)] analysis_refers [OF assms(1)]
  have "o_Kind (BuildServiceMonitor sc) = ''ServiceMonitor''" by (simp add: BuildServiceMonitor_def)
  moreover have "list_all (\<lambda>ob. ob = BuildServiceMonitor sc \<or> refers_to xs ob \<and> o_Kind ob \<noteq> ''ServiceMonitor'') obs" if "xs = obs" for xs
  proof -
    have kinds: "o_Kind rule = ''PrometheusRule''" "o_Kind dashboard = ''ConfigMap''" "o_Kind runbook = ''ConfigMap''"
      using BuildPrometheusRule_shape [OF docs(1)] BuildDashboard_shape [OF docs(2)] BuildRunbook_shape [OF docs(3)] by auto
    have "list_all (\<lambda>ob. o_Kind ob \<noteq> ''ServiceMonitor'')
        [BuildNamespace sc, BuildServiceAccount sc, BuildStorageRole sc (the storage), BuildStorageBucket sc (the storage),
         BuildAnalysisTemplate sc, BuildRollout sc storage, BuildNetworkPolicy sc, BuildService sc, BuildHPA sc,
         BuildPodDisruptionBudget sc, BuildIngress sc]"
      by (simp add: BuildNamespace_def built_objects RoleGVK_def BucketGVK_def analysisTemplateKind_def rolloutKind_def)
    then show ?thesis unfolding obs using that refer kinds by simp
  qed
  ultimately show ?thesis
    using assms(2) ServiceMonitor_refers [OF assms(1)] Build_lives_in [OF assms]
    by (auto simp: resolves_def list_all_iff)
qed

theorem Build_references_resolve_witness:
  "\<exists>obs. Build example_claim None = Inr obs \<and> list_all (resolves obs) obs"
proof -
  obtain obs where b: "Build example_claim None = Inr obs" using example_Build [of None] unfolding succeeds_iff by blast
  have "HasAutoscaling example_claim" by (simp add: HasAutoscaling_def example_claim_def tiers)
  with Build_references_resolve [OF b] b show ?thesis by (auto simp: list_all_iff)
qed

end
