(* ===== verification/Go_Json_Read.thy ===== *)
theory Go_Json_Read
  imports Go_Json
begin

text \<open>
  A reader of JSON texts, and that it reads back what \<open>Marshal\<close> and \<open>MarshalIndent\<close> of \<open>Go_Json\<close> write. The
  documents the controller writes are read by others, by Grafana and by AWS; this is what they see.
\<close>

section \<open>The reader\<close>

definition is_json_space :: "char \<Rightarrow> bool" where
  "is_json_space c \<longleftrightarrow> byte c \<in> {9, 10, 13, 32}"

abbreviation skip_space :: "string \<Rightarrow> string" where
  "skip_space \<equiv> dropWhile is_json_space"

definition hex4 :: "char \<Rightarrow> char \<Rightarrow> char \<Rightarrow> char \<Rightarrow> nat option" where
  "hex4 a b c d =
     (case (hex_val a, hex_val b, hex_val c, hex_val d) of
        (Some i, Some j, Some k, Some l) \<Rightarrow> Some (4096 * i + 256 * j + 16 * k + l)
      | _ \<Rightarrow> None)"

text \<open>The UTF-8 bytes of a code point of the basic plane; a surrogate has none.\<close>

definition utf8 :: "nat \<Rightarrow> string option" where
  "utf8 n =
     (if n < 128 then Some [char_of n]
      else if n < 2048 then Some [char_of (192 + n div 64), char_of (128 + n mod 64)]
      else if 55296 \<le> n \<and> n < 57344 then None
      else Some [char_of (224 + n div 4096), char_of (128 + n div 64 mod 64), char_of (128 + n mod 64)])"

definition simple_escape :: "char \<Rightarrow> char option" where
  "simple_escape c =
     map_of [(CHR 0x22, CHR 0x22), (CHR 0x5C, CHR 0x5C), (CHR ''/'', CHR ''/''), (CHR ''b'', CHR 0x08), (CHR ''f'', CHR 0x0C),
             (CHR ''n'', CHR 0x0A), (CHR ''r'', CHR 0x0D), (CHR ''t'', CHR 0x09)] c"

definition prepend :: "'a list \<Rightarrow> ('a list \<times> 'b) option \<Rightarrow> ('a list \<times> 'b) option" where
  "prepend xs = map_option (\<lambda>(ys, r). (xs @ ys, r))"

text \<open>The characters up to the closing quote, and what follows it.\<close>

fun read_chars :: "string \<Rightarrow> (string \<times> string) option" where
  "read_chars [] = None"
| "read_chars (c # s) =
     (if c = CHR 0x22 then Some ([], s)
      else if byte c < 32 then None
      else if c = CHR 0x5C then
        (case s of
           [] \<Rightarrow> None
         | e # s' \<Rightarrow>
             if e = CHR ''u'' then
               (case s' of
                  a # b # c' # d # s'' \<Rightarrow>
                    (case Option.bind (hex4 a b c' d) utf8 of None \<Rightarrow> None | Some u \<Rightarrow> prepend u (read_chars s''))
                | _ \<Rightarrow> None)
             else (case simple_escape e of None \<Rightarrow> None | Some x \<Rightarrow> prepend [x] (read_chars s')))
      else prepend [c] (read_chars s))"

definition read_int :: "string \<Rightarrow> (json \<times> string) option" where
  "read_int s =
     (let negative = (s \<noteq> [] \<and> hd s = CHR ''-''); t = (if negative then tl s else s); ds = takeWhile is_digit t
      in if ds = [] then None
         else Some (JInt (if negative then - digits_val ds else digits_val ds), dropWhile is_digit t))"

text \<open>
  Values, the rest of an array after a bracket or a comma, and the rest of an object. The recursion is
  bounded by the first argument; the length of the text is enough.
\<close>

fun read_value :: "nat \<Rightarrow> string \<Rightarrow> (json \<times> string) option"
  and read_items :: "nat \<Rightarrow> string \<Rightarrow> (json list \<times> string) option"
  and read_members :: "nat \<Rightarrow> string \<Rightarrow> ((string \<times> json) list \<times> string) option" where
  "read_value 0 s = None"
| "read_value (Suc n) s =
     (case skip_space s of
        [] \<Rightarrow> None
      | c # r \<Rightarrow>
          if c = CHR 0x22 then map_option (\<lambda>(x, r'). (JString x, r')) (read_chars r)
          else if c = CHR ''['' then
            (if prefix '']'' (skip_space r) then Some (JArray [], tl (skip_space r))
             else map_option (\<lambda>(xs, r'). (JArray xs, r')) (read_items n r))
          else if c = CHR ''{'' then
            (if prefix ''}'' (skip_space r) then Some (JObject [], tl (skip_space r))
             else map_option (\<lambda>(kvs, r'). (JObject kvs, r')) (read_members n r))
          else if prefix ''true'' (c # r) then Some (JBool True, drop 4 (c # r))
          else if prefix ''false'' (c # r) then Some (JBool False, drop 5 (c # r))
          else read_int (c # r))"
| "read_items 0 s = None"
| "read_items (Suc n) s =
     (case read_value n s of
        None \<Rightarrow> None
      | Some (v, r) \<Rightarrow>
          (case skip_space r of
             [] \<Rightarrow> None
           | d # r' \<Rightarrow>
               if d = CHR '']'' then Some ([v], r')
               else if d = CHR '','' then prepend [v] (read_items n r') else None))"
| "read_members 0 s = None"
| "read_members (Suc n) s =
     (case skip_space s of
        [] \<Rightarrow> None
      | q # s1 \<Rightarrow>
          if q \<noteq> CHR 0x22 then None
          else
          (case read_chars s1 of
             None \<Rightarrow> None
           | Some (k, s2) \<Rightarrow>
               if \<not> prefix '':'' (skip_space s2) then None
               else
               (case read_value n (tl (skip_space s2)) of
                  None \<Rightarrow> None
                | Some (v, r) \<Rightarrow>
                    (case skip_space r of
                       [] \<Rightarrow> None
                     | d # r' \<Rightarrow>
                         if d = CHR ''}'' then Some ([(k, v)], r')
                         else if d = CHR '','' then prepend [(k, v)] (read_members n r') else None))))"

definition read_json :: "string \<Rightarrow> json option" where
  "read_json s =
     (case read_value (length s) s of
        None \<Rightarrow> None
      | Some (v, r) \<Rightarrow> if skip_space r = [] then Some v else None)"

section \<open>Strings are read back\<close>

lemma prepend_simps [simp]: "prepend xs (Some (ys, r)) = Some (xs @ ys, r)" "prepend xs None = None"
  by (simp_all add: prepend_def)

lemma hex4_byte: "n < 256 \<Longrightarrow> hex4 CHR ''0'' CHR ''0'' (hex_digit (n div 16)) (hex_digit (n mod 16)) = Some n"
  by (simp add: hex4_def) (simp add: hex_val_def is_digit_def)

lemma simple_escape_simps:
  "simple_escape CHR 0x22 = Some CHR 0x22" "simple_escape CHR 0x5C = Some CHR 0x5C" "simple_escape CHR ''b'' = Some CHR 0x08"
  "simple_escape CHR ''f'' = Some CHR 0x0C" "simple_escape CHR ''n'' = Some CHR 0x0A" "simple_escape CHR ''r'' = Some CHR 0x0D"
  "simple_escape CHR ''t'' = Some CHR 0x09"
  by (simp_all add: simple_escape_def)

text \<open>The three shapes in which a byte is written.\<close>

lemma json_char_cases:
  obtains (escape) e where "json_char c = [CHR 0x5C, e]" "e \<noteq> CHR ''u''" "simple_escape e = Some c"
  | (unicode) "json_char c = [CHR 0x5C] @ ''u00'' @ hex_byte (byte c)" "byte c < 128"
  | (verbatim) "json_char c = [c]" "32 \<le> byte c" "c \<noteq> CHR 0x22" "c \<noteq> CHR 0x5C"
proof -
  consider "byte c \<in> {34, 92, 8, 12, 10, 13, 9}" | "byte c \<notin> {34, 92, 8, 12, 10, 13, 9}" "byte c < 32 \<or> byte c \<in> {60, 62, 38}"
    | "byte c \<notin> {34, 92, 8, 12, 10, 13, 9}" "\<not> byte c < 32" "byte c \<notin> {60, 62, 38}" by blast
  then show thesis
  proof cases
    case 1
    then have "byte c \<in> of_char ` {CHR 0x22, CHR 0x5C, CHR 0x08, CHR 0x0C, CHR 0x0A, CHR 0x0D, CHR 0x09}" by simp
    then have "c \<in> {CHR 0x22, CHR 0x5C, CHR 0x08, CHR 0x0C, CHR 0x0A, CHR 0x0D, CHR 0x09}"
      by (rule inj_image_mem_iff [OF inj_of_char, THEN iffD1])
    then have "\<exists>e. json_char c = [CHR 0x5C, e] \<and> e \<noteq> CHR ''u'' \<and> simple_escape e = Some c"
      by (elim insertE) (simp_all add: json_char_def simple_escape_simps)
    then show thesis using escape by blast
  next
    case 2
    then have "json_char c = [CHR 0x5C] @ ''u00'' @ hex_byte (byte c)" by (auto simp: json_char_def Let_def)
    with 2 show thesis using unicode by auto
  next
    case 3
    then have "json_char c = [c]" by (auto simp: json_char_def Let_def)
    with 3 show thesis using verbatim by force
  qed
qed

lemma read_json_char [simp]: "read_chars (json_char c @ s) = prepend [c] (read_chars s)"
proof (cases c rule: json_char_cases)
  case (escape e)
  then show ?thesis by simp
next
  case unicode
  then show ?thesis by (simp add: hex_byte_def hex4_byte utf8_def)
next
  case verbatim
  then show ?thesis by (subst verbatim(1)) simp
qed

lemma utf8_separators: "utf8 0x2028 = Some [CHR 0xE2, CHR 0x80, CHR 0xA8]" "utf8 0x2029 = Some [CHR 0xE2, CHR 0x80, CHR 0xA9]"
  by (simp_all add: utf8_def char_of_def bit_0)

lemma read_separators:
  "read_chars (CHR 0x5C # ''u2028'' @ s) = prepend [CHR 0xE2, CHR 0x80, CHR 0xA8] (read_chars s)"
  "read_chars (CHR 0x5C # ''u2029'' @ s) = prepend [CHR 0xE2, CHR 0x80, CHR 0xA9] (read_chars s)"
  using utf8_separators by (simp_all add: hex4_def hex_val_def is_digit_def)

lemma take_2_split: "take 2 s = [a, b] \<Longrightarrow> s = [a, b] @ drop 2 s"
  by (metis append_take_drop_id)

lemma read_json_chars: "read_chars (json_chars s @ CHR 0x22 # r) = Some (s, r)"
proof (induction s rule: json_chars.induct)
  case (2 c s)
  consider (ls) "c = CHR 0xE2" "take 2 s = [CHR 0x80, CHR 0xA8]" | (ps) "c = CHR 0xE2" "take 2 s = [CHR 0x80, CHR 0xA9]"
    | (other) "json_chars (c # s) = json_char c @ json_chars s" "\<not> (c = CHR 0xE2 \<and> take 2 s = [CHR 0x80, CHR 0xA8])"
        "\<not> (c = CHR 0xE2 \<and> take 2 s = [CHR 0x80, CHR 0xA9])" by fastforce
  then show ?case
  proof cases
    case ls
    with 2(1) read_separators(1) [of "json_chars (drop 2 s) @ CHR 0x22 # r"] take_2_split [OF ls(2)] show ?thesis
      by (simp del: read_chars.simps)
  next
    case ps
    with 2(2) read_separators(2) [of "json_chars (drop 2 s) @ CHR 0x22 # r"] take_2_split [OF ps(2)] show ?thesis
      by (simp del: read_chars.simps)
  next
    case other
    with 2(3) show ?thesis by (simp del: read_chars.simps json_chars.simps)
  qed
qed simp

section \<open>Values are read back\<close>

text \<open>Both encoders are one function of the line breaks at each depth and of what follows a colon.\<close>

fun render :: "(nat \<Rightarrow> string) \<Rightarrow> string \<Rightarrow> nat \<Rightarrow> json \<Rightarrow> string" where
  "render ind sp d (JArray xs) =
     (if xs = [] then ''[]''
      else ''['' @ Join (map (\<lambda>v. ind (Suc d) @ render ind sp (Suc d) v) xs) '','' @ ind d @ '']'')"
| "render ind sp d (JObject kvs) =
     (if kvs = [] then ''{}''
      else ''{'' @ Join (map (\<lambda>(k, v). ind (Suc d) @ json_string k @ '':'' @ sp @ render ind sp (Suc d) v) kvs) '',''
             @ ind d @ ''}'')"
| "render ind sp d v = Marshal v"

lemma render_Marshal: "render (\<lambda>d. []) [] d v = Marshal v"
proof (induction v arbitrary: d)
  case (JArray xs)
  then show ?case by (auto cong: map_cong)
next
  case (JObject kvs)
  then have "map (\<lambda>(k, v). json_string k @ '':'' @ render (\<lambda>d. []) [] (Suc d) v) kvs =
      map (\<lambda>(k, v). json_string k @ '':'' @ Marshal v) kvs" 
    by (intro map_cong) (auto simp: snds.simps)
  then show ?case by (simp del: map_eq_conv)
qed simp_all

lemma render_marshal_indent: "render indent '' '' d v = marshal_indent d v"
proof (induction v arbitrary: d)
  case (JArray xs)
  then show ?case by (auto cong: map_cong)
next
  case (JObject kvs)
  then have "map (\<lambda>(k, v). indent (Suc d) @ json_string k @ '':'' @ '' '' @ render indent '' '' (Suc d) v) kvs =
      map (\<lambda>(k, v). indent (Suc d) @ json_string k @ '': '' @ marshal_indent (Suc d) v) kvs" 
    by (intro map_cong) (auto simp: snds.simps)
  then show ?case by (simp del: map_eq_conv)
qed simp_all

abbreviation spaces :: "string \<Rightarrow> bool" where
  "spaces \<equiv> list_all is_json_space"

lemma skip_spaces [simp]: "spaces w \<Longrightarrow> skip_space (w @ s) = skip_space s"
  by (induction w) auto

lemma spaces_indent: "spaces (indent d)"
  by (induction d) (auto simp: indent_def is_json_space_def)

text \<open>A number ends where no digit follows.\<close>

definition stops :: "string \<Rightarrow> bool" where
  "stops r \<longleftrightarrow> r = [] \<or> \<not> is_digit (hd r)"

lemma space_stops: "spaces w \<Longrightarrow> stops s \<Longrightarrow> stops (w @ s)"
  by (cases w) (auto simp: stops_def is_json_space_def is_digit_def)

lemma read_digits: "stops r \<Longrightarrow> takeWhile is_digit (utoa n @ r) = utoa n \<and> dropWhile is_digit (utoa n @ r) = r"
  using utoa_digits [of n] by (cases r) (auto simp: stops_def list_all_iff takeWhile_append dropWhile_append)

lemma itoa_head:
  obtains c s where "itoa n = c # s" "is_digit c \<or> c = CHR ''-''"
proof (cases "n < 0")
  case False
  then show thesis using utoa_digits [of n] utoa_nonempty [of n] that by (cases "utoa n") (auto simp: itoa_def)
qed (use that in \<open>simp add: itoa_def\<close>)

lemma read_int_itoa: "stops r \<Longrightarrow> read_int (itoa n @ r) = Some (JInt n, r)"
proof -
  assume r: "stops r"
  have "hd (utoa n @ r) \<noteq> CHR ''-''"
    using utoa_digits [of n] utoa_nonempty [of n] by (cases "utoa n") (auto simp: is_digit_def)
  then show ?thesis using read_digits [OF r] by (simp add: read_int_def itoa_def Let_def)
qed

lemma render_head: "\<exists>c s. render ind sp d v = c # s \<and> \<not> is_json_space c \<and> c \<noteq> CHR '']'' \<and> c \<noteq> CHR ''}''"
proof (cases v)
  case (JInt n)
  obtain c s where "itoa n = c # s" "is_digit c \<or> c = CHR ''-''" by (rule itoa_head)
  with JInt show ?thesis by (auto simp: is_json_space_def is_digit_def)
qed (auto simp: is_json_space_def json_string_def)

text \<open>What is read of a value after spaces and before text that does not continue it.\<close>

definition reads_back :: "(nat \<Rightarrow> string) \<Rightarrow> string \<Rightarrow> json \<Rightarrow> bool" where
  "reads_back ind sp v \<longleftrightarrow>
     (\<forall>d n w r. spaces w \<and> stops r \<and> length (render ind sp d v) \<le> n \<longrightarrow>
        read_value n (w @ render ind sp d v @ r) = Some (v, r))"

lemma reads_backD:
  "reads_back ind sp v \<Longrightarrow> spaces w \<Longrightarrow> stops r \<Longrightarrow> length (render ind sp d v) \<le> n \<Longrightarrow>
     read_value n (w @ render ind sp d v @ r) = Some (v, r)"
  by (simp add: reads_back_def)

lemma Join_Cons: "xs \<noteq> [] \<Longrightarrow> Join (x # xs) sep = x @ sep @ Join xs sep"
  by (cases xs) simp_all

lemma stops_punctuation [simp]: "stops (CHR '','' # s)" "stops (CHR '']'' # s)" "stops (CHR ''}'' # s)"
  by (simp_all add: stops_def is_digit_def)

lemma not_space [simp]:
  "\<not> is_json_space CHR '',''" "\<not> is_json_space CHR '']''" "\<not> is_json_space CHR ''}''" "\<not> is_json_space CHR '':''"
  "\<not> is_json_space CHR 0x22" "\<not> is_json_space CHR ''[''" "\<not> is_json_space CHR ''{''"
  by (simp_all add: is_json_space_def)

lemma read_items_Join:
  assumes "xs \<noteq> []" and "\<forall>x \<in> set xs. reads_back ind sp x" and ind: "\<And>d. spaces (ind d)"
    and "length (Join (map (\<lambda>v. ind (Suc d) @ render ind sp (Suc d) v) xs) '','' @ ind d @ '']'') \<le> n"
  shows "read_items n ((Join (map (\<lambda>v. ind (Suc d) @ render ind sp (Suc d) v) xs) '','' @ ind d @ '']'') @ r) = Some (xs, r)"
  using assms(1,2,4)
proof (induction xs arbitrary: n rule: list_nonempty_induct)
  case (single x)
  then obtain m where n: "n = Suc m" "length (render ind sp (Suc d) x) \<le> m" by (cases n) auto
  from single have "read_value m (ind (Suc d) @ render ind sp (Suc d) x @ ind d @ '']'' @ r) = Some (x, ind d @ '']'' @ r)"
    by (intro reads_backD n(2)) (auto simp: ind space_stops)
  then show ?case by (simp add: n(1) ind)
next
  case (cons x xs)
  then obtain m where n: "n = Suc m" "length (render ind sp (Suc d) x) \<le> m"
    "length (Join (map (\<lambda>v. ind (Suc d) @ render ind sp (Suc d) v) xs) '','' @ ind d @ '']'') \<le> m"
    by (cases n) (auto simp: Join_Cons)
  let ?rest = "Join (map (\<lambda>v. ind (Suc d) @ render ind sp (Suc d) v) xs) '','' @ ind d @ '']'' @ r"
  from cons.prems have "read_value m (ind (Suc d) @ render ind sp (Suc d) x @ '','' @ ?rest) = Some (x, '','' @ ?rest)"
    by (intro reads_backD n(2)) (auto simp: ind)
  with cons.IH [OF _ n(3)] cons.prems cons.hyps show ?case by (simp add: n(1) Join_Cons)
qed

lemma read_members_Join:
  assumes "kvs \<noteq> []" and "\<forall>(k, v) \<in> set kvs. reads_back ind sp v" and ind: "\<And>d. spaces (ind d)" and sp: "spaces sp"
    and "length (Join (map (\<lambda>(k, v). ind (Suc d) @ json_string k @ '':'' @ sp @ render ind sp (Suc d) v) kvs) '',''
            @ ind d @ ''}'') \<le> n"
  shows "read_members n ((Join (map (\<lambda>(k, v). ind (Suc d) @ json_string k @ '':'' @ sp @ render ind sp (Suc d) v) kvs) '',''
            @ ind d @ ''}'') @ r) = Some (kvs, r)"
  using assms(1,2,5)
proof (induction kvs arbitrary: n rule: list_nonempty_induct)
  case (single kv)
  obtain k v where kv: "kv = (k, v)" by force
  with single obtain m where n: "n = Suc m" "length (render ind sp (Suc d) v) \<le> m" by (cases n) auto
  from single kv have "read_value m (sp @ render ind sp (Suc d) v @ ind d @ ''}'' @ r) = Some (v, ind d @ ''}'' @ r)"
    by (intro reads_backD n(2)) (auto simp: ind sp space_stops)
  then show ?case by (simp add: n(1) kv ind json_string_def read_json_chars)
next
  case (cons kv kvs)
  obtain k v where kv: "kv = (k, v)" by force
  let ?text = "Join (map (\<lambda>(k, v). ind (Suc d) @ json_string k @ '':'' @ sp @ render ind sp (Suc d) v) kvs) '',''"
  from cons.prems cons.hyps kv obtain m where n: "n = Suc m" "length (render ind sp (Suc d) v) \<le> m"
    "length (?text @ ind d @ ''}'') \<le> m"
    by (cases n) (auto simp: Join_Cons)
  let ?rest = "?text @ ind d @ ''}'' @ r"
  from cons.prems kv have "read_value m (sp @ render ind sp (Suc d) v @ '','' @ ?rest) = Some (v, '','' @ ?rest)"
    by (intro reads_backD n(2)) (auto simp: sp)
  with cons.IH [OF _ n(3)] cons.prems cons.hyps kv show ?case
    by (simp add: n(1) ind Join_Cons json_string_def read_json_chars)
qed

lemma read_value_itoa:
  assumes "spaces w" "stops r"
  shows "read_value (Suc n) (w @ itoa i @ r) = Some (JInt i, r)"
proof -
  obtain c s where "itoa i = c # s" "is_digit c \<or> c = CHR ''-''" by (rule itoa_head)
  moreover from this(2) have "\<not> is_json_space c" "c \<notin> {CHR 0x22, CHR ''['', CHR ''{'', CHR ''t'', CHR ''f''}"
    by (auto simp: is_json_space_def is_digit_def)
  ultimately show ?thesis using read_int_itoa [OF assms(2), of i] assms(1) by auto
qed

lemma items_head:
  assumes "xs \<noteq> []" and "\<And>d. spaces (ind d)"
  shows "\<not> prefix '']'' (skip_space (Join (map (\<lambda>v. ind (Suc d) @ render ind sp (Suc d) v) xs) '','' @ s))"
  using assms render_head [of ind sp "Suc d" "hd xs"] by (cases xs; cases "tl xs") auto

lemma members_head:
  assumes "kvs \<noteq> []" and "\<And>d. spaces (ind d)"
  shows "\<not> prefix ''}'' (skip_space
           (Join (map (\<lambda>(k, v). ind (Suc d) @ json_string k @ '':'' @ sp @ render ind sp (Suc d) v) kvs) '','' @ s))"
  using assms by (cases kvs; cases "tl kvs") (auto simp: json_string_def)

lemma reads_backI:
  assumes "\<And>d m w r. spaces w \<Longrightarrow> stops r \<Longrightarrow> length (render ind sp d v) \<le> Suc m \<Longrightarrow>
     read_value (Suc m) (w @ render ind sp d v @ r) = Some (v, r)"
  shows "reads_back ind sp v"
proof -
  have "\<exists>m. n = Suc m" if "length (render ind sp d v) \<le> n" for d n
    using render_head [of ind sp d v] that by (cases n) auto
  with assms show ?thesis unfolding reads_back_def by (metis (no_types))
qed

lemma render_reads_back:
  assumes ind: "\<And>d. spaces (ind d)" and sp: "spaces sp"
  shows "reads_back ind sp v"
proof (induction v)
  case (JString s)
  show ?case by (rule reads_backI) (simp add: json_string_def read_json_chars)
next
  case (JInt i)
  show ?case by (rule reads_backI) (simp add: read_value_itoa del: read_value.simps)
next
  case (JBool b)
  show ?case by (rule reads_backI) (cases b, simp_all add: is_json_space_def)
next
  case (JArray xs)
  show ?case
  proof (cases "xs = []")
    case False
    then show ?thesis
      using read_items_Join [where ind = ind and sp = sp, OF False _ ind] items_head [where ind = ind, OF False ind] JArray
      by (intro reads_backI) simp
  qed (rule reads_backI, simp)
next
  case (JObject kvs)
  then have vs: "\<forall>(k, v) \<in> set kvs. reads_back ind sp v" by (auto simp: snds.simps)
  show ?case
  proof (cases "kvs = []")
    case False
    then show ?thesis
      using read_members_Join [OF False vs ind sp] members_head [where ind = ind, OF False ind]
      by (intro reads_backI) simp
  qed (rule reads_backI, simp)
qed

lemma read_json_render:
  assumes "\<And>d. spaces (ind d)" and "spaces sp" and "spaces w"
  shows "read_json (render ind sp d v @ w) = Some v"
proof -
  have "stops w" using assms(3) space_stops [of w "[]"] by (simp add: stops_def)
  then have "read_value (length (render ind sp d v @ w)) ([] @ render ind sp d v @ w) = Some (v, w)"
    by (intro reads_backD [OF render_reads_back [OF assms(1,2)]]) simp_all
  then show ?thesis using assms(3) skip_spaces [of w "[]"] by (simp add: read_json_def del: skip_spaces)
qed

text \<open>What the two encoders write is read back as the value, with or without a line end after it.\<close>

lemma read_Marshal: "spaces w \<Longrightarrow> read_json (Marshal v @ w) = Some v"
  using read_json_render [of "\<lambda>d. []" "[]" w 0 v] by (simp add: render_Marshal)

lemma read_MarshalIndent: "read_json (MarshalIndent v) = Some v"
  using read_json_render [of indent "'' ''" "[]" 0 v]
  by (simp add: render_marshal_indent MarshalIndent_def spaces_indent) (simp add: is_json_space_def)

end
