(* ===== verification/Builders_Read.thy ===== *)
theory Builders_Read
  imports Builders_Set Go_Json_Read
begin

text \<open>
  The documents inside the objects, as those who read them see them: Grafana loads the dashboard from the
  text of a ConfigMap, and AWS reads the policies of a role from two strings.
\<close>

section \<open>The dashboard\<close>

text \<open>The struct tags lose nothing: two models with the same JSON are the same.\<close>

lemma json_of_inject:
  "json_of_time t = json_of_time t' \<longleftrightarrow> t = t'"
  "json_of_gridPos g = json_of_gridPos g' \<longleftrightarrow> g = g'"
  "json_of_datasource d = json_of_datasource d' \<longleftrightarrow> d = d'"
  "json_of_fieldConfig c = json_of_fieldConfig c' \<longleftrightarrow> c = c'"
  by (auto simp: json_of_time_def json_of_gridPos_def json_of_datasource_def json_of_fieldConfig_def
      intro!: grafanaTime.equality grafanaGridPos.equality grafanaDatasource.equality grafanaFieldConfig.equality
        grafanaFieldDefaults.equality)

lemma inj_json_of_target: "inj json_of_target"
  by (rule injI, rule grafanaTarget.equality) (simp_all add: json_of_target_def json_of_inject)

lemma inj_json_of_panel: "inj json_of_panel"
  by (rule injI, rule grafanaPanel.equality)
    (simp_all add: json_of_panel_def json_of_inject inj_map_eq_map [OF inj_json_of_target])

lemma inj_JString: "inj JString"
  by (simp add: inj_def)

lemma inj_json_of_dashboard: "inj json_of_dashboard"
  by (rule injI, rule grafanaDashboard.equality)
    (simp_all add: json_of_dashboard_def json_of_inject inj_map_eq_map [OF inj_json_of_panel] inj_map_eq_map [OF inj_JString])

lemma BuildDashboard_data:
  assumes "BuildDashboard sc = Inr ob"
  obtains model where "dashboardModel sc = Inr model"
    "o_Spec ob = Data_of [sc_Name sc @ ''.json'' \<mapsto> MarshalIndent (json_of_dashboard model)]"
  using assms by (auto simp: BuildDashboard_def result_iff)

text \<open>
  C39: Grafana sees the dashboard that was meant. The text in the ConfigMap, whatever characters the claim
  holds, reads back as the JSON of the model, and of no other model.
\<close>

theorem dashboard_reads_back:
  assumes "BuildDashboard sc = Inr ob"
  shows "\<exists>model text. dashboardModel sc = Inr model \<and> o_Spec ob = Data_of [sc_Name sc @ ''.json'' \<mapsto> text] \<and>
           (\<forall>model'. read_json text = Some (json_of_dashboard model') \<longleftrightarrow> model' = model)"
proof (rule BuildDashboard_data [OF assms])
  fix model
  assume m: "dashboardModel sc = Inr model"
    "o_Spec ob = Data_of [sc_Name sc @ ''.json'' \<mapsto> MarshalIndent (json_of_dashboard model)]"
  have "read_json (MarshalIndent (json_of_dashboard model)) = Some (json_of_dashboard model') \<longleftrightarrow> model' = model" for model'
    using inj_eq [OF inj_json_of_dashboard] by (auto simp: read_MarshalIndent)
  with m show ?thesis by blast
qed

text \<open>What Grafana asks of a dashboard: panels and queries that can be told apart, and panels that fit its grid.\<close>

definition overlaps :: "grafanaGridPos \<Rightarrow> grafanaGridPos \<Rightarrow> bool" where
  "overlaps p q \<longleftrightarrow> gp_X p < gp_X q + gp_W q \<and> gp_X q < gp_X p + gp_W p \<and> gp_Y p < gp_Y q + gp_H q \<and> gp_Y q < gp_Y p + gp_H p"

definition fits_grid :: "grafanaGridPos \<Rightarrow> bool" where
  "fits_grid p \<longleftrightarrow> 0 \<le> gp_X p \<and> 0 < gp_W p \<and> gp_X p + gp_W p \<le> 24 \<and> 0 \<le> gp_Y p \<and> 0 < gp_H p"

fun disjoint_panels :: "grafanaGridPos list \<Rightarrow> bool" where
  "disjoint_panels [] = True"
| "disjoint_panels (p # ps) = (list_all (\<lambda>q. \<not> overlaps p q) ps \<and> disjoint_panels ps)"

definition grafana_accepts :: "grafanaDashboard \<Rightarrow> bool" where
  "grafana_accepts d \<longleftrightarrow>
     length (ga_UID d) \<le> 40 \<and> distinct (map gl_ID (ga_Panels d)) \<and>
     list_all (\<lambda>p. fits_grid (gl_GridPos p) \<and> gl_Targets p \<noteq> [] \<and> distinct (map gg_RefID (gl_Targets p))) (ga_Panels d) \<and>
     disjoint_panels (map gl_GridPos (ga_Panels d))"

lemma latencyTargets_refs:
  "latencyTargets sc = Inr ts \<Longrightarrow> ts \<noteq> [] \<and> distinct (map gg_RefID ts)"
  by (auto simp: latencyTargets_def target_def Let_def result_iff split: if_splits)

text \<open>
  C40: every dashboard is well formed: its UID is within Grafana's 40 characters however long the names are,
  its panels are told apart, fit 24 columns and do not overlap, and the queries of a panel are told apart.
\<close>

theorem dashboard_wellformed:
  assumes "dashboardModel sc = Inr model"
  shows "grafana_accepts model"
proof -
  obtain latency where l: "latencyTargets sc = Inr latency"
    using assms by (auto simp: dashboardModel_def Let_def result_iff)
  show ?thesis
    using assms latencyTargets_refs [OF l] l DashboardUID_length [of sc]
    by (auto simp: grafana_accepts_def dashboardModel_def Let_def result_iff panel_def target_def gridPos_def
        overlaps_def fits_grid_def)
qed

lemma example_dashboard:
  obtains ob model where "BuildDashboard example_claim = Inr ob" "dashboardModel example_claim = Inr model"
proof -
  obtain obs where "Build example_claim None = Inr obs" using example_Build unfolding succeeds_iff by blast
  then obtain ob where b: "BuildDashboard example_claim = Inr ob" by (rule Build_Inr)
  then obtain model where "dashboardModel example_claim = Inr model" by (rule BuildDashboard_data)
  with b show thesis by (rule that)
qed

theorem dashboard_reads_back_witness:
  "\<exists>ob model text. BuildDashboard example_claim = Inr ob \<and> o_Spec ob = Data_of [''shortlink.json'' \<mapsto> text] \<and>
     read_json text = Some (json_of_dashboard model)"
proof -
  obtain ob model where ob: "BuildDashboard example_claim = Inr ob" "dashboardModel example_claim = Inr model"
    by (rule example_dashboard)
  have "sc_Name example_claim @ ''.json'' = ''shortlink.json''" by (simp add: example_claim_def)
  with dashboard_reads_back [OF ob(1)] ob show ?thesis by auto
qed

theorem dashboard_wellformed_witness:
  "\<exists>model. dashboardModel example_claim = Inr model \<and> grafana_accepts model"
proof -
  obtain ob model where "BuildDashboard example_claim = Inr ob" "dashboardModel example_claim = Inr model"
    by (rule example_dashboard)
  with dashboard_wellformed [of example_claim model] show ?thesis by blast
qed

section \<open>The policies of a role\<close>

definition json_field :: "string \<Rightarrow> json \<Rightarrow> json option" where
  "json_field key j = (case j of JObject kvs \<Rightarrow> map_of kvs key | _ \<Rightarrow> None)"

fun read_field :: "json option \<Rightarrow> json option" where
  "read_field (Some (JString s)) = read_json s"
| "read_field _ = None"

text \<open>The two policies, read from the strings in the spec of the Role, are the documents they were made of.\<close>

lemma role_policies_read_back:
  "\<exists>spec. o_Spec (BuildStorageRole sc storage) = Unstructured_of spec \<and>
     read_field (json_field ''assumeRolePolicyDocument'' spec) = Some (policyDocument (trust_statements sc storage)) \<and>
     read_field (Option.bind (json_field ''inlinePolicies'' spec) (json_field storagePolicyName)) =
       Some (policyDocument (access_statements sc storage))"
  using read_Marshal [of "[]"] by (simp add: BuildStorageRole_def newStorageObject_def json_field_def Let_def)

end
