(* ===== verification/Slo_Prometheus.thy ===== *)
theory Slo_Prometheus
  imports Go_Strconv Go_Time
begin

text \<open>
  \<open>internal/slo/prometheus.go\<close>: the client and what \<open>QueryValue\<close> makes of Prometheus' answer. The HTTP
  API is a parameter: a function from the time a query may take and the query to the value and warnings
  it returns, or to its error. The code tells a vector from other values and reads the samples'
  numbers only.
\<close>

section \<open>Definitions\<close>

datatype prom_value =
    Vector "float64 list"
  | OtherValue string

type_synonym prom_answer = "(prom_value \<times> string list) result"

text \<open>\<open>%v\<close> of a slice of strings.\<close>

definition format_slice :: "string list \<Rightarrow> string" where
  "format_slice ws = ''['' @ Join ws '' '' @ '']''"

definition ErrNoData :: error where
  "ErrNoData = NoData ''no data''"

definition DefaultPrometheusURL :: string where
  "DefaultPrometheusURL = ''http://kps-kube-prometheus-stack-prometheus.monitoring.svc:9090''"

definition QueryTimeout :: int where "QueryTimeout = 5 * Second"

record PrometheusClient =
  pc_api :: "int \<Rightarrow> string \<Rightarrow> prom_answer"
  pc_timeout :: int

text \<open>\<open>promapi.NewClient\<close> for an address, with the timeout of its HTTP client, is an argument.\<close>

definition newPrometheusClient ::
  "(string \<Rightarrow> int \<Rightarrow> (int \<Rightarrow> string \<Rightarrow> prom_answer) result) \<Rightarrow> string \<Rightarrow> int \<Rightarrow> PrometheusClient result" where
  "newPrometheusClient new_client address timeout =
     (case new_client address timeout of
        Inl e \<Rightarrow> Inl (wrap_error (''creating Prometheus client for '' @ quote address @ '': '') e [])
      | Inr api \<Rightarrow> Inr \<lparr>pc_api = api, pc_timeout = timeout\<rparr>)"

definition NewPrometheusClient ::
  "(string \<Rightarrow> int \<Rightarrow> (int \<Rightarrow> string \<Rightarrow> prom_answer) result) \<Rightarrow> string \<Rightarrow> PrometheusClient result" where
  "NewPrometheusClient new_client address = newPrometheusClient new_client address QueryTimeout"

definition QueryValue :: "PrometheusClient \<Rightarrow> string \<Rightarrow> float64 result" where
  "QueryValue c query =
     (case pc_api c (pc_timeout c) query of
        Inl e \<Rightarrow> Inl (wrap_error ''querying Prometheus: '' e [])
      | Inr (OtherValue type, warnings) \<Rightarrow>
          Inl (Errorf (''query returned a '' @ type @ '', want a vector''))
      | Inr (Vector vector, warnings) \<Rightarrow>
          (case vector of
             [] \<Rightarrow>
               if warnings \<noteq> []
               then Inl (wrap_error [] ErrNoData ('' (Prometheus warned: '' @ format_slice warnings @ '')''))
               else Inl ErrNoData
           | [value] \<Rightarrow> if value = NaN then Inl ErrNoData else Inr value
           | _ \<Rightarrow> Inl (Errorf (''query returned '' @ itoa (int (length vector)) @ '' series, want 1''))))"

lemma NewPrometheusClient_timeout: "NewPrometheusClient new_client address = Inr c \<Longrightarrow> pc_timeout c = QueryTimeout"
  by (auto simp: NewPrometheusClient_def newPrometheusClient_def split: sum.splits)

section \<open>The Querier interface\<close>

text \<open>
  What clients of \<open>Querier\<close> rely on: a value is a number, possibly infinite, so that it compares
  with every other number.
\<close>

locale querier =
  fixes query_value :: "string \<Rightarrow> float64 result"
  assumes value_is_number: "query_value q = Inr v \<Longrightarrow> v \<noteq> NaN"
begin

lemma value_ordered: "query_value q = Inr v \<Longrightarrow> f_less v w \<or> w = NaN \<or> f_le w v"
  using value_is_number by (cases v; cases w) auto

end

lemma QueryValue_Inr_iff:
  "QueryValue c query = Inr v \<longleftrightarrow>
     (\<exists>ws. pc_api c (pc_timeout c) query = Inr (Vector [v], ws)) \<and> v \<noteq> NaN"
  by (auto simp: QueryValue_def split: sum.splits prod.splits prom_value.splits list.splits)

interpretation prom: querier "QueryValue c" for c
  by unfold_locales (simp add: QueryValue_Inr_iff)

text \<open>
  QueryValue returns a number exactly when Prometheus answers with one sample that is not NaN,
  and reports missing data exactly when it answers with no sample or with a single NaN. Any other
  answer is a different error, as long as the API's own errors do not wrap ErrNoData.
\<close>

lemma QueryValue_spec:
  assumes "\<And>e. pc_api c (pc_timeout c) query = Inl e \<Longrightarrow> \<not> is_no_data e"
  shows "(QueryValue c query = Inr v \<longleftrightarrow>
            (\<exists>ws. pc_api c (pc_timeout c) query = Inr (Vector [v], ws)) \<and> v \<noteq> NaN) \<and>
         ((\<exists>e. QueryValue c query = Inl e \<and> is_no_data e) \<longleftrightarrow>
            (\<exists>ws. pc_api c (pc_timeout c) query = Inr (Vector [], ws) \<or> pc_api c (pc_timeout c) query = Inr (Vector [NaN], ws)))"
proof
  show "(\<exists>e. QueryValue c query = Inl e \<and> is_no_data e) \<longleftrightarrow>
            (\<exists>ws. pc_api c (pc_timeout c) query = Inr (Vector [], ws) \<or> pc_api c (pc_timeout c) query = Inr (Vector [NaN], ws))"
    using assms
    by (auto simp: QueryValue_def ErrNoData_def split: sum.splits prod.splits prom_value.splits list.splits if_splits)
qed (rule QueryValue_Inr_iff)

definition example_client :: "prom_value \<Rightarrow> string list \<Rightarrow> PrometheusClient" where
  "example_client v ws = \<lparr>pc_api = (\<lambda>timeout q. Inr (v, ws)), pc_timeout = QueryTimeout\<rparr>"

end
