(* ===== verification/Apimachinery.thy ===== *)
theory Apimachinery
  imports Api_Types
begin

text \<open>
  The functions of \<open>k8s.io/apimachinery/pkg/api/meta\<close> on condition lists. They are not part of
  the repository, so the definitions that call them take them as an argument, a record of
  functions, and the theorems that need more than their types assume the documented laws of this
  locale: a condition set is the one found under its type, the others are untouched, and a condition
  is true when it is found with status True.
\<close>

text \<open>An Event on a claim, by the claim's namespace and name.\<close>

record k8s_event =
  ev_Regarding :: "string \<times> string"
  ev_Type :: string
  ev_Reason :: string
  ev_Action :: string
  ev_Note :: string

text \<open>Package \<open>meta\<close>.\<close>

record meta_api =
  FindStatusCondition :: "condition list \<Rightarrow> string \<Rightarrow> condition option"
  IsStatusConditionTrue :: "condition list \<Rightarrow> string \<Rightarrow> bool"
  SetStatusCondition :: "condition list \<Rightarrow> condition \<Rightarrow> condition list"

locale status_conditions =
  fixes meta :: meta_api
  assumes find_set_same: "FindStatusCondition meta (SetStatusCondition meta cs c) (cond_Type c) = Some c"
    and find_set_other: "t \<noteq> cond_Type c \<Longrightarrow> FindStatusCondition meta (SetStatusCondition meta cs c) t = FindStatusCondition meta cs t"
    and is_true_iff: "IsStatusConditionTrue meta cs t \<longleftrightarrow>
          (\<exists>c. FindStatusCondition meta cs t = Some c \<and> cond_Status c = ConditionTrue)"
begin

lemma find_set: "FindStatusCondition meta (SetStatusCondition meta cs c) t =
    (if t = cond_Type c then Some c else FindStatusCondition meta cs t)"
  by (simp add: find_set_same find_set_other)

text \<open>Setting conditions one after another: the last one of a type is found.\<close>

lemma find_set_all: "FindStatusCondition meta (foldl (SetStatusCondition meta) cs new) t =
    (case find (\<lambda>c. cond_Type c = t) (rev new) of Some c \<Rightarrow> Some c | None \<Rightarrow> FindStatusCondition meta cs t)"
  by (induction new rule: rev_induct) (auto simp: find_set split: option.splits)

lemma find_set_all_other:
  "\<forall>c \<in> set new. cond_Type c \<noteq> t \<Longrightarrow>
     FindStatusCondition meta (foldl (SetStatusCondition meta) cs new) t = FindStatusCondition meta cs t"
  by (induction new rule: rev_induct) (auto simp: find_set)

lemma find_set_all_distinct:
  assumes "distinct (map cond_Type new)" "c \<in> set new"
  shows "FindStatusCondition meta (foldl (SetStatusCondition meta) cs new) (cond_Type c) = Some c"
  using assms
  by (induction new rule: rev_induct) (auto simp: find_set image_iff)

end

section \<open>The functions as documented\<close>

definition find_condition :: "condition list \<Rightarrow> string \<Rightarrow> condition option" where
  "find_condition cs t = find (\<lambda>c. cond_Type c = t) cs"

fun set_condition :: "condition list \<Rightarrow> condition \<Rightarrow> condition list" where
  "set_condition [] c = [c]"
| "set_condition (d # cs) c = (if cond_Type d = cond_Type c then c # cs else d # set_condition cs c)"

definition apimachinery :: meta_api where
  "apimachinery =
     \<lparr>FindStatusCondition = find_condition,
      IsStatusConditionTrue = (\<lambda>cs t. case find_condition cs t of None \<Rightarrow> False | Some c \<Rightarrow> cond_Status c = ConditionTrue),
      SetStatusCondition = set_condition\<rparr>"

lemma find_set_condition:
  "find_condition (set_condition cs c) t = (if t = cond_Type c then Some c else find_condition cs t)"
  by (induction cs c rule: set_condition.induct) (auto simp: find_condition_def)

interpretation am: status_conditions apimachinery
  by unfold_locales (auto simp: apimachinery_def find_set_condition split: option.splits)

end
