(* ===== verification/Ctl_Slo.thy ===== *)
theory Ctl_Slo
  imports Builders_Core Slo_Prometheus Apimachinery
begin

text \<open>
  \<open>internal/controller/slo_status.go\<close> and \<open>freeze.go\<close>: what one reconcile learns about a claim's SLO
  and how it decides the conditions SLOHealthy, DeploysFrozen and Ready. All of it is a function of
  the claim, the two answers of Prometheus and the Rollout's status.
\<close>

section \<open>slo_status.go\<close>

definition ReasonWithinBudget :: string where "ReasonWithinBudget = ''WithinBudget''"
definition ReasonBudgetExhausted :: string where "ReasonBudgetExhausted = ''BudgetExhausted''"
definition ReasonFastBurn :: string where "ReasonFastBurn = ''FastBurn''"
definition ReasonNoTraffic :: string where "ReasonNoTraffic = ''NoTraffic''"
definition ReasonPrometheusUnavailable :: string where "ReasonPrometheusUnavailable = ''PrometheusUnavailable''"
definition ReasonUnusableData :: string where "ReasonUnusableData = ''UnusableData''"
definition ReasonInvalidSpec :: string where "ReasonInvalidSpec = ''InvalidSpec''"
definition sloRefreshInterval :: int where "sloRefreshInterval = Minute"
definition burnRateWindow :: string where "burnRateWindow = ''1h''"

record sloReport =
  rep_condition :: condition
  rep_measured :: bool
  rep_remaining :: float64
  rep_budgetRemaining :: string
  rep_burnRate1h :: string

text \<open>A condition of a claim's current generation, and a report that says nothing but the condition.\<close>

definition claim_condition :: "ServiceClaim \<Rightarrow> string \<Rightarrow> condition_status \<Rightarrow> string \<Rightarrow> string \<Rightarrow> condition" where
  "claim_condition claim type status reason message =
     \<lparr>cond_Type = type, cond_Status = status, cond_ObservedGeneration = sc_Generation claim,
      cond_Reason = reason, cond_Message = message\<rparr>"

definition unmeasured :: "condition \<Rightarrow> sloReport" where
  "unmeasured c =
     \<lparr>rep_condition = c, rep_measured = False, rep_remaining = Fin 0, rep_budgetRemaining = [], rep_burnRate1h = []\<rparr>"

text \<open>The last part of \<open>evaluateSLO\<close>: the verdict once the budget is measured. \<open>hour\<close> is the burn rate
  over the last hour, \<open>None\<close> without data.\<close>

definition slo_verdict :: "ServiceClaim \<Rightarrow> BudgetUse \<Rightarrow> float64 option \<Rightarrow> float64 \<Rightarrow> sloReport" where
  "slo_verdict claim use hour fastBurn =
     (let window = slo_Window (sc_SLO claim);
          budgetRemaining = FormatPercent (Remaining use);
          burnRate1h = (case hour of None \<Rightarrow> [] | Some rate \<Rightarrow> FormatBurnRate rate);
          report = (\<lambda>status reason message.
            \<lparr>rep_condition = claim_condition claim ConditionSLOHealthy status reason message, rep_measured = True,
             rep_remaining = Remaining use, rep_budgetRemaining = budgetRemaining, rep_burnRate1h = burnRate1h\<rparr>)
      in if f_le (Remaining use) (Fin 0) then
           report ConditionFalse ReasonBudgetExhausted
             (''The '' @ window @ '' error budget is used up: '' @ format_fixed 2 (Consumed use) @ ''x of it spent'')
         else case hour of
           Some burnRate \<Rightarrow>
             if f_le fastBurn burnRate then
               report ConditionFalse ReasonFastBurn
                 (''The last hour burned the error budget at '' @ burnRate1h @ ''x, at or above the ''
                    @ format_g fastBurn @ ''x page threshold'')
             else
               report ConditionTrue ReasonWithinBudget
                 (budgetRemaining @ '' of the '' @ window @ '' error budget left; 1h burn rate '' @ burnRate1h @ ''x'')
         | None \<Rightarrow>
             report ConditionTrue ReasonWithinBudget
               (budgetRemaining @ '' of the '' @ window @ '' error budget left; no requests in the last hour''))"

definition hourQuery :: "ServiceClaim \<Rightarrow> string" where
  "hourQuery claim =
     RecordName (sli_Type (sc_SLI claim)) burnRateWindow @ ''{'' @ LabelService @ ''='' @ quote (sc_Name claim) @ ''}''"

text \<open>\<open>prometheus\<close> is the querier, \<open>None\<close> when there is none.\<close>

definition evaluateSLO :: "(string \<Rightarrow> float64 result) option \<Rightarrow> ServiceClaim \<Rightarrow> sloReport" where
  "evaluateSLO prometheus claim =
     (let unknown = (\<lambda>reason message.
            unmeasured (claim_condition claim ConditionSLOHealthy ConditionUnknown reason message));
          window = slo_Window (sc_SLO claim)
      in case prometheus of
           None \<Rightarrow> unknown ReasonPrometheusUnavailable ''No Prometheus client is configured''
         | Some query_value \<Rightarrow>
         (case ErrorBudget (slo_Objective (sc_SLO claim)) of
           Inl e \<Rightarrow> unknown ReasonInvalidSpec (error_text e)
         | Inr budget \<Rightarrow>
         (case Rate (hd burnRateAlerts) of
           Inl e \<Rightarrow> unknown ReasonInvalidSpec (error_text e)
         | Inr fastBurn \<Rightarrow>
         (case ErrorRatioExpr (sc_SLI claim) (NamespaceName claim) window of
           Inl e \<Rightarrow> unknown ReasonInvalidSpec (error_text e)
         | Inr windowQuery \<Rightarrow>
           let windowAnswer = query_value windowQuery
           in if isl windowAnswer \<and> \<not> is_no_data (projl windowAnswer) then
                unknown ReasonPrometheusUnavailable
                  (''Could not read the '' @ window @ '' error ratio: '' @ error_text (projl windowAnswer))
              else
           let hourAnswer = query_value (hourQuery claim)
           in if isl hourAnswer \<and> \<not> is_no_data (projl hourAnswer) then
                unknown ReasonPrometheusUnavailable
                  (''Could not read the '' @ burnRateWindow @ '' burn rate: '' @ error_text (projl hourAnswer))
              else case windowAnswer of
                Inl _ \<Rightarrow>
                  unknown ReasonNoTraffic
                    (''No requests in the last '' @ window @ '', so there is no error ratio to measure'')
              | Inr windowRatio \<Rightarrow>
              (case SpendBudget windowRatio (Some budget) of
                Inl e \<Rightarrow> unknown ReasonUnusableData (error_text e)
              | Inr use \<Rightarrow>
              (case hourAnswer of
                Inl _ \<Rightarrow> slo_verdict claim use None fastBurn
              | Inr hourRatio \<Rightarrow>
              (case BurnRate hourRatio (Some budget) of
                Inl e \<Rightarrow>
                  \<lparr>rep_condition = claim_condition claim ConditionSLOHealthy ConditionUnknown ReasonUnusableData (error_text e),
                   rep_measured = True, rep_remaining = Remaining use,
                   rep_budgetRemaining = FormatPercent (Remaining use), rep_burnRate1h = []\<rparr>
              | Inr burnRate \<Rightarrow> slo_verdict claim use (Some burnRate) fastBurn)))))))"

section \<open>freeze.go\<close>

definition ReasonBudgetRecovering :: string where "ReasonBudgetRecovering = ''BudgetRecovering''"
definition ReasonBudgetUnknown :: string where "ReasonBudgetUnknown = ''BudgetUnknown''"
definition ReasonRolloutHealthy :: string where "ReasonRolloutHealthy = ''RolloutHealthy''"
definition ReasonRolloutProgressing :: string where "ReasonRolloutProgressing = ''RolloutProgressing''"
definition ReasonRolloutDegraded :: string where "ReasonRolloutDegraded = ''RolloutDegraded''"
definition ReasonRolloutNotFound :: string where "ReasonRolloutNotFound = ''RolloutNotFound''"
definition ReasonRolloutUnreadable :: string where "ReasonRolloutUnreadable = ''RolloutUnreadable''"

text \<open>The constant 0.05 as a \<open>float64\<close>.\<close>

definition UnfreezeBudget :: float64 where
  "UnfreezeBudget = round64 (1 / 20)"

definition was_frozen :: "meta_api \<Rightarrow> ServiceClaim \<Rightarrow> bool" where
  "was_frozen meta claim \<longleftrightarrow>
     (case FindStatusCondition meta (status_Conditions (sc_Status claim)) ConditionDeploysFrozen of
        None \<Rightarrow> False | Some previous \<Rightarrow> cond_Status previous = ConditionTrue)"

definition freezeCondition :: "meta_api \<Rightarrow> ServiceClaim \<Rightarrow> sloReport \<Rightarrow> condition" where
  "freezeCondition meta claim report =
     (let window = slo_Window (sc_SLO claim); wasFrozen = was_frozen meta claim;
          unfreezeAt = FormatPercent UnfreezeBudget;
          condition = claim_condition claim ConditionDeploysFrozen
      in if \<not> rep_measured report \<and> wasFrozen then
           condition ConditionTrue ReasonBudgetUnknown
             (''The error budget can't be measured ('' @ cond_Reason (rep_condition report)
                @ ''), so deploys stay frozen until it can'')
         else if \<not> rep_measured report then
           condition ConditionFalse ReasonBudgetUnknown
             (''The error budget can't be measured ('' @ cond_Reason (rep_condition report) @ ''); deploys are not frozen'')
         else if f_le (rep_remaining report) (Fin 0) then
           condition ConditionTrue ReasonBudgetExhausted
             (''No '' @ window @ '' error budget left; image changes are rejected until '' @ unfreezeAt @ '' of it is back'')
         else if wasFrozen \<and> f_less (rep_remaining report) UnfreezeBudget then
           condition ConditionTrue ReasonBudgetRecovering
             (rep_budgetRemaining report @ '' of the '' @ window @ '' error budget is back; image changes stay frozen until ''
                @ unfreezeAt)
         else
           condition ConditionFalse ReasonWithinBudget
             (rep_budgetRemaining report @ '' of the '' @ window @ '' error budget left''))"

text \<open>What the code reads of an Argo Rollout.\<close>

record Rollout =
  ro_Generation :: int
  ro_ObservedGeneration :: string
  ro_Phase :: string
  ro_Message :: string

definition rolloutPhaseMessage :: "Rollout \<Rightarrow> string" where
  "rolloutPhaseMessage rollout =
     (let phase = (if ro_Phase rollout = [] then ''not reporting a phase yet'' else ro_Phase rollout)
      in if ro_Message rollout = [] then ''The Rollout is '' @ phase
         else ''The Rollout is '' @ phase @ '': '' @ ro_Message rollout)"

text \<open>The cases of \<open>readyCondition\<close> that look at the Rollout.\<close>

definition ready_of_rollout ::
  "(condition_status \<Rightarrow> string \<Rightarrow> string \<Rightarrow> condition) \<Rightarrow> Rollout \<Rightarrow> error option \<Rightarrow> condition" where
  "ready_of_rollout condition rollout getErr =
     (case getErr of
        Some e \<Rightarrow>
          if is_not_found e then condition ConditionFalse ReasonRolloutNotFound ''The Rollout does not exist yet''
          else condition ConditionUnknown ReasonRolloutUnreadable (error_text e)
      | None \<Rightarrow>
          if ro_ObservedGeneration rollout \<noteq> itoa (ro_Generation rollout) then
            condition ConditionFalse ReasonRolloutProgressing
              (''Argo Rollouts has not yet observed generation '' @ itoa (ro_Generation rollout) @ '' of the Rollout'')
          else if ro_Phase rollout = ''Healthy'' then
            condition ConditionTrue ReasonRolloutHealthy ''The Rollout is healthy''
          else if ro_Phase rollout = ''Degraded'' then
            condition ConditionFalse ReasonRolloutDegraded (rolloutPhaseMessage rollout)
          else condition ConditionFalse ReasonRolloutProgressing (rolloutPhaseMessage rollout))"

text \<open>\<open>storage\<close> is nil without storage, \<open>getErr\<close> nil when the Rollout was read. The Rollout is looked at
  only when the resources are synced, so the nil pointer of a claim that cannot be built is never read.\<close>

definition readyCondition :: "ServiceClaim \<Rightarrow> condition \<Rightarrow> condition option \<Rightarrow> Rollout \<Rightarrow> error option \<Rightarrow> condition" where
  "readyCondition claim synced storage rollout getErr =
     (let condition = claim_condition claim ConditionReady
      in if cond_Status synced \<noteq> ConditionTrue then
           condition ConditionFalse (cond_Reason synced)
             (''The managed resources are not all applied: '' @ cond_Message synced)
         else case storage of
           Some st \<Rightarrow>
             if cond_Status st \<noteq> ConditionTrue then
               condition (if cond_Status st = ConditionUnknown then ConditionUnknown else ConditionFalse) (cond_Reason st)
                 (''The claim's storage is not ready: '' @ cond_Message st)
             else ready_of_rollout condition rollout getErr
         | None \<Rightarrow> ready_of_rollout condition rollout getErr)"

section \<open>Theorems\<close>

lemma claim_condition_simps [simp]:
  "cond_Type (claim_condition c t s r m) = t" "cond_Status (claim_condition c t s r m) = s"
  "cond_Reason (claim_condition c t s r m) = r" "cond_Message (claim_condition c t s r m) = m"
  "cond_ObservedGeneration (claim_condition c t s r m) = sc_Generation c"
  by (simp_all add: claim_condition_def)

lemma unmeasured_simps [simp]:
  "rep_condition (unmeasured c) = c" "\<not> rep_measured (unmeasured c)" "rep_budgetRemaining (unmeasured c) = []"
  "rep_burnRate1h (unmeasured c) = []"
  by (simp_all add: unmeasured_def)

lemma slo_verdict_measured [simp]:
  "rep_measured (slo_verdict claim use hour fast)" "rep_remaining (slo_verdict claim use hour fast) = Remaining use"
  "cond_Type (rep_condition (slo_verdict claim use hour fast)) = ConditionSLOHealthy"
  "cond_ObservedGeneration (rep_condition (slo_verdict claim use hour fast)) = sc_Generation claim"
  by (simp_all add: slo_verdict_def Let_def split: option.splits)

lemma slo_verdict_status:
  "cond_Status (rep_condition (slo_verdict claim use hour fast)) =
     (if f_le (Remaining use) (Fin 0) \<or> (\<exists>b. hour = Some b \<and> f_le fast b) then ConditionFalse else ConditionTrue)"
  by (auto simp: slo_verdict_def Let_def split: option.splits)

text \<open>The page threshold is a number.\<close>

definition fast_burn :: float64 where
  "fast_burn = round64 (burn_rate_of (hd burnRateAlerts))"

lemma Rate_page: "Rate (hd burnRateAlerts) = Inr fast_burn"
  using table_rates by (simp add: fast_burn_def burnRateAlerts_def)

text \<open>
  DeploysFrozen is decided with hysteresis. When the budget is measured, deploys are frozen
  exactly when nothing of it is left, or when they were frozen and less than 5% is back; when it is not
  measured, the last decision stands. The condition is never Unknown.
\<close>

lemma freezeCondition_decision:
  "cond_Type (freezeCondition meta claim report) = ConditionDeploysFrozen \<and>
   cond_ObservedGeneration (freezeCondition meta claim report) = sc_Generation claim \<and>
   cond_Status (freezeCondition meta claim report) =
     (if (if rep_measured report
          then f_le (rep_remaining report) (Fin 0) \<or> was_frozen meta claim \<and> f_less (rep_remaining report) UnfreezeBudget
          else was_frozen meta claim)
      then ConditionTrue else ConditionFalse)"
  by (simp add: freezeCondition_def Let_def)

text \<open>
  Ready is True exactly when every resource is applied, the storage, if the claim asked for any, is
  ready, and Argo Rollouts reports the Rollout healthy at its current generation; it is Unknown exactly
  when what keeps it from being True could not be read.
\<close>

lemma readyCondition_spec:
  "(cond_Status (readyCondition claim synced storage rollout getErr) = ConditionTrue \<longleftrightarrow>
      cond_Status synced = ConditionTrue \<and>
      (storage = None \<or> cond_Status (the storage) = ConditionTrue) \<and>
      getErr = None \<and> ro_ObservedGeneration rollout = itoa (ro_Generation rollout) \<and> ro_Phase rollout = ''Healthy'') \<and>
   (cond_Status (readyCondition claim synced storage rollout getErr) = ConditionUnknown \<longleftrightarrow>
      cond_Status synced = ConditionTrue \<and>
      (if storage = None \<or> cond_Status (the storage) = ConditionTrue
       then \<exists>e. getErr = Some e \<and> \<not> is_not_found e
       else cond_Status (the storage) = ConditionUnknown))"
  by (auto simp: readyCondition_def ready_of_rollout_def Let_def split: option.splits)

lemma evaluateSLO_type:
  "cond_Type (rep_condition (evaluateSLO prometheus claim)) = ConditionSLOHealthy"
  "cond_ObservedGeneration (rep_condition (evaluateSLO prometheus claim)) = sc_Generation claim"
  by (simp_all add: evaluateSLO_def Let_def split: option.splits sum.splits)

text \<open>
  The controller fails open. SLOHealthy is False only with a measured budget; without a querier,
  or when Prometheus fails on a query it is asked, SLOHealthy is Unknown, nothing is measured and both
  status values are empty.
\<close>

lemma evaluateSLO_fails_open:
  "(cond_Status (rep_condition (evaluateSLO prometheus claim)) = ConditionFalse \<longrightarrow>
      rep_measured (evaluateSLO prometheus claim)) \<and>
   (prometheus = None \<or>
      (\<exists>q wq e. prometheus = Some q \<and>
         ErrorRatioExpr (sc_SLI claim) (NamespaceName claim) (slo_Window (sc_SLO claim)) = Inr wq \<and>
         (q wq = Inl e \<or> q (hourQuery claim) = Inl e) \<and> \<not> is_no_data e) \<longrightarrow>
      cond_Status (rep_condition (evaluateSLO prometheus claim)) = ConditionUnknown \<and>
      \<not> rep_measured (evaluateSLO prometheus claim) \<and>
      rep_budgetRemaining (evaluateSLO prometheus claim) = [] \<and> rep_burnRate1h (evaluateSLO prometheus claim) = [])"
  by (auto simp: evaluateSLO_def Let_def Rate_page split: option.splits sum.splits)

lemma evaluateSLO_measured:
  assumes "ErrorBudget (slo_Objective (sc_SLO claim)) = Inr budget"
    and "ErrorRatioExpr (sc_SLI claim) (NamespaceName claim) (slo_Window (sc_SLO claim)) = Inr wq"
    and "q wq = Inr ratio" and "\<And>e. q (hourQuery claim) = Inl e \<Longrightarrow> is_no_data e"
    and "SpendBudget ratio (Some budget) = Inr use"
  shows "rep_measured (evaluateSLO (Some q) claim)" "rep_remaining (evaluateSLO (Some q) claim) = Remaining use"
  using assms by (auto simp: evaluateSLO_def Let_def Rate_page split: sum.splits)

text \<open>
  C1: from Prometheus to the freeze. For an objective the API server admits, when Prometheus answers
  with a finite error ratio over the SLO window and does not fail on the last hour, a claim that was not
  frozen is frozen exactly when that ratio has reached the error budget.
\<close>

theorem frozen_when_budget_spent:
  assumes "ErrorBudget (slo_Objective (sc_SLO claim)) = Inr budget" and "objective_in_range (slo_Objective (sc_SLO claim))"
    and "ErrorRatioExpr (sc_SLI claim) (NamespaceName claim) (slo_Window (sc_SLO claim)) = Inr wq"
    and "q wq = Inr (Fin x)" and "f64_ok (Fin x)" and "\<And>e. q (hourQuery claim) = Inl e \<Longrightarrow> is_no_data e"
    and "\<not> was_frozen meta claim"
  shows "cond_Status (freezeCondition meta claim (evaluateSLO (Some q) claim)) = ConditionTrue \<longleftrightarrow>
         f_le (round64 budget) (Fin x)"
proof -
  note b = round64_budget [OF assms(1)] admitted_budget_positive [OF assms(1,2)]
  from ErrorBudget_bounds [OF assms(1)] b obtain c where
    use: "SpendBudget (Fin x) (Some budget) = Inr \<lparr>Consumed = c, Remaining = Fin (left_of x (rnd budget))\<rparr>"
    using SpendBudget_Fin [of budget "rnd budget" x] by blast
  note m = evaluateSLO_measured [where q = q, OF assms(1,3,4,6) use]
  have "left_of x (rnd budget) = 0 \<longleftrightarrow> rnd budget \<le> x"
    using assms(5) b(3) by (intro left_of_zero_iff r64.repr_rn) simp_all
  moreover have "0 \<le> left_of x (rnd budget)" using left_of_unit [OF b(3), of x] by simp
  ultimately show ?thesis using m assms(7) b(1) by (auto simp: freezeCondition_def Let_def not_less)
qed

theorem frozen_when_budget_spent_witness:
  "cond_Status (freezeCondition apimachinery example_claim
     (evaluateSLO (Some (\<lambda>q. Inr (Fin 1))) example_claim)) = ConditionTrue"
proof -
  have e: "ErrorRatioExpr (sc_SLI example_claim) (NamespaceName example_claim) (slo_Window (sc_SLO example_claim)) =
      Inr (availability_expr (''namespace='' @ quote (NamespaceName example_claim)) (Join (map itoa [200, 404]) ''|'') ''28d'')"
    by (simp add: ErrorRatioExpr_def goodStatusPattern_def example_claim_def sli_types Let_def)
  have o: "objective_in_range (slo_Objective (sc_SLO example_claim))" by code_simp
  have f: "\<not> was_frozen apimachinery example_claim"
    by (simp add: was_frozen_def apimachinery_def find_condition_def example_claim_def)
  have one: "f64_ok (Fin 1)" using u64.repr_one by simp
  have "f_le (round64 (1 / 200)) (Fin 1)" by code_simp
  with frozen_when_budget_spent [OF example_budget o e _ one _ f, of "\<lambda>q. Inr (Fin 1)"] show ?thesis by simp
qed

end
