(* ===== verification/Ctl_Storage.thy ===== *)
theory Ctl_Storage
  imports Builders_Storage Ctl_Slo
begin

text \<open>
  \<open>internal/controller/storage.go\<close> and the pure half of \<open>drift.go\<close>: the cluster's link to AWS from
  the environment, StorageReady from what ACK reports, and how a drift correction is recognised from
  the server-side apply bookkeeping of an object.
\<close>

section \<open>storage.go\<close>

definition EnvAWSAccountID :: string where "EnvAWSAccountID = ''PAVED_AWS_ACCOUNT_ID''"
definition EnvAWSRegion :: string where "EnvAWSRegion = ''PAVED_AWS_REGION''"
definition EnvAWSOIDCIssuer :: string where "EnvAWSOIDCIssuer = ''PAVED_AWS_OIDC_ISSUER''"
definition EnvAWSPermissionsBoundaryARN :: string where
  "EnvAWSPermissionsBoundaryARN = ''PAVED_AWS_PERMISSIONS_BOUNDARY_ARN''"

definition ReasonStorageProvisioned :: string where "ReasonStorageProvisioned = ''Provisioned''"
definition ReasonStorageProvisioning :: string where "ReasonStorageProvisioning = ''Provisioning''"
definition ReasonStorageFailed :: string where "ReasonStorageFailed = ''ProvisioningFailed''"
definition ReasonStorageUnavailable :: string where "ReasonStorageUnavailable = ''StorageUnavailable''"
definition ReasonStorageUnreadable :: string where "ReasonStorageUnreadable = ''StorageUnreadable''"

definition ackResourceSynced :: string where "ackResourceSynced = ''ACK.ResourceSynced''"
definition ackTerminal :: string where "ackTerminal = ''ACK.Terminal''"
definition ackRecoverable :: string where "ackRecoverable = ''ACK.Recoverable''"
definition ackTrue :: string where "ackTrue = ''True''"

text \<open>A nil \<open>*StorageConfig\<close> without an error is \<open>Inr None\<close>.\<close>

definition StorageConfigFromEnv :: "(string \<Rightarrow> string) \<Rightarrow> StorageConfig option result" where
  "StorageConfigFromEnv getenv =
     (let storage = \<lparr>AccountID = getenv EnvAWSAccountID, Region = getenv EnvAWSRegion, Issuer = getenv EnvAWSOIDCIssuer,
                     PermissionsBoundaryARN = getenv EnvAWSPermissionsBoundaryARN\<rparr>;
          values = [AccountID storage, Region storage, Issuer storage, PermissionsBoundaryARN storage];
          count = length (filter (\<lambda>v. v \<noteq> []) values)
      in if count = 0 then Inr None
         else if count = length values then
           (case Validate storage of
              Some e \<Rightarrow> Inl (wrap_error ''invalid AWS storage settings: '' e [])
            | None \<Rightarrow> Inr (Some storage))
         else Inl (Errorf (''set all of '' @ EnvAWSAccountID @ '', '' @ EnvAWSRegion @ '', '' @ EnvAWSOIDCIssuer
                @ '' and '' @ EnvAWSPermissionsBoundaryARN @ '', or none of them'')))"

text \<open>\<open>rest_mapping\<close> is the REST mapper's answer for a kind, \<open>gvk_text\<close> how it is printed.\<close>

fun first_unserved :: "((string \<times> string) \<Rightarrow> error option) \<Rightarrow> ((string \<times> string) \<Rightarrow> string) \<Rightarrow> (string \<times> string) list \<Rightarrow> error option" where
  "first_unserved rest_mapping gvk_text [] = None"
| "first_unserved rest_mapping gvk_text (gvk # gvks) =
     (case rest_mapping gvk of
        Some e \<Rightarrow> Some (wrap_error (''the API server doesn't serve '' @ gvk_text gvk @ '': '') e [])
      | None \<Rightarrow> first_unserved rest_mapping gvk_text gvks)"

definition ServesStorageKinds :: "((string \<times> string) \<Rightarrow> error option) \<Rightarrow> ((string \<times> string) \<Rightarrow> string) \<Rightarrow> error option" where
  "ServesStorageKinds rest_mapping gvk_text = first_unserved rest_mapping gvk_text StorageTypes"

record ackCondition =
  ack_Type :: string
  ack_Status :: string
  ack_Message :: string

text \<open>The zero value a Go map returns for a missing key.\<close>

definition no_ack_condition :: ackCondition where
  "no_ack_condition = \<lparr>ack_Type = [], ack_Status = [], ack_Message = []\<rparr>"

text \<open>
  An ACK object as read, and the two apimachinery functions the code reads its status with:
  \<open>NestedMap(obj, "status")\<close>, which finds a map, nothing, or something else, and the conversion of
  that map to a list of conditions.
\<close>

record ack_api =
  NestedStatus :: "json \<Rightarrow> json option result"
  ConditionsFromUnstructured :: "json \<Rightarrow> ackCondition list result"

record observedACKObject =
  ob_kind :: string
  ob_ref :: string
  ob_object :: json
  ob_err :: "error option"

text \<open>Later conditions of the same type replace earlier ones.\<close>

definition ackConditions :: "ack_api \<Rightarrow> observedACKObject \<Rightarrow> (string \<Rightarrow> ackCondition) result" where
  "ackConditions api ob =
     (case NestedStatus api (ob_object ob) of
        Inl e \<Rightarrow> Inl (wrap_error (''status of '' @ ob_kind ob @ '' '' @ ob_ref ob @ '': '') e [])
      | Inr None \<Rightarrow> Inr (\<lambda>_. no_ack_condition)
      | Inr (Some raw) \<Rightarrow>
          (case ConditionsFromUnstructured api raw of
             Inl e \<Rightarrow> Inl (wrap_error (''conditions of '' @ ob_kind ob @ '' '' @ ob_ref ob @ '': '') e [])
           | Inr cs \<Rightarrow> Inr (foldl (\<lambda>m c. m(ack_Type c := c)) (\<lambda>_. no_ack_condition) cs)))"

definition firstNonEmpty :: "string list \<Rightarrow> string" where
  "firstNonEmpty values = (case find (\<lambda>v. v \<noteq> []) values of None \<Rightarrow> [] | Some v \<Rightarrow> v)"

definition firstError :: "error option list \<Rightarrow> error option" where
  "firstError errs = (case find (\<lambda>e. e \<noteq> None) errs of None \<Rightarrow> None | Some e \<Rightarrow> e)"

text \<open>One round of \<open>storageCondition\<close>'s loop: \<open>Some\<close> is what it returns, \<open>None\<close> goes on.\<close>

definition ack_verdict :: "ack_api \<Rightarrow> observedACKObject \<Rightarrow> (condition_status \<times> string \<times> string) option" where
  "ack_verdict api ob =
     (let conditions = ackConditions api ob;
          err = (if isl conditions then Some (projl conditions) else None)
      in if (\<exists>e. ob_err ob = Some e \<and> is_not_found e) then
           Some (ConditionFalse, ReasonStorageProvisioning, ''The ACK '' @ ob_kind ob @ '' does not exist yet'')
         else case firstError [ob_err ob, err] of
           Some e \<Rightarrow> Some (ConditionUnknown, ReasonStorageUnreadable, ''Reading the ACK '' @ ob_kind ob @ '': '' @ error_text e)
         | None \<Rightarrow>
             let cs = projr conditions; terminal = cs ackTerminal; synced = cs ackResourceSynced
             in if ack_Status terminal = ackTrue then
                  Some (ConditionFalse, ReasonStorageFailed,
                    ''ACK can't create the '' @ ob_kind ob @ '' in AWS: '' @ ack_Message terminal)
                else if ack_Status synced \<noteq> ackTrue then
                  let detail = firstNonEmpty [ack_Message (cs ackRecoverable), ack_Message synced]
                  in Some (ConditionFalse, ReasonStorageProvisioning,
                       ''ACK has not synced the '' @ ob_kind ob @ '' with AWS yet''
                         @ (if detail \<noteq> [] then '': '' @ detail else []))
                else None)"

fun storage_loop :: "ack_api \<Rightarrow> observedACKObject list \<Rightarrow> condition_status \<times> string \<times> string" where
  "storage_loop api [] =
     (ConditionTrue, ReasonStorageProvisioned, ''ACK has created the claim's role and bucket in AWS'')"
| "storage_loop api (ob # obs) = (case ack_verdict api ob of Some v \<Rightarrow> v | None \<Rightarrow> storage_loop api obs)"

definition storageCondition :: "ack_api \<Rightarrow> ServiceClaim \<Rightarrow> observedACKObject list \<Rightarrow> condition" where
  "storageCondition api claim observed =
     (case storage_loop api observed of
        (status, reason, message) \<Rightarrow> claim_condition claim ConditionStorageReady status reason message)"

section \<open>drift.go\<close>

definition ReasonDriftCorrected :: string where "ReasonDriftCorrected = ''DriftCorrected''"
definition eventActionReconcile :: string where "eventActionReconcile = ''Reconcile''"
definition FieldOwner :: string where "FieldOwner = ''paved-controller''"

record correction =
  cor_kind :: string
  cor_ref :: string
  cor_recreated :: bool

text \<open>A managed-fields entry; times are instants, a nil time or nil fields are \<open>None\<close>.\<close>

record ManagedFieldsEntry =
  mf_Manager :: string
  mf_Operation :: string
  mf_Subresource :: string
  mf_Time :: "int option"
  mf_FieldsV1 :: "string option"

definition controllerOwnership :: "ManagedFieldsEntry list \<Rightarrow> ManagedFieldsEntry option" where
  "controllerOwnership entries =
     find (\<lambda>e. mf_Manager e = FieldOwner \<and> mf_Operation e = ''Apply'' \<and> mf_Subresource e = []) entries"

definition sameOwnership :: "ManagedFieldsEntry option \<Rightarrow> ManagedFieldsEntry option \<Rightarrow> bool" where
  "sameOwnership before after \<longleftrightarrow>
     (case (before, after) of
        (Some b, Some a) \<Rightarrow>
          mf_Time b = mf_Time a \<and>
          (case mf_FieldsV1 b of None \<Rightarrow> [] | Some f \<Rightarrow> f) = (case mf_FieldsV1 a of None \<Rightarrow> [] | Some f \<Rightarrow> f)
      | (None, None) \<Rightarrow> True
      | _ \<Rightarrow> False)"

definition inSyncAtGeneration :: "meta_api \<Rightarrow> ServiceClaim \<Rightarrow> bool" where
  "inSyncAtGeneration meta claim \<longleftrightarrow>
     (case FindStatusCondition meta (status_Conditions (sc_Status claim)) ConditionResourcesSynced of
        None \<Rightarrow> False
      | Some synced \<Rightarrow> cond_Status synced = ConditionTrue \<and> cond_ObservedGeneration synced = sc_Generation claim)"

definition objectRef :: "client_object \<Rightarrow> string" where
  "objectRef ob = (if o_Namespace ob = [] then o_Name ob else o_Namespace ob @ ''/'' @ o_Name ob)"

section \<open>Theorems\<close>

lemma sameOwnership_equiv:
  "sameOwnership a a" "sameOwnership a b = sameOwnership b a"
  "sameOwnership a b \<Longrightarrow> sameOwnership b c \<Longrightarrow> sameOwnership a c"
  by (auto simp: sameOwnership_def split: option.splits)

text \<open>
  A half-configured link to AWS is an error. Reading the environment yields no link exactly when
  none of the four variables is set, and a link exactly when all four are set and valid; it is then made
  of their values.
\<close>

lemma StorageConfigFromEnv_spec:
  "(StorageConfigFromEnv getenv = Inr None \<longleftrightarrow>
      getenv EnvAWSAccountID = [] \<and> getenv EnvAWSRegion = [] \<and> getenv EnvAWSOIDCIssuer = [] \<and>
      getenv EnvAWSPermissionsBoundaryARN = []) \<and>
   (StorageConfigFromEnv getenv = Inr (Some c) \<longleftrightarrow>
      AccountID c = getenv EnvAWSAccountID \<and> Region c = getenv EnvAWSRegion \<and> Issuer c = getenv EnvAWSOIDCIssuer \<and>
      PermissionsBoundaryARN c = getenv EnvAWSPermissionsBoundaryARN \<and> StorageConfig.more c = () \<and>
      PermissionsBoundaryARN c \<noteq> [] \<and> Validate c = None)"
proof -
  define s where "s = \<lparr>AccountID = getenv EnvAWSAccountID, Region = getenv EnvAWSRegion, Issuer = getenv EnvAWSOIDCIssuer,
                     PermissionsBoundaryARN = getenv EnvAWSPermissionsBoundaryARN\<rparr>"
  have "c = s \<longleftrightarrow> AccountID c = getenv EnvAWSAccountID \<and> Region c = getenv EnvAWSRegion \<and> Issuer c = getenv EnvAWSOIDCIssuer \<and>
      PermissionsBoundaryARN c = getenv EnvAWSPermissionsBoundaryARN \<and> StorageConfig.more c = ()"
    by (cases c) (auto simp: s_def)
  moreover have "Validate s = None \<Longrightarrow> AccountID s \<noteq> [] \<and> Region s \<noteq> [] \<and> Issuer s \<noteq> []"
    by (auto simp: Validate_def split: if_splits)
  moreover have "StorageConfigFromEnv getenv = Inr None \<longleftrightarrow>
      AccountID s = [] \<and> Region s = [] \<and> Issuer s = [] \<and> PermissionsBoundaryARN s = []"
    by (simp add: StorageConfigFromEnv_def Let_def s_def [symmetric] split: option.splits)
  moreover have "StorageConfigFromEnv getenv = Inr (Some c) \<longleftrightarrow>
      c = s \<and> AccountID s \<noteq> [] \<and> Region s \<noteq> [] \<and> Issuer s \<noteq> [] \<and> PermissionsBoundaryARN s \<noteq> [] \<and> Validate s = None"
    by (cases "Validate s") (auto simp: StorageConfigFromEnv_def Let_def s_def [symmetric])
  moreover have "AccountID s = getenv EnvAWSAccountID" "Region s = getenv EnvAWSRegion"
    "Issuer s = getenv EnvAWSOIDCIssuer" "PermissionsBoundaryARN s = getenv EnvAWSPermissionsBoundaryARN"
    by (simp_all add: s_def)
  ultimately show ?thesis by simp metis
qed

text \<open>Whether ACK reports an object as created in AWS.\<close>

definition ack_synced :: "ack_api \<Rightarrow> observedACKObject \<Rightarrow> bool" where
  "ack_synced api ob \<longleftrightarrow>
     ob_err ob = None \<and>
     (\<exists>cs. ackConditions api ob = Inr cs \<and> ack_Status (cs ''ACK.ResourceSynced'') = ''True'' \<and>
           ack_Status (cs ''ACK.Terminal'') \<noteq> ''True'')"

lemma ack_verdict_None_iff: "ack_verdict api ob = None \<longleftrightarrow> ack_synced api ob"
  by (cases "ackConditions api ob"; cases "ob_err ob")
    (auto simp: ack_verdict_def ack_synced_def Let_def firstError_def ackTerminal_def ackResourceSynced_def ackTrue_def)

lemma ack_verdict_not_True: "ack_verdict api ob = Some (s, r, m) \<Longrightarrow> s \<noteq> ConditionTrue"
  by (auto simp: ack_verdict_def Let_def split: if_splits option.splits)

text \<open>
  StorageReady is True exactly when every ACK object was read and ACK reports it synced with AWS and
  not terminally failed.
\<close>

lemma storageCondition_True_iff:
  "cond_Status (storageCondition api claim observed) = ConditionTrue \<longleftrightarrow> list_all (ack_synced api) observed"
proof (induction observed)
  case Nil
  show ?case by (simp add: storageCondition_def)
next
  case (Cons ob observed)
  then show ?case
    using ack_verdict_None_iff [of api ob] ack_verdict_not_True [of api ob]
    by (cases "ack_verdict api ob") (auto simp: storageCondition_def split: prod.splits)
qed

end
