(* ===== verification/Webhook.thy ===== *)
theory Webhook
  imports Apimachinery
begin

text \<open>
  \<open>internal/webhook/v1alpha1/serviceclaim_webhook.go\<close>: the validating webhook that rejects image
  changes while a claim's deploys are frozen, unless the update carries a new break-glass reason.
  What a call does beside its answer is the list of Events it records.
\<close>

section \<open>Definitions\<close>

definition BreakGlassAnnotation :: string where "BreakGlassAnnotation = ''paved.dev/break-glass''"
definition ReasonBreakGlassUsed :: string where "ReasonBreakGlassUsed = ''BreakGlassUsed''"
definition eventNoteLimit :: nat where "eventNoteLimit = 1024"

record DeploysFrozenError =
  dfe_Claim :: string
  dfe_Window :: string
  dfe_Budget :: string
  dfe_BurnRate :: string

text \<open>The message has an em dash, U+2014.\<close>

definition DeploysFrozenError_Error :: "DeploysFrozenError \<Rightarrow> string" where
  "DeploysFrozenError_Error e =
     ''deploys frozen: '' @ dfe_Claim e @ '' has '' @ dfe_Budget e @ '' error budget remaining in a '' @ dfe_Window e
       @ '' window (burn rate '' @ dfe_BurnRate e @ ''). Override with annotation '' @ BreakGlassAnnotation @ ''=''
       @ [CHR 0x22] @ ''<reason>'' @ [CHR 0x22, CHR '' '', CHR 0xE2, CHR 0x80, CHR 0x94] @ '' this is audited.''"

definition breakGlassReason :: "ServiceClaim \<Rightarrow> ServiceClaim \<Rightarrow> string option" where
  "breakGlassReason oldClaim newClaim =
     (let val = map_get (sc_Annotations newClaim) BreakGlassAnnotation; reason = TrimSpace val
      in if reason = [] \<or> val = map_get (sc_Annotations oldClaim) BreakGlassAnnotation then None
         else Some reason)"

definition budgetForMessage :: "string \<Rightarrow> string" where
  "budgetForMessage recorded = (if recorded = [] then ''unknown'' else replace_first recorded ''.0%'' ''%'')"

definition burnRateForMessage :: "string \<Rightarrow> string" where
  "burnRateForMessage recorded =
     (case ParseFloat recorded of None \<Rightarrow> ''unknown'' | Some rate \<Rightarrow> format_fixed 1 rate @ ''x'')"

text \<open>\<open>utf8.RuneStart\<close>: not a continuation byte.\<close>

definition RuneStart :: "char \<Rightarrow> bool" where
  "RuneStart c \<longleftrightarrow> byte c div 64 \<noteq> 2"

definition ellipsis :: string where
  "ellipsis = [CHR 0xE2, CHR 0x80, CHR 0xA6]"

fun rune_cut :: "string \<Rightarrow> nat \<Rightarrow> nat" where
  "rune_cut s 0 = 0"
| "rune_cut s (Suc n) = (if RuneStart (s ! Suc n) then Suc n else rune_cut s n)"

text \<open>For limits of at least three bytes, the length of the ellipsis; the only call passes 1024.\<close>

definition truncate_note :: "string \<Rightarrow> nat \<Rightarrow> string" where
  "truncate_note s limit =
     (if length s \<le> limit then s
      else take (rune_cut s (limit - length ellipsis)) s @ ellipsis)"

text \<open>What the code reads of an admission request.\<close>

record admission_request =
  req_Username :: string
  req_DryRun :: "bool option"

text \<open>The validator by whether it has a recorder, and the one that is registered with the manager.\<close>

record ServiceClaimValidator =
  v_HasRecorder :: bool

definition registered_validator :: ServiceClaimValidator where
  "registered_validator = \<lparr>v_HasRecorder = True\<rparr>"

lemma registered_validator_records [simp]: "v_HasRecorder registered_validator"
  by (simp add: registered_validator_def)

definition SetupServiceClaimWebhookWithManager :: "(ServiceClaimValidator \<Rightarrow> error option) \<Rightarrow> error option" where
  "SetupServiceClaimWebhookWithManager register = register registered_validator"

definition ValidateCreate :: "ServiceClaim \<Rightarrow> string list result" where
  "ValidateCreate claim = Inr []"

definition ValidateDelete :: "ServiceClaim \<Rightarrow> string list result" where
  "ValidateDelete claim = Inr []"

definition frozen_error :: "ServiceClaim \<Rightarrow> DeploysFrozenError" where
  "frozen_error oldClaim =
     \<lparr>dfe_Claim = sc_Name oldClaim, dfe_Window = slo_Window (sc_SLO oldClaim),
      dfe_Budget = budgetForMessage (status_ErrorBudgetRemaining (sc_Status oldClaim)),
      dfe_BurnRate = burnRateForMessage (status_BurnRate1h (sc_Status oldClaim))\<rparr>"

text \<open>\<open>request\<close> is what \<open>RequestFromContext\<close> returns.\<close>

definition ValidateUpdate ::
  "meta_api \<Rightarrow> ServiceClaimValidator \<Rightarrow> admission_request result \<Rightarrow> ServiceClaim \<Rightarrow> ServiceClaim \<Rightarrow> string list result \<times> k8s_event list" where
  "ValidateUpdate meta v request oldClaim newClaim =
     (let frozen = IsStatusConditionTrue meta (status_Conditions (sc_Status oldClaim)) ConditionDeploysFrozen;
          oldImage = spec_Image (sc_Spec oldClaim); newImage = spec_Image (sc_Spec newClaim)
      in if \<not> frozen \<or> oldImage = newImage then (Inr [], [])
         else case breakGlassReason oldClaim newClaim of
           None \<Rightarrow> (Inl (Errorf (DeploysFrozenError_Error (frozen_error oldClaim))), [])
         | Some reason \<Rightarrow>
             (case request of
                Inl e \<Rightarrow> (Inl (wrap_error ''reading the admission request to audit break-glass: '' e []), [])
              | Inr req \<Rightarrow>
                  let actor = req_Username req; dryRun = (req_DryRun req = Some True);
                      note = actor @ '' changed the image from '' @ oldImage @ '' to '' @ newImage
                               @ '' during a deploy freeze: '' @ reason
                  in (Inr [''deploys are frozen: this image change was let through by '' @ BreakGlassAnnotation
                             @ '' and recorded in a '' @ ReasonBreakGlassUsed @ '' Event''],
                      if v_HasRecorder v \<and> \<not> dryRun
                      then [\<lparr>ev_Regarding = (sc_Namespace newClaim, sc_Name newClaim), ev_Type = ''Warning'',
                             ev_Reason = ReasonBreakGlassUsed, ev_Action = ''UpdateImage'',
                             ev_Note = truncate_note note eventNoteLimit\<rparr>]
                      else [])))"

section \<open>Truncation\<close>

lemma rune_cut_le: "rune_cut s n \<le> n"
  by (induction n) (auto intro: le_SucI)

lemma rune_cut_start: "rune_cut s n = 0 \<or> RuneStart (s ! rune_cut s n)"
  by (induction n) auto

text \<open>The longest cut that does not split a character.\<close>

lemma rune_cut_maximal: "rune_cut s n < k \<Longrightarrow> k \<le> n \<Longrightarrow> \<not> RuneStart (s ! k)"
  by (induction n) (auto simp: le_Suc_eq split: if_splits)

lemma ellipsis_length [simp]: "length ellipsis = 3"
  by (simp add: ellipsis_def)

lemma truncate_note_length: "3 \<le> limit \<Longrightarrow> length (truncate_note s limit) \<le> limit"
  using rune_cut_le [of s "limit - 3"] by (auto simp: truncate_note_def min_def)

text \<open>
  Truncation keeps an Event's note within its limit: a note that fits is unchanged, a longer one is
  cut to at most the limit, before a whole character, as late as possible, and ends in an ellipsis.
\<close>

lemma truncate_note_spec:
  assumes "3 \<le> limit"
  shows "length (truncate_note s limit) \<le> limit \<and>
         (length s \<le> limit \<longrightarrow> truncate_note s limit = s) \<and>
         (limit < length s \<longrightarrow>
            (\<exists>n. truncate_note s limit = take n s @ ellipsis \<and> n \<le> limit - 3 \<and> (n = 0 \<or> RuneStart (s ! n)) \<and>
               (\<forall>k. n < k \<and> k \<le> limit - 3 \<longrightarrow> \<not> RuneStart (s ! k))))"
proof -
  have "length (truncate_note s limit) \<le> limit" using assms by (rule truncate_note_length)
  moreover have "\<exists>n. truncate_note s limit = take n s @ ellipsis \<and> n \<le> limit - 3 \<and> (n = 0 \<or> RuneStart (s ! n)) \<and>
               (\<forall>k. n < k \<and> k \<le> limit - 3 \<longrightarrow> \<not> RuneStart (s ! k))" if "limit < length s"
    using that rune_cut_le [of s "limit - 3"] rune_cut_start [of s "limit - 3"] rune_cut_maximal [of s "limit - 3"]
    by (intro exI [of _ "rune_cut s (limit - 3)"]) (auto simp: truncate_note_def)
  ultimately show ?thesis by (simp add: truncate_note_def)
qed

section \<open>The gate\<close>

lemma breakGlassReason_iff:
  "breakGlassReason old new = Some reason \<longleftrightarrow>
     reason = TrimSpace (map_get (sc_Annotations new) BreakGlassAnnotation) \<and> reason \<noteq> [] \<and>
     map_get (sc_Annotations new) BreakGlassAnnotation \<noteq> map_get (sc_Annotations old) BreakGlassAnnotation"
  by (auto simp: breakGlassReason_def Let_def)

text \<open>
  C3: an update is admitted exactly when the stored claim is not frozen, or the image stays the same, or
  the update sets a new, non-blank break-glass reason and the request can be read to name the actor.
\<close>

theorem ValidateUpdate_admits:
  "succeeds (fst (ValidateUpdate meta v request old new)) \<longleftrightarrow>
     (if IsStatusConditionTrue meta (status_Conditions (sc_Status old)) ConditionDeploysFrozen \<and>
         spec_Image (sc_Spec old) \<noteq> spec_Image (sc_Spec new)
      then TrimSpace (map_get (sc_Annotations new) BreakGlassAnnotation) \<noteq> [] \<and>
           map_get (sc_Annotations new) BreakGlassAnnotation \<noteq> map_get (sc_Annotations old) BreakGlassAnnotation \<and>
           succeeds request
      else True)"
  by (auto simp: ValidateUpdate_def Let_def breakGlassReason_def split: option.splits sum.splits)

lemma ValidateUpdate_break_glass:
  assumes "succeeds (fst (ValidateUpdate meta v request old new))"
    and "IsStatusConditionTrue meta (status_Conditions (sc_Status old)) ConditionDeploysFrozen"
    and "spec_Image (sc_Spec old) \<noteq> spec_Image (sc_Spec new)"
  obtains reason req where "breakGlassReason old new = Some reason" "request = Inr req"
  using assms by (auto simp: ValidateUpdate_def Let_def split: option.splits sum.splits)

text \<open>
  C33: an image change let through a freeze is audited. Its answer carries a warning, and unless the
  request is a dry run or there is no recorder, exactly one Warning Event is recorded on the claim, whose
  note holds the user, both images and the reason, cut to the Event's limit.
\<close>

theorem ValidateUpdate_audited:
  assumes "fst (ValidateUpdate meta v (Inr req) old new) = Inr warnings"
    and "IsStatusConditionTrue meta (status_Conditions (sc_Status old)) ConditionDeploysFrozen"
    and "spec_Image (sc_Spec old) \<noteq> spec_Image (sc_Spec new)"
  shows "warnings \<noteq> [] \<and>
         (if v_HasRecorder v \<and> req_DryRun req \<noteq> Some True
          then \<exists>e reason. snd (ValidateUpdate meta v (Inr req) old new) = [e] \<and>
                 ev_Regarding e = (sc_Namespace new, sc_Name new) \<and> ev_Type e = ''Warning'' \<and>
                 ev_Reason e = ''BreakGlassUsed'' \<and> breakGlassReason old new = Some reason \<and>
                 ev_Note e = truncate_note (req_Username req @ '' changed the image from '' @ spec_Image (sc_Spec old) @ '' to ''
                   @ spec_Image (sc_Spec new) @ '' during a deploy freeze: '' @ reason) 1024 \<and>
                 length (ev_Note e) \<le> 1024
          else snd (ValidateUpdate meta v (Inr req) old new) = [])"
proof -
  have len: "length (truncate_note s 1024) \<le> 1024" for s by (rule truncate_note_length) simp
  from assms show ?thesis
    by (auto simp: ValidateUpdate_def Let_def ReasonBreakGlassUsed_def eventNoteLimit_def len split: option.splits)
qed

definition frozen_example :: ServiceClaim where
  "frozen_example =
     \<lparr>sc_Name = ''shortlink'', sc_Namespace = ''default'', sc_Labels = Map.empty, sc_Annotations = Map.empty,
      sc_Generation = 1, sc_DeletionTimestamp = None, sc_Finalizers = [],
      sc_Spec = \<lparr>spec_Owner = ''payments'', spec_Image = ''x:v1'', spec_Port = 8080, spec_Tier = ''public'',
        spec_SLI = \<lparr>sli_Type = ''http-availability'', sli_GoodStatuses = [200], sli_LatencyThreshold = []\<rparr>,
        spec_SLO = \<lparr>slo_Objective = ''99.5'', slo_Window = ''28d''\<rparr>,
        spec_Scale = \<lparr>scale_Min = 2, scale_Max = 6\<rparr>, spec_Storage = False\<rparr>,
      sc_Status = \<lparr>status_Conditions = [\<lparr>cond_Type = ''DeploysFrozen'', cond_Status = ConditionTrue,
          cond_ObservedGeneration = 1, cond_Reason = ''BudgetExhausted'', cond_Message = []\<rparr>],
        status_ErrorBudgetRemaining = ''0.0%'', status_BurnRate1h = ''14.20'',
        status_ManagedResources = 13, status_ObservedGeneration = 1, status_LastReconcileTime = None,
        status_Storage = None\<rparr>\<rparr>"

definition break_glass_update :: "string \<Rightarrow> ServiceClaim" where
  "break_glass_update reason = frozen_example
     \<lparr>sc_Annotations := [''paved.dev/break-glass'' \<mapsto> reason], sc_Spec := (sc_Spec frozen_example)\<lparr>spec_Image := ''x:v2''\<rparr>\<rparr>"

theorem ValidateUpdate_audited_witness:
  "\<exists>e. snd (ValidateUpdate apimachinery registered_validator (Inr \<lparr>req_Username = ''ada'', req_DryRun = None\<rparr>)
          frozen_example (break_glass_update ''outage'')) = [e] \<and> ev_Reason e = ''BreakGlassUsed''"
proof -
  let ?req = "\<lparr>req_Username = ''ada'', req_DryRun = None\<rparr>"
  have t: "TrimSpace ''outage'' = ''outage''" by code_simp
  have f: "IsStatusConditionTrue apimachinery (status_Conditions (sc_Status frozen_example)) ConditionDeploysFrozen"
    by (simp add: apimachinery_def find_condition_def frozen_example_def condition_types)
  have "\<exists>ws. fst (ValidateUpdate apimachinery registered_validator (Inr ?req) frozen_example (break_glass_update ''outage'')) = Inr ws"
    by (simp add: ValidateUpdate_def Let_def breakGlassReason_def break_glass_update_def BreakGlassAnnotation_def t)
      (simp add: frozen_example_def)
  then obtain ws where
    w: "fst (ValidateUpdate apimachinery registered_validator (Inr ?req) frozen_example (break_glass_update ''outage'')) = Inr ws" ..
  have "spec_Image (sc_Spec frozen_example) \<noteq> spec_Image (sc_Spec (break_glass_update ''outage''))"
    by (simp add: frozen_example_def break_glass_update_def)
  from ValidateUpdate_audited [OF w f this] show ?thesis by auto
qed

end
