(* ===== verification/Ctl_Reconcile.thy ===== *)
theory Ctl_Reconcile
  imports Builders_Set Ctl_Storage "HOL-Library.State_Monad"
begin

text \<open>
  \<open>internal/controller/serviceclaim_controller.go\<close>, \<open>apply.go\<close> and the half of \<open>drift.go\<close> and
  \<open>storage.go\<close> that talks to the API server. A reconcile is a computation in a state monad over the
  history of its calls: each call appends an event that holds the request and the answer, and the
  answer is whatever the world, a parameter, gives for that history. Theorems that hold for every
  world hold for every interleaving with other writers and every failure of the API server.
\<close>

section \<open>Calls and their history\<close>

definition Finalizer :: string where "Finalizer = ''paved.dev/finalizer''"
definition ReasonApplied :: string where "ReasonApplied = ''Applied''"
definition ReasonApplyFailed :: string where "ReasonApplyFailed = ''ApplyFailed''"
definition namespaceDeletionPoll :: int where "namespaceDeletionPoll = 5 * Second"

text \<open>What the code reads of a Namespace.\<close>

record NamespaceObject =
  nso_Name :: string
  nso_Labels :: labels
  nso_DeletionTimestamp :: "string option"

text \<open>The status fields of a server-side apply; a field left out is \<open>None\<close> and is cleared.\<close>

record StatusPatch =
  sp_Conditions :: "condition list"
  sp_ObservedGeneration :: int
  sp_LastReconcileTime :: string
  sp_ManagedResources :: "int option"
  sp_ErrorBudgetRemaining :: "string option"
  sp_BurnRate1h :: "string option"
  sp_Storage :: "StorageStatus option"

text \<open>A namespaced name.\<close>

type_synonym key = "string \<times> string"

definition key_text :: "key \<Rightarrow> string" where
  "key_text k = fst k @ ''/'' @ snd k"

text \<open>Reads tell whether they went to the API server, past the cache.\<close>

datatype event =
    GetClaim key "ServiceClaim result"
  | GetNamespace bool string "NamespaceObject result"
  | ReadLive client_object "ManagedFieldsEntry list result"
  | ApplyObject client_object json "ManagedFieldsEntry list result"
  | DeleteNamespace string "error option"
  | ApplyFinalizer key bool "error option"
  | ApplyStatus key StatusPatch "error option"
  | GetRollout bool key "Rollout result"
  | GetACK bool "string \<times> string" key "json \<times> error option"
  | RecordEvent k8s_event

type_synonym history = "event list"
type_synonym 'a io = "(history, 'a) state"

text \<open>The world's answers, each a function of the history before the call.\<close>

record world =
  w_getClaim :: "history \<Rightarrow> key \<Rightarrow> ServiceClaim result"
  w_getNamespace :: "history \<Rightarrow> bool \<Rightarrow> string \<Rightarrow> NamespaceObject result"
  w_readLive :: "history \<Rightarrow> client_object \<Rightarrow> ManagedFieldsEntry list result"
  w_applyObject :: "history \<Rightarrow> client_object \<Rightarrow> json \<Rightarrow> ManagedFieldsEntry list result"
  w_deleteNamespace :: "history \<Rightarrow> string \<Rightarrow> error option"
  w_applyFinalizer :: "history \<Rightarrow> key \<Rightarrow> bool \<Rightarrow> error option"
  w_applyStatus :: "history \<Rightarrow> key \<Rightarrow> StatusPatch \<Rightarrow> error option"
  w_getRollout :: "history \<Rightarrow> bool \<Rightarrow> key \<Rightarrow> Rollout result"
  w_getACK :: "history \<Rightarrow> bool \<Rightarrow> string \<times> string \<Rightarrow> key \<Rightarrow> json \<times> error option"
  w_query :: "history \<Rightarrow> string \<Rightarrow> float64 result"
  w_now :: "history \<Rightarrow> string"

text \<open>
  The apimachinery functions the reconciler converts objects with: typed objects to unstructured
  content, the removal of a nested field, the name of an object's Go type, and a condition to its
  unstructured form, which keeps its fields.
\<close>

record converter =
  ToUnstructured :: "client_object \<Rightarrow> json result"
  RemoveNestedField :: "json \<Rightarrow> string list \<Rightarrow> json"
  TypeName :: "client_object \<Rightarrow> string"
  ConditionToUnstructured :: "condition \<Rightarrow> condition result"

record ServiceClaimReconciler =
  rc_HasPrometheus :: bool
  rc_HasAPIReader :: bool
  rc_HasRecorder :: bool
  rc_Storage :: "StorageConfig option"
  rc_Meta :: meta_api
  rc_Ack :: ack_api
  rc_Convert :: converter

definition call :: "(history \<Rightarrow> 'a) \<Rightarrow> ('a \<Rightarrow> event) \<Rightarrow> 'a io" where
  "call answer event_of = State (\<lambda>tr. let a = answer tr in (a, tr @ [event_of a]))"

text \<open>An answer that is not a call of the API server, and leaves no event.\<close>

definition ask :: "(history \<Rightarrow> 'a) \<Rightarrow> 'a io" where
  "ask answer = State (\<lambda>tr. (answer tr, tr))"

definition tell :: "event list \<Rightarrow> unit io" where
  "tell es = State (\<lambda>tr. ((), tr @ es))"

section \<open>apply.go and drift.go\<close>

definition toApplyObject :: "converter \<Rightarrow> client_object \<Rightarrow> json result" where
  "toApplyObject conv ob =
     and_then
       (map_error (\<lambda>e. wrap_error (''converting '' @ TypeName conv ob @ '' '' @ key_text (o_Namespace ob, o_Name ob)
          @ '' to unstructured: '') e []) (ToUnstructured conv ob))
       (\<lambda>content.
          let c1 = RemoveNestedField conv content [''metadata'', ''creationTimestamp''];
              c2 = RemoveNestedField conv c1 [''spec'', ''template'', ''metadata'', ''creationTimestamp'']
          in Inr (RemoveNestedField conv c2 [''status'']))"

definition liveOwnership ::
  "world \<Rightarrow> ServiceClaimReconciler \<Rightarrow> client_object \<Rightarrow> (ManagedFieldsEntry option \<times> bool) result io" where
  "liveOwnership w r ob =
     (if \<not> rc_HasAPIReader r then State_Monad.return (Inr (None, True))
      else do {
        answer \<leftarrow> call (\<lambda>tr. w_readLive w tr ob) (ReadLive ob);
        State_Monad.return (case answer of
          Inl e \<Rightarrow>
            if is_not_found e then Inr (None, False)
            else Inl (wrap_error (''reading '' @ o_Kind ob @ '' '' @ objectRef ob @ '': '') e [])
        | Inr managed \<Rightarrow> Inr (controllerOwnership managed, True))
      })"

definition drift_event :: "ServiceClaim \<Rightarrow> correction \<Rightarrow> event" where
  "drift_event claim c =
     RecordEvent \<lparr>ev_Regarding = (sc_Namespace claim, sc_Name claim), ev_Type = ''Normal'',
       ev_Reason = ReasonDriftCorrected, ev_Action = eventActionReconcile,
       ev_Note = (if cor_recreated c then ''Recreated'' else ''Reverted changes to'') @ '' '' @ cor_kind c @ '' '' @ cor_ref c\<rparr>"

definition reportDrift :: "ServiceClaimReconciler \<Rightarrow> ServiceClaim \<Rightarrow> correction list \<Rightarrow> unit io" where
  "reportDrift r claim corrections =
     tell (if rc_HasRecorder r then map (drift_event claim) corrections else [])"

section \<open>serviceclaim\_controller.go\<close>

fun apply_loop ::
  "world \<Rightarrow> ServiceClaimReconciler \<Rightarrow> nat \<Rightarrow> correction list \<Rightarrow> client_object list
     \<Rightarrow> (nat \<times> correction list \<times> error option) io" where
  "apply_loop w r i corrections [] = State_Monad.return (i, corrections, None)"
| "apply_loop w r i corrections (ob # obs) =
     (case toApplyObject (rc_Convert r) ob of
        Inl e \<Rightarrow> State_Monad.return (i, corrections, Some e)
      | Inr u \<Rightarrow> do {
          live \<leftarrow> liveOwnership w r ob;
          case live of
            Inl e \<Rightarrow> State_Monad.return (i, corrections, Some e)
          | Inr (before, existed) \<Rightarrow> do {
              answer \<leftarrow> call (\<lambda>tr. w_applyObject w tr ob u) (ApplyObject ob u);
              case answer of
                Inl e \<Rightarrow>
                  State_Monad.return (i, corrections, Some (wrap_error
                    (''applying '' @ o_Kind ob @ '' '' @ key_text (o_Namespace ob, o_Name ob) @ '': '') e []))
              | Inr managed \<Rightarrow>
                  apply_loop w r (Suc i)
                    (if rc_HasAPIReader r \<and> (\<not> existed \<or> \<not> sameOwnership before (controllerOwnership managed))
                     then corrections @ [\<lparr>cor_kind = o_Kind ob, cor_ref = objectRef ob, cor_recreated = \<not> existed\<rparr>]
                     else corrections) obs
            }
        })"

definition applyObjects ::
  "world \<Rightarrow> ServiceClaimReconciler \<Rightarrow> client_object list \<Rightarrow> (nat \<times> correction list \<times> error option) io" where
  "applyObjects w r objects = apply_loop w r 0 [] objects"

definition claim_key :: "ServiceClaim \<Rightarrow> key" where
  "claim_key claim = (sc_Namespace claim, sc_Name claim)"

definition applyFinalizer :: "world \<Rightarrow> ServiceClaim \<Rightarrow> bool \<Rightarrow> error option io" where
  "applyFinalizer w claim present =
     do {
       answer \<leftarrow> call (\<lambda>tr. w_applyFinalizer w tr (claim_key claim) present) (ApplyFinalizer (claim_key claim) present);
       State_Monad.return (map_option (\<lambda>e. wrap_error (''setting finalizer present='' @ (if present then ''true'' else ''false'')
         @ '' on ServiceClaim '' @ key_text (claim_key claim) @ '': '') e []) answer)
     }"

definition belongsTo :: "labels \<Rightarrow> ServiceClaim \<Rightarrow> bool" where
  "belongsTo labels claim \<longleftrightarrow>
     map_get labels LabelClaim = sc_Name claim \<and> map_get labels LabelClaimNamespace = sc_Namespace claim"

definition claimForObject :: "labels \<Rightarrow> key list" where
  "claimForObject labels =
     (let name = map_get labels LabelClaim; namespace = map_get labels LabelClaimNamespace
      in if name = [] \<or> namespace = [] then [] else [(namespace, name)])"

text \<open>A result is the delay to requeue after, 0 for none, or an error.\<close>

definition of_error :: "error option \<Rightarrow> int result" where
  "of_error e = (case e of None \<Rightarrow> Inr 0 | Some err \<Rightarrow> Inl err)"

definition finalize :: "world \<Rightarrow> ServiceClaim \<Rightarrow> int result io" where
  "finalize w claim =
     (if Finalizer \<notin> set (sc_Finalizers claim) then State_Monad.return (Inr 0)
      else do {
        answer \<leftarrow> call (\<lambda>tr. w_getNamespace w tr False (NamespaceName claim)) (GetNamespace False (NamespaceName claim));
        case answer of
          Inl e \<Rightarrow>
            if is_not_found e then do {
              err \<leftarrow> applyFinalizer w claim False;
              State_Monad.return (of_error err)
            }
            else State_Monad.return (Inl (wrap_error (''getting namespace '' @ NamespaceName claim @ '': '') e []))
        | Inr ns \<Rightarrow>
            if \<not> belongsTo (nso_Labels ns) claim then do {
              err \<leftarrow> applyFinalizer w claim False;
              State_Monad.return (of_error err)
            }
            else if nso_DeletionTimestamp ns = None then do {
              err \<leftarrow> call (\<lambda>tr. w_deleteNamespace w tr (nso_Name ns)) (DeleteNamespace (nso_Name ns));
              State_Monad.return (case err of
                Some e \<Rightarrow> if is_not_found e then Inr namespaceDeletionPoll
                          else Inl (wrap_error (''deleting namespace '' @ nso_Name ns @ '': '') e [])
              | None \<Rightarrow> Inr namespaceDeletionPoll)
            }
            else State_Monad.return (Inr namespaceDeletionPoll)
      })"

text \<open>The patch carries only the fields the controller owns; empty values are left out.\<close>

definition status_patch ::
  "ServiceClaim \<Rightarrow> nat \<Rightarrow> sloReport \<Rightarrow> StorageStatus option \<Rightarrow> string \<Rightarrow> condition list \<Rightarrow> StatusPatch" where
  "status_patch claim managed report storage now conds =
     \<lparr>sp_Conditions = conds, sp_ObservedGeneration = sc_Generation claim, sp_LastReconcileTime = now,
      sp_ManagedResources = (if managed > 0 then Some (int managed) else None),
      sp_ErrorBudgetRemaining = (if rep_budgetRemaining report \<noteq> [] then Some (rep_budgetRemaining report) else None),
      sp_BurnRate1h = (if rep_burnRate1h report \<noteq> [] then Some (rep_burnRate1h report) else None),
      sp_Storage = storage\<rparr>"

definition applyStatus ::
  "world \<Rightarrow> ServiceClaimReconciler \<Rightarrow> ServiceClaim \<Rightarrow> nat \<Rightarrow> sloReport \<Rightarrow> StorageStatus option \<Rightarrow> condition list \<Rightarrow> error option io" where
  "applyStatus w r claim managed report storage new =
     (let conditions = foldl (SetStatusCondition (rc_Meta r)) (status_Conditions (sc_Status claim)) new
      in case traverse (\<lambda>c. map_error (\<lambda>e. wrap_error (''converting condition '' @ quote (cond_Type c) @ '': '') e [])
             (ConditionToUnstructured (rc_Convert r) c)) conditions of
           Inl e \<Rightarrow> State_Monad.return (Some e)
         | Inr conds \<Rightarrow> do {
             now \<leftarrow> ask (w_now w);
             let patch = status_patch claim managed report storage now conds;
             answer \<leftarrow> call (\<lambda>tr. w_applyStatus w tr (claim_key claim) patch) (ApplyStatus (claim_key claim) patch);
             State_Monad.return (map_option (\<lambda>e. wrap_error
               (''applying status to ServiceClaim '' @ key_text (claim_key claim) @ '': '') e []) answer)
           })"

record storageReport =
  sr_condition :: "condition option"
  sr_status :: "StorageStatus option"

text \<open>The claim's ACK objects, read in order.\<close>

fun observe_ack :: "world \<Rightarrow> ServiceClaimReconciler \<Rightarrow> key \<Rightarrow> (string \<times> string) list \<Rightarrow> observedACKObject list io" where
  "observe_ack w r k [] = State_Monad.return []"
| "observe_ack w r k (gvk # gvks) =
     do {
       answer \<leftarrow> call (\<lambda>tr. w_getACK w tr (rc_HasAPIReader r) gvk k) (GetACK (rc_HasAPIReader r) gvk k);
       rest \<leftarrow> observe_ack w r k gvks;
       State_Monad.return (\<lparr>ob_kind = snd gvk, ob_ref = key_text k, ob_object = fst answer, ob_err = snd answer\<rparr> # rest)
     }"

definition evaluateStorage :: "world \<Rightarrow> ServiceClaimReconciler \<Rightarrow> ServiceClaim \<Rightarrow> storageReport io" where
  "evaluateStorage w r claim =
     (if \<not> spec_Storage (sc_Spec claim) then State_Monad.return \<lparr>sr_condition = None, sr_status = None\<rparr>
      else case rc_Storage r of
        None \<Rightarrow> State_Monad.return
          \<lparr>sr_condition = Some (claim_condition claim ConditionStorageReady ConditionFalse ReasonStorageUnavailable
             ''This cluster isn't linked to an AWS account, so the claim's bucket and role can't be created''),
           sr_status = None\<rparr>
      | Some storage \<Rightarrow> do {
          observed \<leftarrow> observe_ack w r (NamespaceName claim, sc_Name claim) StorageTypes;
          State_Monad.return
            \<lparr>sr_condition = Some (storageCondition (rc_Ack r) claim observed),
             sr_status = Some \<lparr>st_Bucket = StorageBucketName claim storage, st_RoleARN = StorageRoleARN claim storage\<rparr>\<rparr>
        })"

text \<open>\<open>errors.Join\<close>: nil without an error, else the texts on lines of their own.\<close>

definition errors_Join :: "error option list \<Rightarrow> error option" where
  "errors_Join errs =
     (case List.map_filter id errs of [] \<Rightarrow> None | es \<Rightarrow> Some (Errorf (Join (map error_text es) newline)))"

definition zero_rollout :: Rollout where
  "zero_rollout = \<lparr>ro_Generation = 0, ro_ObservedGeneration = [], ro_Phase = [], ro_Message = []\<rparr>"

text \<open>The Rollout is read only when every object was applied.\<close>

definition read_rollout :: "world \<Rightarrow> ServiceClaimReconciler \<Rightarrow> ServiceClaim \<Rightarrow> error option \<Rightarrow> (Rollout \<times> error option) io" where
  "read_rollout w r claim applyErr =
     (if applyErr \<noteq> None then State_Monad.return (zero_rollout, None)
      else do {
        let k = (NamespaceName claim, sc_Name claim);
        answer \<leftarrow> call (\<lambda>tr. w_getRollout w tr (rc_HasAPIReader r) k) (GetRollout (rc_HasAPIReader r) k);
        State_Monad.return (case answer of
          Inl e \<Rightarrow> (zero_rollout, Some (wrap_error (''getting Rollout '' @ key_text k @ '': '') e []))
        | Inr rollout \<Rightarrow> (rollout, None))
      })"

definition synced_condition :: "ServiceClaim \<Rightarrow> nat \<Rightarrow> nat \<Rightarrow> error option \<Rightarrow> condition" where
  "synced_condition claim applied count applyErr =
     (let message = ''Applied '' @ itoa (int applied) @ '' of '' @ itoa (int count) @ '' managed resources''
      in case applyErr of
           None \<Rightarrow> claim_condition claim ConditionResourcesSynced ConditionTrue ReasonApplied message
         | Some e \<Rightarrow> claim_condition claim ConditionResourcesSynced ConditionFalse ReasonApplyFailed
             (message @ '': '' @ error_text e))"

text \<open>A claim whose spec cannot be built, and the rest of a reconcile once the objects are built.\<close>

definition reconcile_invalid :: "world \<Rightarrow> ServiceClaimReconciler \<Rightarrow> ServiceClaim \<Rightarrow> error \<Rightarrow> int result io" where
  "reconcile_invalid w r claim err =
     (let invalid = claim_condition claim ConditionResourcesSynced ConditionFalse ReasonInvalidSpec (error_text err);
          report = unmeasured (claim_condition claim ConditionSLOHealthy ConditionUnknown ReasonInvalidSpec
            ''The SLO can't be evaluated until the spec is valid'')
      in do {
        e \<leftarrow> applyStatus w r claim 0 report None
          [invalid, rep_condition report, freezeCondition (rc_Meta r) claim report,
           readyCondition claim invalid None zero_rollout None];
        State_Monad.return (of_error e)
      })"

definition reconcile_objects :: "world \<Rightarrow> ServiceClaimReconciler \<Rightarrow> ServiceClaim \<Rightarrow> client_object list \<Rightarrow> int result io" where
  "reconcile_objects w r claim objects =
     do {
       (applied, corrections, applyErr) \<leftarrow> applyObjects w r objects;
       _ \<leftarrow> (if inSyncAtGeneration (rc_Meta r) claim then reportDrift r claim corrections else State_Monad.return ());
       let synced = synced_condition claim applied (length objects) applyErr;
       query_value \<leftarrow> ask (w_query w);
       let report = evaluateSLO (if rc_HasPrometheus r then Some query_value else None) claim;
       let frozen = freezeCondition (rc_Meta r) claim report;
       storage \<leftarrow> evaluateStorage w r claim;
       (rollout, getErr) \<leftarrow> read_rollout w r claim applyErr;
       let ready = readyCondition claim synced (sr_condition storage) rollout getErr;
       let rolloutErr = (case getErr of Some e \<Rightarrow> if is_not_found e then None else Some e | None \<Rightarrow> None);
       let conditions = [synced, rep_condition report, frozen]
             @ (case sr_condition storage of None \<Rightarrow> [] | Some c \<Rightarrow> [c]) @ [ready];
       statusErr \<leftarrow> applyStatus w r claim applied report (sr_status storage) conditions;
       State_Monad.return (case statusErr of
         Some e \<Rightarrow> of_error (errors_Join [applyErr, rolloutErr, Some e])
       | None \<Rightarrow> (case errors_Join [applyErr, rolloutErr] of Some e \<Rightarrow> Inl e | None \<Rightarrow> Inr sloRefreshInterval))
     }"

text \<open>\<open>Reconcile\<close> from the finalizer on, for a claim that is not being deleted.\<close>

definition reconcile_live :: "world \<Rightarrow> ServiceClaimReconciler \<Rightarrow> ServiceClaim \<Rightarrow> int result io" where
  "reconcile_live w r claim =
     do {
       finalizerErr \<leftarrow> (if Finalizer \<notin> set (sc_Finalizers claim) then applyFinalizer w claim True
                       else State_Monad.return None);
       case finalizerErr of
         Some e \<Rightarrow> State_Monad.return (Inl e)
       | None \<Rightarrow>
           (case Build claim (rc_Storage r) of
              Inl e \<Rightarrow> reconcile_invalid w r claim e
            | Inr objects \<Rightarrow> reconcile_objects w r claim objects)
     }"

definition Reconcile :: "world \<Rightarrow> ServiceClaimReconciler \<Rightarrow> key \<Rightarrow> int result io" where
  "Reconcile w r req =
     do {
       answer \<leftarrow> call (\<lambda>tr. w_getClaim w tr req) (GetClaim req);
       case answer of
         Inl e \<Rightarrow>
           State_Monad.return (if is_not_found e then Inr 0
             else Inl (wrap_error (''getting ServiceClaim '' @ key_text req @ '': '') e []))
       | Inr claim \<Rightarrow>
           if sc_DeletionTimestamp claim \<noteq> None then finalize w claim else reconcile_live w r claim
     }"

text \<open>
  The claim events that are reconciled, for an update; creations and deletions all are. The three
  predicates are controller-runtime's, on the generation, the labels and the annotations.
\<close>

record predicates =
  GenerationChanged :: "ServiceClaim \<Rightarrow> ServiceClaim \<Rightarrow> bool"
  LabelChanged :: "ServiceClaim \<Rightarrow> ServiceClaim \<Rightarrow> bool"
  AnnotationChanged :: "ServiceClaim \<Rightarrow> ServiceClaim \<Rightarrow> bool"

definition claimChanged :: "predicates \<Rightarrow> ServiceClaim \<Rightarrow> ServiceClaim \<Rightarrow> bool" where
  "claimChanged p oldClaim newClaim \<longleftrightarrow>
     GenerationChanged p oldClaim newClaim \<or> LabelChanged p oldClaim newClaim \<or>
     AnnotationChanged p oldClaim newClaim \<or> sc_DeletionTimestamp newClaim \<noteq> None"

text \<open>The kinds \<open>SetupWithManager\<close> watches beside claims.\<close>

definition watched_types :: "ServiceClaimReconciler \<Rightarrow> (string \<times> string) list" where
  "watched_types r = ManagedTypes @ (if rc_Storage r \<noteq> None then StorageTypes else [])"

section \<open>Reasoning about histories\<close>

text \<open>
  \<open>appends m Q\<close>: from every history, \<open>m\<close> appends events and returns a value that satisfy \<open>Q\<close>. The rules
  follow the code backwards from what is to be shown.
\<close>

definition appends :: "'a io \<Rightarrow> ('a \<Rightarrow> event list \<Rightarrow> bool) \<Rightarrow> bool" where
  "appends m Q \<longleftrightarrow> (\<forall>tr. \<exists>new. snd (run_state m tr) = tr @ new \<and> Q (fst (run_state m tr)) new)"

lemma appendsD: "appends m Q \<Longrightarrow> run_state m tr = (a, tr') \<Longrightarrow> \<exists>new. tr' = tr @ new \<and> Q a new"
  unfolding appends_def by (metis fst_conv snd_conv)

lemma appends_run: "appends m Q \<Longrightarrow> run_state m tr = (a, tr @ new) \<Longrightarrow> Q a new"
  by (fastforce dest: appendsD)

lemma appends_weaken: "appends m P \<Longrightarrow> (\<And>a new. P a new \<Longrightarrow> Q a new) \<Longrightarrow> appends m Q"
  unfolding appends_def by blast

lemma appends_return: "Q x [] \<Longrightarrow> appends (State_Monad.return x) Q"
  by (simp add: appends_def State_Monad.return_def)

lemma appends_call: "(\<And>a. Q a [event_of a]) \<Longrightarrow> appends (call answer event_of) Q"
  by (simp add: appends_def call_def Let_def)

lemma appends_ask: "(\<And>tr. Q (answer tr) []) \<Longrightarrow> appends (ask answer) Q"
  by (simp add: appends_def ask_def)

lemma appends_tell: "Q () es \<Longrightarrow> appends (tell es) Q"
  by (simp add: appends_def tell_def)

lemma appends_bind:
  assumes "appends m (\<lambda>a new. appends (f a) (\<lambda>b new'. Q b (new @ new')))"
  shows "appends (State_Monad.bind m f) Q"
  unfolding appends_def
proof
  fix tr
  obtain a tr' where m: "run_state m tr = (a, tr')" by (cases "run_state m tr")
  from appendsD [OF assms m] obtain new where new: "tr' = tr @ new" "appends (f a) (\<lambda>b new'. Q b (new @ new'))" by blast
  obtain b tr'' where f: "run_state (f a) tr' = (b, tr'')" by (cases "run_state (f a) tr'")
  from appendsD [OF new(2) f] obtain new' where "tr'' = tr' @ new'" "Q b (new @ new')" by blast
  then show "\<exists>new. snd (run_state (State_Monad.bind m f) tr) = tr @ new \<and> Q (fst (run_state (State_Monad.bind m f) tr)) new"
    using m f new by (simp add: State_Monad.bind_def)
qed

lemmas appends_intros = appends_return appends_call appends_ask appends_tell appends_bind

text \<open>What a reconcile may do to a namespace, and to the claim's finalizer.\<close>

lemma applyFinalizer_appends:
  "(\<And>e err. (err = None \<longleftrightarrow> e = None) \<Longrightarrow> Q err [ApplyFinalizer (claim_key claim) present e]) \<Longrightarrow>
     appends (applyFinalizer w claim present) Q"
  unfolding applyFinalizer_def by (intro appends_intros) simp

text \<open>
  The deletion protocol: what the calls of one \<open>finalize\<close> can be. The finalizer is released once the
  namespace is gone or turns out to be another claim's, and only the claim's own namespace is deleted.
\<close>

inductive deletion_protocol :: "ServiceClaim \<Rightarrow> event list \<Rightarrow> bool" for claim where
  released: "Finalizer \<notin> set (sc_Finalizers claim) \<Longrightarrow> deletion_protocol claim []"
| gone: "Finalizer \<in> set (sc_Finalizers claim) \<Longrightarrow> is_not_found e \<Longrightarrow>
    deletion_protocol claim [GetNamespace False (NamespaceName claim) (Inl e), ApplyFinalizer (claim_key claim) False err]"
| unreadable: "Finalizer \<in> set (sc_Finalizers claim) \<Longrightarrow> \<not> is_not_found e \<Longrightarrow>
    deletion_protocol claim [GetNamespace False (NamespaceName claim) (Inl e)]"
| foreign: "Finalizer \<in> set (sc_Finalizers claim) \<Longrightarrow> \<not> belongsTo (nso_Labels ns) claim \<Longrightarrow>
    deletion_protocol claim [GetNamespace False (NamespaceName claim) (Inr ns), ApplyFinalizer (claim_key claim) False err]"
| deleting: "Finalizer \<in> set (sc_Finalizers claim) \<Longrightarrow> belongsTo (nso_Labels ns) claim \<Longrightarrow> nso_DeletionTimestamp ns = None \<Longrightarrow>
    deletion_protocol claim [GetNamespace False (NamespaceName claim) (Inr ns), DeleteNamespace (nso_Name ns) err]"
| waiting: "Finalizer \<in> set (sc_Finalizers claim) \<Longrightarrow> belongsTo (nso_Labels ns) claim \<Longrightarrow> nso_DeletionTimestamp ns \<noteq> None \<Longrightarrow>
    deletion_protocol claim [GetNamespace False (NamespaceName claim) (Inr ns)]"

inductive_cases deletion_protocolE: "deletion_protocol claim new"

lemma finalize_appends: "appends (finalize w claim) (\<lambda>res new. deletion_protocol claim new)"
  unfolding finalize_def
  by (auto intro!: appends_intros applyFinalizer_appends split: sum.splits) (simp_all add: deletion_protocol.intros)

section \<open>applyObjects\<close>

text \<open>The objects of the apply requests in a history, and of those that succeeded.\<close>

fun attempted :: "event list \<Rightarrow> client_object list" where
  "attempted [] = []"
| "attempted (ApplyObject ob u answer # es) = ob # attempted es"
| "attempted (_ # es) = attempted es"

fun applied_in :: "event list \<Rightarrow> client_object list" where
  "applied_in [] = []"
| "applied_in (ApplyObject ob u (Inr managed) # es) = ob # applied_in es"
| "applied_in (_ # es) = applied_in es"

lemma attempted_append [simp]: "attempted (xs @ ys) = attempted xs @ attempted ys"
  by (induction xs rule: attempted.induct) simp_all

lemma applied_in_append [simp]: "applied_in (xs @ ys) = applied_in xs @ applied_in ys"
  by (induction xs rule: applied_in.induct) simp_all

text \<open>The events of an apply are reads of the live object and applies.\<close>

fun apply_event :: "event \<Rightarrow> bool" where
  "apply_event (ReadLive ob answer) = True"
| "apply_event (ApplyObject ob u answer) = True"
| "apply_event _ = False"

definition apply_outcome :: "nat \<Rightarrow> client_object list \<Rightarrow> nat \<times> correction list \<times> error option \<Rightarrow> event list \<Rightarrow> bool" where
  "apply_outcome i obs res new \<longleftrightarrow>
     (case res of (applied, corrections, err) \<Rightarrow>
        i \<le> applied \<and> applied - i \<le> length obs \<and> applied_in new = take (applied - i) obs \<and>
        attempted new \<in> {take (applied - i) obs, take (Suc (applied - i)) obs} \<and>
        (err = None \<longleftrightarrow> applied - i = length obs) \<and> list_all apply_event new)"

lemma liveOwnership_appends:
  "(\<And>a new. attempted new = [] \<Longrightarrow> applied_in new = [] \<Longrightarrow> list_all apply_event new \<Longrightarrow> Q a new) \<Longrightarrow>
     appends (liveOwnership w r ob) Q"
  unfolding liveOwnership_def by (auto intro!: appends_intros)

lemma apply_outcome_stop: "obs \<noteq> [] \<Longrightarrow> applied_in new = [] \<Longrightarrow> attempted new \<in> {[], take 1 obs} \<Longrightarrow>
    list_all apply_event new \<Longrightarrow> apply_outcome i obs (i, corrections, Some e) new"
  by (auto simp: apply_outcome_def)

lemma apply_outcome_step:
  assumes "apply_outcome (Suc i) obs res new" "applied_in pre = []" "attempted pre = []" "list_all apply_event pre"
  shows "apply_outcome i (ob # obs) res (pre @ ApplyObject ob u (Inr managed) # new)"
proof -
  obtain n corrections err where "res = (Suc i + n, corrections, err)"
    using assms(1) by (cases res) (auto simp: apply_outcome_def dest!: le_Suc_ex)
  with assms show ?thesis by (auto simp: apply_outcome_def)
qed

lemma apply_loop_appends: "appends (apply_loop w r i corrections obs) (apply_outcome i obs)"
proof (induction obs arbitrary: i corrections)
  case Nil
  show ?case by (simp add: appends_return apply_outcome_def)
next
  case (Cons ob obs)
  show ?case
    by (auto intro!: appends_return appends_bind liveOwnership_appends appends_call apply_outcome_stop
          appends_weaken [OF Cons.IH] apply_outcome_step
        split: sum.splits)
qed

lemma applyObjects_appends: "appends (applyObjects w r obs) (apply_outcome 0 obs)"
  unfolding applyObjects_def by (rule apply_loop_appends)

text \<open>
  In every world, applyObjects applies the objects in order and stops at the first failure: the
  objects applied are the first ones, as many as it reports, at most one more was tried, and it reports no
  error exactly when all were applied.
\<close>

lemma applyObjects_prefix:
  assumes "run_state (applyObjects w r obs) tr = ((applied, corrections, err), tr')"
  shows "\<exists>new. tr' = tr @ new \<and> applied \<le> length obs \<and> applied_in new = take applied obs \<and>
           attempted new \<in> {take applied obs, take (Suc applied) obs} \<and>
           (err = None \<longleftrightarrow> applied = length obs)"
  using appendsD [OF applyObjects_appends assms] by (auto simp: apply_outcome_def)

section \<open>Reconcile\<close>

text \<open>Calls that neither delete a namespace nor touch the finalizer.\<close>

fun harmless :: "event \<Rightarrow> bool" where
  "harmless (DeleteNamespace ns e) = False"
| "harmless (ApplyFinalizer k present e) = False"
| "harmless _ = True"

text \<open>Calls that do not write the status either.\<close>

fun quiet :: "event \<Rightarrow> bool" where
  "quiet (ApplyStatus k patch e) = False"
| "quiet e = harmless e"

lemma quiet_harmless: "list_all quiet new \<Longrightarrow> list_all harmless new"
  by (induction new) (auto elim: quiet.elims)

lemma apply_event_quiet: "list_all apply_event new \<Longrightarrow> list_all quiet new"
  by (induction new) (auto elim: apply_event.elims)

lemma applyStatus_appends:
  "(\<And>res new. list_all harmless new \<Longrightarrow> attempted new = [] \<Longrightarrow> Q res new) \<Longrightarrow>
     appends (applyStatus w r claim managed report storage conds) Q"
  unfolding applyStatus_def Let_def by (auto intro!: appends_intros split: sum.splits)

lemma observe_ack_appends: "appends (observe_ack w r k gvks) (\<lambda>res new. list_all quiet new \<and> attempted new = [])"
  by (induction gvks) (auto intro!: appends_intros elim!: appends_weaken)

lemma evaluateStorage_appends:
  "appends (evaluateStorage w r claim) (\<lambda>res new. list_all quiet new \<and> attempted new = [] \<and>
     (\<forall>c. sr_condition res = Some c \<longrightarrow> cond_Type c = ConditionStorageReady))"
  unfolding evaluateStorage_def
  by (auto intro!: appends_intros appends_weaken [OF observe_ack_appends] simp: storageCondition_def
      split: option.splits prod.splits)

lemma read_rollout_appends:
  "appends (read_rollout w r claim err) (\<lambda>res new. list_all quiet new \<and> attempted new = [])"
  unfolding read_rollout_def Let_def by (auto intro!: appends_intros)

lemma reportDrift_appends: "appends (reportDrift r claim cs) (\<lambda>res new. list_all quiet new \<and> attempted new = [])"
proof -
  have "list_all quiet (map (drift_event claim) cs) \<and> attempted (map (drift_event claim) cs) = []"
    by (induction cs) (simp_all add: drift_event_def)
  then show ?thesis unfolding reportDrift_def by (auto intro!: appends_tell)
qed

lemma reconcile_invalid_appends: "appends (reconcile_invalid w r claim e) (\<lambda>res new. list_all harmless new \<and> attempted new = [])"
  unfolding reconcile_invalid_def Let_def by (auto intro!: appends_intros applyStatus_appends)

lemma applyObjects_quiet:
  "appends (applyObjects w r obs) (\<lambda>res new. list_all quiet new \<and> prefix (attempted new) obs)"
  by (rule appends_weaken [OF applyObjects_appends]) (auto simp: apply_outcome_def apply_event_quiet take_is_prefix)

lemma reconcile_objects_appends:
  "appends (reconcile_objects w r claim obs) (\<lambda>res new. list_all harmless new \<and> prefix (attempted new) obs)"
  unfolding reconcile_objects_def Let_def
  by (auto intro!: appends_intros applyStatus_appends appends_weaken [OF applyObjects_quiet]
        appends_weaken [OF reportDrift_appends] appends_weaken [OF evaluateStorage_appends]
        appends_weaken [OF read_rollout_appends] simp: quiet_harmless)

text \<open>
  The reconcile protocol: the calls of one reconcile start with a read of the claim; a claim that is
  being deleted goes through the deletion protocol, any other first gets its finalizer and then has a
  prefix of its objects applied in order, without any deletion.
\<close>

definition finalizer_guard :: "ServiceClaim \<Rightarrow> event list" where
  "finalizer_guard claim =
     (if Finalizer \<in> set (sc_Finalizers claim) then [] else [ApplyFinalizer (claim_key claim) True None])"

inductive reconcile_protocol :: "ServiceClaimReconciler \<Rightarrow> key \<Rightarrow> event list \<Rightarrow> bool" for r req where
  unread: "reconcile_protocol r req [GetClaim req (Inl e)]"
| deleted: "sc_DeletionTimestamp claim \<noteq> None \<Longrightarrow> deletion_protocol claim new \<Longrightarrow>
    reconcile_protocol r req (GetClaim req (Inr claim) # new)"
| unguarded: "sc_DeletionTimestamp claim = None \<Longrightarrow> Finalizer \<notin> set (sc_Finalizers claim) \<Longrightarrow>
    reconcile_protocol r req [GetClaim req (Inr claim), ApplyFinalizer (claim_key claim) True (Some e)]"
| invalid: "sc_DeletionTimestamp claim = None \<Longrightarrow> isl (Build claim (rc_Storage r)) \<Longrightarrow>
    list_all harmless new \<Longrightarrow> attempted new = [] \<Longrightarrow>
    reconcile_protocol r req (GetClaim req (Inr claim) # finalizer_guard claim @ new)"
| applied: "sc_DeletionTimestamp claim = None \<Longrightarrow> Build claim (rc_Storage r) = Inr obs \<Longrightarrow>
    list_all harmless new \<Longrightarrow> prefix (attempted new) obs \<Longrightarrow>
    reconcile_protocol r req (GetClaim req (Inr claim) # finalizer_guard claim @ new)"

inductive_cases reconcile_protocolE: "reconcile_protocol r req new"

text \<open>The part of \<open>Reconcile\<close> after the finalizer is in place.\<close>

lemma reconcile_body_appends:
  assumes "sc_DeletionTimestamp claim = None"
  shows "appends (case Build claim (rc_Storage r) of
       Inl e \<Rightarrow> reconcile_invalid w r claim e | Inr objects \<Rightarrow> reconcile_objects w r claim objects)
     (\<lambda>res new. reconcile_protocol r req (GetClaim req (Inr claim) # finalizer_guard claim @ new))"
proof (cases "Build claim (rc_Storage r)")
  case (Inl e)
  with assms show ?thesis
    by (auto intro!: appends_weaken [OF reconcile_invalid_appends] reconcile_protocol.invalid)
next
  case (Inr obs)
  with assms show ?thesis
    by (auto intro!: appends_weaken [OF reconcile_objects_appends] reconcile_protocol.applied)
qed

lemma reconcile_live_appends:
  assumes "sc_DeletionTimestamp claim = None"
  shows "appends (reconcile_live w r claim) (\<lambda>res new. reconcile_protocol r req (GetClaim req (Inr claim) # new))"
proof -
  note body = reconcile_body_appends [OF assms, where w = w and r = r and req = req]
  show ?thesis
  proof (cases "Finalizer \<in> set (sc_Finalizers claim)")
    case True
    then show ?thesis
      unfolding reconcile_live_def using body by (auto intro!: appends_bind appends_return simp: finalizer_guard_def)
  next
    case False
    then show ?thesis
      unfolding reconcile_live_def using body assms
      by (auto intro!: appends_bind applyFinalizer_appends appends_return reconcile_protocol.unguarded
          simp: finalizer_guard_def)
  qed
qed

lemma Reconcile_appends: "appends (Reconcile w r req) (\<lambda>res new. reconcile_protocol r req new)"
  unfolding Reconcile_def
  by (auto intro!: appends_bind appends_call appends_return reconcile_protocol.unread reconcile_protocol.deleted
      reconcile_live_appends appends_weaken [OF finalize_appends] split: sum.splits)

text \<open>
  C2: when a reconcile deletes. In every world, a reconcile that sends a delete of a namespace makes exactly three calls:
  it reads its claim, which is marked for deletion and holds the finalizer; it reads the namespace of the claim's
  name, through the cache, and the copy it is shown carries the labels of the claim and is not being deleted; and it
  deletes by the name of that copy. It applies nothing and keeps the finalizer. The labels are those of the copy: the
  delete is not tied to it, and the stored namespace may be another by then, as a run in
  \<open>Ctl_Orphans\<close> shows.
\<close>

theorem Reconcile_deletes_own_namespace:
  assumes "run_state (Reconcile w r req) tr = (res, tr @ new)" and "DeleteNamespace ns err \<in> set new"
  shows "\<exists>claim copy.
           new = [GetClaim req (Inr claim), GetNamespace False (NamespaceName claim) (Inr copy), DeleteNamespace ns err] \<and>
           sc_DeletionTimestamp claim \<noteq> None \<and> Finalizer \<in> set (sc_Finalizers claim) \<and>
           belongsTo (nso_Labels copy) claim \<and> nso_DeletionTimestamp copy = None \<and> ns = nso_Name copy"
proof -
  have "reconcile_protocol r req new" by (rule appends_run [OF Reconcile_appends assms(1)])
  then show ?thesis
    using assms(2)
    by (cases rule: reconcile_protocol.cases)
      (auto simp: list_all_iff finalizer_guard_def elim!: deletion_protocolE split: if_splits)
qed

text \<open>
  The finalizer is released only when the claim is being deleted and its namespace is gone or is
  another claim's; it is never released in the reconcile that deletes the namespace.
\<close>

lemma Reconcile_releases_after_namespace:
  assumes "run_state (Reconcile w r req) tr = (res, tr @ new)" and "ApplyFinalizer k False err \<in> set new"
  shows "\<exists>claim answer. GetClaim req (Inr claim) \<in> set new \<and> sc_DeletionTimestamp claim \<noteq> None \<and> k = claim_key claim \<and>
           GetNamespace False (NamespaceName claim) answer \<in> set new \<and>
           (case answer of Inl e \<Rightarrow> is_not_found e | Inr obj \<Rightarrow> \<not> belongsTo (nso_Labels obj) claim) \<and>
           (\<forall>ns e. DeleteNamespace ns e \<notin> set new)"
proof -
  have "reconcile_protocol r req new" by (rule appends_run [OF Reconcile_appends assms(1)])
  then show ?thesis
    using assms(2)
    by (cases rule: reconcile_protocol.cases)
      (auto simp: list_all_iff finalizer_guard_def elim!: deletion_protocolE split: if_splits)
qed

text \<open>
  C17: nothing is applied before the finalizer is on the claim, and what is applied is a prefix of the
  objects the claim builds, in their order, so the namespace comes first.
\<close>

theorem Reconcile_applies_behind_finalizer:
  assumes "run_state (Reconcile w r req) tr = (res, tr @ new)" and "attempted new \<noteq> []"
  shows "\<exists>claim obs rest. Build claim (rc_Storage r) = Inr obs \<and> prefix (attempted new) obs \<and>
           hd (attempted new) = BuildNamespace claim \<and>
           new = GetClaim req (Inr claim) # rest \<and> sc_DeletionTimestamp claim = None \<and>
           (Finalizer \<in> set (sc_Finalizers claim) \<or> (\<exists>rest'. rest = ApplyFinalizer (claim_key claim) True None # rest'))"
proof -
  have "reconcile_protocol r req new" by (rule appends_run [OF Reconcile_appends assms(1)])
  then show ?thesis
    using assms(2)
  proof (cases rule: reconcile_protocol.cases)
    case (applied claim obs new')
    from bs.namespace_first [OF applied(3)] obtain rest where obs: "obs = BuildNamespace claim # rest" by blast
    have "attempted new = attempted new'" using applied(1) by (simp add: finalizer_guard_def)
    with applied assms(2) obs show ?thesis
      by (auto simp: finalizer_guard_def prefix_Cons intro!: exI [of _ claim] exI [of _ obs])
  qed (auto simp: finalizer_guard_def elim!: deletion_protocolE)
qed

section \<open>What a reconcile writes to the status\<close>

text \<open>
  Where the report of a status write comes from: with a spec that can be built it is the evaluation of the SLO with
  the answers of some moment, otherwise it measures nothing.
\<close>

definition report_source :: "world \<Rightarrow> ServiceClaimReconciler \<Rightarrow> ServiceClaim \<Rightarrow> sloReport \<Rightarrow> bool" where
  "report_source w r claim report \<longleftrightarrow>
     isl (Build claim (rc_Storage r)) \<and> \<not> rep_measured report \<or>
     (\<exists>h. report = evaluateSLO (if rc_HasPrometheus r then Some (w_query w h) else None) claim)"

lemma report_source_measured:
  assumes "report_source w r claim report"
  shows "\<not> rep_measured report \<or> (\<exists>h. rc_HasPrometheus r \<and> report = evaluateSLO (Some (w_query w h)) claim)"
  using assms by (cases "rc_HasPrometheus r") (auto simp: report_source_def evaluateSLO_def Let_def)

text \<open>
  The patch of a status write: its conditions are the claim's with those of this reconcile set, in the
  order the code sets them.
\<close>

definition status_ok :: "world \<Rightarrow> ServiceClaimReconciler \<Rightarrow> ServiceClaim \<Rightarrow> StatusPatch \<Rightarrow> bool" where
  "status_ok w r claim patch \<longleftrightarrow>
     (\<exists>synced report st ready managed storage now.
        patch = status_patch claim managed report storage now
          (foldl (SetStatusCondition (rc_Meta r)) (status_Conditions (sc_Status claim))
             ([synced, rep_condition report, freezeCondition (rc_Meta r) claim report] @ st @ [ready])) \<and>
        report_source w r claim report \<and>
        cond_Type synced = ConditionResourcesSynced \<and> cond_Type (rep_condition report) = ConditionSLOHealthy \<and>
        map cond_Type st \<in> {[], [ConditionStorageReady]} \<and> cond_Type ready = ConditionReady \<and>
        (cond_Status ready = ConditionTrue \<longrightarrow>
           cond_Status synced = ConditionTrue \<and> list_all (\<lambda>c. cond_Status c = ConditionTrue) st))"

definition statuses :: "world \<Rightarrow> ServiceClaimReconciler \<Rightarrow> ServiceClaim \<Rightarrow> event list \<Rightarrow> bool" where
  "statuses w r claim new \<longleftrightarrow>
     (\<forall>k patch err. ApplyStatus k patch err \<in> set new \<longrightarrow> k = claim_key claim \<and> status_ok w r claim patch)"

lemma statuses_append [simp]: "statuses w r claim (xs @ ys) \<longleftrightarrow> statuses w r claim xs \<and> statuses w r claim ys"
  unfolding statuses_def set_append by blast

lemma statuses_GetClaim [simp]: "statuses w r claim (GetClaim k answer # new) \<longleftrightarrow> statuses w r claim new"
  by (simp add: statuses_def)

lemma statuses_quiet: "list_all quiet new \<Longrightarrow> statuses w r claim new"
  unfolding statuses_def list_all_iff by fastforce

lemma applyStatus_statuses:
  assumes "\<And>c. ConditionToUnstructured (rc_Convert r) c = Inr c"
    and "\<And>now. status_ok w r claim (status_patch claim managed report storage now
           (foldl (SetStatusCondition (rc_Meta r)) (status_Conditions (sc_Status claim)) conds))"
  shows "appends (applyStatus w r claim managed report storage conds) (\<lambda>res new. statuses w r claim new)"
proof -
  have "traverse (\<lambda>c. map_error f (ConditionToUnstructured (rc_Convert r) c)) cs = Inr cs" for f cs
    using traverse_total [of cs _ id] assms(1) by simp
  moreover have "traverse (\<lambda>c. map_error (g c) (ConditionToUnstructured (rc_Convert r) c)) cs = Inr cs" for g cs
    using traverse_total [of cs "\<lambda>c. map_error (g c) (ConditionToUnstructured (rc_Convert r) c)" id] assms(1) by simp
  ultimately show ?thesis
    unfolding applyStatus_def Let_def using assms(2)
    by (auto intro!: appends_intros simp: statuses_def)
qed

lemma ready_needs:
  "cond_Status (readyCondition claim synced storage rollout getErr) = ConditionTrue \<Longrightarrow>
     cond_Status synced = ConditionTrue \<and> (\<forall>c. storage = Some c \<longrightarrow> cond_Status c = ConditionTrue)"
  by (auto simp: readyCondition_def Let_def split: if_splits option.splits)

lemma readyCondition_type: "cond_Type (readyCondition claim synced storage rollout getErr) = ConditionReady"
  by (simp add: readyCondition_def ready_of_rollout_def Let_def split: option.splits)

lemma synced_condition_type: "cond_Type (synced_condition claim applied n err) = ConditionResourcesSynced"
  by (simp add: synced_condition_def Let_def split: option.splits)

lemma status_okI:
  assumes "cond_Type synced = ConditionResourcesSynced" "cond_Type (rep_condition report) = ConditionSLOHealthy"
    and "\<forall>c. storage = Some c \<longrightarrow> cond_Type c = ConditionStorageReady"
    and "report_source w r claim report"
  shows "status_ok w r claim (status_patch claim managed report st now
     (foldl (SetStatusCondition (rc_Meta r)) (status_Conditions (sc_Status claim))
        ([synced, rep_condition report, freezeCondition (rc_Meta r) claim report]
           @ (case storage of None \<Rightarrow> [] | Some c \<Rightarrow> [c]) @ [readyCondition claim synced storage rollout getErr])))"
proof -
  let ?st = "case storage of None \<Rightarrow> [] | Some c \<Rightarrow> [c]"
  have "map cond_Type ?st \<in> {[], [ConditionStorageReady]}" using assms(3) by (cases storage) auto
  moreover have "cond_Status (readyCondition claim synced storage rollout getErr) = ConditionTrue \<longrightarrow>
      cond_Status synced = ConditionTrue \<and> list_all (\<lambda>c. cond_Status c = ConditionTrue) ?st"
    using ready_needs [of claim synced storage rollout getErr] by (auto split: option.splits)
  ultimately show ?thesis
    unfolding status_ok_def using assms(1,2,4) readyCondition_type
    by (intro exI [of _ synced] exI [of _ report] exI [of _ ?st]
        exI [of _ "readyCondition claim synced storage rollout getErr"] exI [of _ managed] exI [of _ st] exI [of _ now])
      simp
qed

text \<open>Quiet calls before and pure work after a part that writes the status.\<close>

lemma appends_quiet_bind:
  assumes "appends m (\<lambda>a new. list_all quiet new \<and> P a)"
    and "\<And>a. P a \<Longrightarrow> appends (f a) (\<lambda>b new. statuses w r claim new)"
  shows "appends (State_Monad.bind m f) (\<lambda>b new. statuses w r claim new)"
  by (rule appends_bind, rule appends_weaken [OF assms(1)]) (simp add: statuses_quiet assms(2))

lemma appends_bind_return:
  "appends m (\<lambda>a new. Q new) \<Longrightarrow> appends (State_Monad.bind m (\<lambda>a. State_Monad.return (f a))) (\<lambda>b new. Q new)"
  by (rule appends_bind, erule appends_weaken) (simp add: appends_return)

lemma reconcile_invalid_statuses:
  assumes "\<And>c. ConditionToUnstructured (rc_Convert r) c = Inr c" and "isl (Build claim (rc_Storage r))"
  shows "appends (reconcile_invalid w r claim e) (\<lambda>res new. statuses w r claim new)"
proof -
  let ?invalid = "claim_condition claim ConditionResourcesSynced ConditionFalse ReasonInvalidSpec (error_text e)"
  let ?report = "unmeasured (claim_condition claim ConditionSLOHealthy ConditionUnknown ReasonInvalidSpec
            ''The SLO can't be evaluated until the spec is valid'')"
  have "status_ok w r claim (status_patch claim 0 ?report None now
     (foldl (SetStatusCondition (rc_Meta r)) (status_Conditions (sc_Status claim))
       [?invalid, rep_condition ?report, freezeCondition (rc_Meta r) claim ?report,
        readyCondition claim ?invalid None zero_rollout None]))" for now
    using status_okI [where synced = ?invalid and report = ?report and storage = None] assms(2) by (simp add: report_source_def)
  then show ?thesis
    unfolding reconcile_invalid_def Let_def by (intro appends_bind_return applyStatus_statuses assms(1))
qed

lemma evaluateSLO_source:
  "q = w_query w h \<Longrightarrow> report_source w r claim (evaluateSLO (if rc_HasPrometheus r then Some q else None) claim)"
  by (auto simp: report_source_def)

lemma reconcile_objects_statuses:
  assumes "\<And>c. ConditionToUnstructured (rc_Convert r) c = Inr c"
  shows "appends (reconcile_objects w r claim obs) (\<lambda>res new. statuses w r claim new)"
  unfolding reconcile_objects_def Let_def
proof (rule appends_quiet_bind [where P = "\<lambda>_. True"], goal_cases)
  case 1
  show ?case by (rule appends_weaken [OF applyObjects_quiet]) simp
next
  case (2 res)
  obtain applied corrections err where res: "res = (applied, corrections, err)" by (cases res)
  show ?case
    unfolding res prod.case
    apply (rule appends_quiet_bind [where P = "\<lambda>_. True"])
     apply (simp add: appends_return appends_weaken [OF reportDrift_appends])
    apply (rule appends_quiet_bind [where P = "\<lambda>q. \<exists>h. q = w_query w h"])
     apply (rule appends_ask, auto)[1]
    apply (erule exE)
    apply (rule appends_quiet_bind [where P = "\<lambda>s. \<forall>c. sr_condition s = Some c \<longrightarrow> cond_Type c = ConditionStorageReady"])
     apply (rule appends_weaken [OF evaluateStorage_appends], simp)
    apply (rule appends_quiet_bind [where P = "\<lambda>_. True"])
     apply (rule appends_weaken [OF read_rollout_appends], simp)
    subgoal premises prems for _ query_value h _ rollout
      using prems
      by (cases rollout)
        (simp only: prod.case, intro appends_bind_return applyStatus_statuses assms status_okI evaluateSLO_source,
          simp_all add: synced_condition_type evaluateSLO_type)
    done
qed

lemma appends_quiet_finalizer:
  assumes "appends m (\<lambda>res new. statuses w r claim new)"
  shows "appends (State_Monad.bind (if Finalizer \<notin> set (sc_Finalizers claim) then applyFinalizer w claim True
            else State_Monad.return None)
          (\<lambda>e. case e of Some e \<Rightarrow> State_Monad.return (Inl e) | None \<Rightarrow> m)) (\<lambda>res new. statuses w r claim new)"
  using assms by (auto intro!: appends_bind applyFinalizer_appends appends_return appends_weaken [OF assms]
      simp: statuses_def split: option.splits)

lemma Reconcile_statuses:
  assumes "\<And>c. ConditionToUnstructured (rc_Convert r) c = Inr c"
  shows "appends (Reconcile w r req) (\<lambda>res new.
     (\<exists>claim rest. new = GetClaim req (Inr claim) # rest \<and> sc_DeletionTimestamp claim = None \<and> statuses w r claim new) \<or>
     (\<forall>k patch err. ApplyStatus k patch err \<notin> set new))"
proof -
  have live: "appends (reconcile_live w r claim) (\<lambda>res new. statuses w r claim new)" for claim
    unfolding reconcile_live_def
  proof (rule appends_quiet_finalizer)
    show "appends (case Build claim (rc_Storage r) of Inl e \<Rightarrow> reconcile_invalid w r claim e
        | Inr objects \<Rightarrow> reconcile_objects w r claim objects) (\<lambda>res new. statuses w r claim new)"
      by (auto intro: reconcile_invalid_statuses [OF assms] reconcile_objects_statuses [OF assms] split: sum.splits)
  qed
  have "appends (finalize w claim) (\<lambda>res new. \<forall>k patch err. ApplyStatus k patch err \<notin> set new)" for claim
    by (rule appends_weaken [OF finalize_appends]) (auto elim!: deletion_protocolE)
  note fin = appends_weaken [OF this]
  show ?thesis
    unfolding Reconcile_def
    by (intro appends_bind appends_call)
      (auto intro!: appends_return appends_weaken [OF live] fin split: sum.splits)
qed

text \<open>What is found in the conditions of such a patch.\<close>

lemma status_ok_conditions:
  assumes "status_conditions (rc_Meta r)" "status_ok w r claim patch"
  shows "sp_ObservedGeneration patch = sc_Generation claim \<and>
     (\<exists>report synced ready.
        FindStatusCondition (rc_Meta r) (sp_Conditions patch) ConditionDeploysFrozen = Some (freezeCondition (rc_Meta r) claim report) \<and>
        FindStatusCondition (rc_Meta r) (sp_Conditions patch) ConditionSLOHealthy = Some (rep_condition report) \<and>
        FindStatusCondition (rc_Meta r) (sp_Conditions patch) ConditionResourcesSynced = Some synced \<and>
        FindStatusCondition (rc_Meta r) (sp_Conditions patch) ConditionReady = Some ready \<and>
        report_source w r claim report \<and>
        (cond_Status ready = ConditionTrue \<longrightarrow> cond_Status synced = ConditionTrue))"
proof -
  obtain synced report st ready managed storage now where
    patch: "patch = status_patch claim managed report storage now
          (foldl (SetStatusCondition (rc_Meta r)) (status_Conditions (sc_Status claim))
             ([synced, rep_condition report, freezeCondition (rc_Meta r) claim report] @ st @ [ready]))"
    and src: "report_source w r claim report"
    and types: "cond_Type synced = ConditionResourcesSynced" "cond_Type (rep_condition report) = ConditionSLOHealthy"
      "map cond_Type st \<in> {[], [ConditionStorageReady]}" "cond_Type ready = ConditionReady"
    and needs: "cond_Status ready = ConditionTrue \<longrightarrow>
      cond_Status synced = ConditionTrue \<and> list_all (\<lambda>c. cond_Status c = ConditionTrue) st"
    using assms(2) unfolding status_ok_def by (elim exE conjE) (rule that)
  let ?new = "[synced, rep_condition report, freezeCondition (rc_Meta r) claim report] @ st @ [ready]"
  have frozen: "cond_Type (freezeCondition (rc_Meta r) claim report) = ConditionDeploysFrozen"
    by (simp add: freezeCondition_def Let_def)
  have "map cond_Type ?new \<in> {[ConditionResourcesSynced, ConditionSLOHealthy, ConditionDeploysFrozen, ConditionReady],
      [ConditionResourcesSynced, ConditionSLOHealthy, ConditionDeploysFrozen, ConditionStorageReady, ConditionReady]}"
    using types frozen by auto
  then have d: "distinct (map cond_Type ?new)" by (auto simp: condition_types)
  note found = status_conditions.find_set_all_distinct [OF assms(1) d, of _ "status_Conditions (sc_Status claim)"]
  have "sp_Conditions patch = foldl (SetStatusCondition (rc_Meta r)) (status_Conditions (sc_Status claim)) ?new"
    "sp_ObservedGeneration patch = sc_Generation claim"
    unfolding patch status_patch_def by simp_all
  then show ?thesis
    using found [of synced] found [of "rep_condition report"] found [of "freezeCondition (rc_Meta r) claim report"]
      found [of ready] types frozen src needs
    by (intro conjI exI [of _ report] exI [of _ synced] exI [of _ ready]) simp_all
qed

text \<open>
  C18: what a status write says. It is a write to the claim that was read, at that claim's generation; the
  DeploysFrozen it writes is the freeze decision on that claim for a report that is either unmeasured or
  comes from Prometheus, SLOHealthy is that same report's condition, and Ready is True only together with
  ResourcesSynced.
\<close>

theorem Reconcile_status:
  assumes "status_conditions (rc_Meta r)" and "\<And>c. ConditionToUnstructured (rc_Convert r) c = Inr c"
    and "run_state (Reconcile w r req) tr = (res, tr @ new)" and "ApplyStatus k patch err \<in> set new"
  shows "\<exists>claim report synced ready.
     GetClaim req (Inr claim) \<in> set new \<and> k = claim_key claim \<and> sp_ObservedGeneration patch = sc_Generation claim \<and>
     FindStatusCondition (rc_Meta r) (sp_Conditions patch) ConditionDeploysFrozen = Some (freezeCondition (rc_Meta r) claim report) \<and>
     FindStatusCondition (rc_Meta r) (sp_Conditions patch) ConditionSLOHealthy = Some (rep_condition report) \<and>
     FindStatusCondition (rc_Meta r) (sp_Conditions patch) ConditionResourcesSynced = Some synced \<and>
     FindStatusCondition (rc_Meta r) (sp_Conditions patch) ConditionReady = Some ready \<and>
     (\<not> rep_measured report \<or> (\<exists>h. rc_HasPrometheus r \<and> report = evaluateSLO (Some (w_query w h)) claim)) \<and>
     (cond_Status ready = ConditionTrue \<longrightarrow> cond_Status synced = ConditionTrue)"
proof -
  from appends_run [OF Reconcile_statuses [OF assms(2)] assms(3)] assms(4) obtain claim where
    "GetClaim req (Inr claim) \<in> set new" "k = claim_key claim" "status_ok w r claim patch"
    unfolding statuses_def by (metis list.set_intros(1))
  with status_ok_conditions [OF assms(1) this(3)] show ?thesis by (metis report_source_measured)
qed

section \<open>When a reconcile succeeds\<close>

lemma applied_in_attempted: "attempted new = [] \<Longrightarrow> applied_in new = []"
  by (induction new rule: applied_in.induct) simp_all

lemma finalize_result:
  "appends (finalize w claim) (\<lambda>res new. \<forall>d. res = Inr d \<longrightarrow>
     d = namespaceDeletionPoll \<and> (\<exists>ns. GetNamespace False (NamespaceName claim) (Inr ns) \<in> set new \<and> belongsTo (nso_Labels ns) claim) \<or>
     d = 0 \<and> (Finalizer \<notin> set (sc_Finalizers claim) \<or> ApplyFinalizer (claim_key claim) False None \<in> set new))"
  unfolding finalize_def
  by (auto intro!: appends_intros applyFinalizer_appends simp: of_error_def split: sum.splits option.splits if_splits)

lemma errors_Join_None: "errors_Join errs = None \<longleftrightarrow> (\<forall>e \<in> set errs. e = None)"
  by (induction errs) (auto simp: errors_Join_def List.map_filter_simps split: option.splits list.splits)

lemma applyStatus_result:
  "appends (applyStatus w r claim managed report storage conds) (\<lambda>res new. applied_in new = [] \<and>
     (res = None \<longrightarrow> (\<exists>patch. ApplyStatus (claim_key claim) patch None \<in> set new)))"
  unfolding applyStatus_def Let_def by (auto intro!: appends_intros split: sum.splits)

text \<open>What is left to do after the applies, which ended without an error if \<open>ok\<close>.\<close>

definition tail_result :: "ServiceClaim \<Rightarrow> bool \<Rightarrow> int result \<Rightarrow> event list \<Rightarrow> bool" where
  "tail_result claim ok res new \<longleftrightarrow> applied_in new = [] \<and>
     (\<forall>d. res = Inr d \<longrightarrow> d = sloRefreshInterval \<and> ok \<and> (\<exists>patch. ApplyStatus (claim_key claim) patch None \<in> set new))"

lemma tail_result_bind:
  assumes "appends m P" "\<And>a new. P a new \<Longrightarrow> attempted new = []" "\<And>a. appends (f a) (tail_result claim ok)"
  shows "appends (State_Monad.bind m f) (tail_result claim ok)"
  by (rule appends_bind, rule appends_weaken [OF assms(1)], rule appends_weaken [OF assms(3)])
    (use assms(2) in \<open>auto simp: tail_result_def dest: applied_in_attempted\<close>)

lemma tail_result_end:
  "appends (State_Monad.bind (applyStatus w r claim managed report storage conds)
     (\<lambda>statusErr. State_Monad.return (case statusErr of
         Some e \<Rightarrow> of_error (errors_Join [applyErr, rolloutErr, Some e])
       | None \<Rightarrow> (case errors_Join [applyErr, rolloutErr] of Some e \<Rightarrow> Inl e | None \<Rightarrow> Inr sloRefreshInterval))))
     (tail_result claim (applyErr = None))"
  by (rule appends_bind, rule appends_weaken [OF applyStatus_result])
    (auto intro!: appends_return simp: tail_result_def errors_Join_None of_error_def split: option.splits)

lemma reconcile_objects_result:
  "appends (reconcile_objects w r claim obs) (\<lambda>res new. \<forall>d. res = Inr d \<longrightarrow>
     d = sloRefreshInterval \<and> applied_in new = obs \<and> (\<exists>patch. ApplyStatus (claim_key claim) patch None \<in> set new))"
  unfolding reconcile_objects_def Let_def
proof (rule appends_bind, rule appends_weaken [OF applyObjects_appends], goal_cases)
  case (1 res new)
  obtain applied corrections err where res: "res = (applied, corrections, err)" by (cases res)
  have drift: "appends (if p then reportDrift r claim corrections else State_Monad.return ())
      (\<lambda>res new. attempted new = [])" for p
    by (simp add: appends_return appends_weaken [OF reportDrift_appends])
  show ?case
    unfolding res prod.case
    apply (rule appends_weaken [where P = "tail_result claim (err = None)"])
     apply (rule tail_result_bind [OF drift], assumption)
     apply (rule tail_result_bind [where P = "\<lambda>_ new. attempted new = []"], simp add: appends_ask, assumption)
     apply (rule tail_result_bind [OF evaluateStorage_appends], simp)
     apply (rule tail_result_bind [OF read_rollout_appends], simp)
     apply (simp only: split_beta tail_result_end)
    using 1 unfolding res by (auto simp: tail_result_def apply_outcome_def)
qed

lemma reconcile_invalid_result:
  "appends (reconcile_invalid w r claim e) (\<lambda>res new. \<forall>d. res = Inr d \<longrightarrow>
     d = 0 \<and> (\<exists>patch. ApplyStatus (claim_key claim) patch None \<in> set new))"
  unfolding reconcile_invalid_def Let_def
  by (auto intro!: appends_intros appends_weaken [OF applyStatus_result] simp: of_error_def split: option.splits)

definition reconcile_success :: "ServiceClaimReconciler \<Rightarrow> key \<Rightarrow> int \<Rightarrow> event list \<Rightarrow> bool" where
  "reconcile_success r req d new \<longleftrightarrow>
     (\<exists>e. GetClaim req (Inl e) \<in> set new \<and> is_not_found e \<and> d = 0) \<or>
     (\<exists>claim. GetClaim req (Inr claim) \<in> set new \<and>
        (if sc_DeletionTimestamp claim \<noteq> None then
           d = namespaceDeletionPoll \<and>
             (\<exists>ns. GetNamespace False (NamespaceName claim) (Inr ns) \<in> set new \<and> belongsTo (nso_Labels ns) claim) \<or>
           d = 0 \<and> (Finalizer \<notin> set (sc_Finalizers claim) \<or> ApplyFinalizer (claim_key claim) False None \<in> set new)
         else
           (\<exists>patch. ApplyStatus (claim_key claim) patch None \<in> set new) \<and>
           (case Build claim (rc_Storage r) of
              Inl e \<Rightarrow> d = 0
            | Inr obs \<Rightarrow> d = sloRefreshInterval \<and> applied_in new = obs)))"

lemma reconcile_live_result:
  "appends (reconcile_live w r claim) (\<lambda>res new. \<forall>d. res = Inr d \<longrightarrow>
     (\<exists>patch. ApplyStatus (claim_key claim) patch None \<in> set new) \<and>
     (case Build claim (rc_Storage r) of Inl e \<Rightarrow> d = 0 | Inr obs \<Rightarrow> d = sloRefreshInterval \<and> applied_in new = obs))"
  unfolding reconcile_live_def
  by (cases "Build claim (rc_Storage r)")
    (auto intro!: appends_bind applyFinalizer_appends appends_return appends_weaken [OF reconcile_invalid_result]
      appends_weaken [OF reconcile_objects_result])

lemma Reconcile_success_appends:
  "appends (Reconcile w r req) (\<lambda>res new. \<forall>d. res = Inr d \<longrightarrow> reconcile_success r req d new)"
proof -
  have live: "appends (reconcile_live w r claim) (\<lambda>res new. \<forall>d. res = Inr d \<longrightarrow>
      reconcile_success r req d (GetClaim req (Inr claim) # new))" if "sc_DeletionTimestamp claim = None" for claim
    by (rule appends_weaken [OF reconcile_live_result])
      (use that in \<open>auto simp: reconcile_success_def split: sum.splits intro!: exI [of _ claim]\<close>)
  have fin: "appends (finalize w claim) (\<lambda>res new. \<forall>d. res = Inr d \<longrightarrow>
      reconcile_success r req d (GetClaim req (Inr claim) # new))" if "sc_DeletionTimestamp claim \<noteq> None" for claim
    by (rule appends_weaken [OF finalize_result])
      (use that in \<open>auto simp: reconcile_success_def intro!: exI [of _ claim]\<close>)
  have gone: "is_not_found e \<Longrightarrow> reconcile_success r req 0 [GetClaim req (Inl e)]" for e
    by (simp add: reconcile_success_def)
  show ?thesis
    unfolding Reconcile_def
    by (rule appends_bind, rule appends_call)
      (use live fin gone in \<open>auto intro!: appends_return split: sum.splits\<close>)
qed

text \<open>
  C10: when a reconcile reports success, its work is done and it comes back when it has to: a live claim
  whose spec can be built had every object applied and its status written, and is reconciled again after a
  minute; one whose spec cannot be built had that written; one being deleted is polled while its own
  namespace exists and else has its finalizer released.
\<close>

theorem Reconcile_success:
  assumes "run_state (Reconcile w r req) tr = (Inr d, tr @ new)"
  shows "reconcile_success r req d new"
  using appends_run [OF Reconcile_success_appends assms] by simp

section \<open>Watches\<close>

text \<open>
  C32: every object built for a claim belongs to it, maps back to it and to nothing else, and is of a
  kind that is watched, so a change to any of them reconciles the claim.
\<close>

theorem claimForObject_leads_back:
  assumes "Build claim (rc_Storage r) = Inr obs" and "ob \<in> set obs" and "sc_Name claim \<noteq> []" and "sc_Namespace claim \<noteq> []"
  shows "belongsTo (o_Labels ob) claim \<and> claimForObject (o_Labels ob) = [claim_key claim] \<and>
         (o_APIVersion ob, o_Kind ob) \<in> set (watched_types r)"
proof -
  have "(o_APIVersion ob, o_Kind ob) \<in> set (watched_types r)"
    using Build_kinds_watched [OF assms(1,2)] by (auto simp: watched_types_def HasStorage_def)
  then show ?thesis
    using bs.leads_back [OF assms(1,2)] assms(3,4) by (simp add: belongsTo_def claimForObject_def claim_key_def)
qed

section \<open>Two concrete reconciles\<close>

text \<open>
  A reconciler without optional parts, and an API server that grants every write. It has no Rollout
  yet, and the claim and the answer to a read of the claim's namespace are given.
\<close>

definition example_reconciler :: ServiceClaimReconciler where
  "example_reconciler =
     \<lparr>rc_HasPrometheus = False, rc_HasAPIReader = False, rc_HasRecorder = True, rc_Storage = None, rc_Meta = apimachinery,
      rc_Ack = \<lparr>NestedStatus = (\<lambda>j. Inr None), ConditionsFromUnstructured = (\<lambda>j. Inr [])\<rparr>,
      rc_Convert = \<lparr>ToUnstructured = (\<lambda>ob. Inr (JString (o_Name ob))), RemoveNestedField = (\<lambda>j path. j),
        TypeName = o_Kind, ConditionToUnstructured = Inr\<rparr>\<rparr>"

definition granting_world :: "ServiceClaim \<Rightarrow> NamespaceObject result \<Rightarrow> world" where
  "granting_world claim ns =
     \<lparr>w_getClaim = (\<lambda>tr k. Inr claim), w_getNamespace = (\<lambda>tr live name. ns), w_readLive = (\<lambda>tr ob. Inr []),
      w_applyObject = (\<lambda>tr ob u. Inr []), w_deleteNamespace = (\<lambda>tr name. None),
      w_applyFinalizer = (\<lambda>tr k present. None), w_applyStatus = (\<lambda>tr k patch. None),
      w_getRollout = (\<lambda>tr live k. Inl (NotFound ''no rollout'')), w_getACK = (\<lambda>tr live gvk k. (JObject [], None)),
      w_query = (\<lambda>tr q. Inl (Errorf ''down'')), w_now = (\<lambda>tr. ''2026-01-01T00:00:00Z'')\<rparr>"

lemma example_reconciler_laws:
  "status_conditions (rc_Meta example_reconciler)" "ConditionToUnstructured (rc_Convert example_reconciler) c = Inr c"
  by (simp_all add: example_reconciler_def am.status_conditions_axioms)

lemmas run_defs = State_Monad.bind_def State_Monad.return_def call_def ask_def tell_def Let_def

text \<open>The same with a Prometheus that is asked, and what it answers.\<close>

definition measuring_world :: "ServiceClaim \<Rightarrow> NamespaceObject result \<Rightarrow> (history \<Rightarrow> string \<Rightarrow> float64 result) \<Rightarrow> world" where
  "measuring_world claim ns q = (granting_world claim ns)\<lparr>w_query := q\<rparr>"

definition measuring_reconciler :: "bool \<Rightarrow> ServiceClaimReconciler" where
  "measuring_reconciler p = example_reconciler\<lparr>rc_HasPrometheus := p\<rparr>"

lemma measuring_plain:
  "measuring_world claim ns (\<lambda>h q. Inl (Errorf ''down'')) = granting_world claim ns"
  "measuring_reconciler False = example_reconciler"
  by (simp_all add: measuring_world_def granting_world_def measuring_reconciler_def example_reconciler_def)

lemmas measuring_defs = measuring_world_def granting_world_def measuring_reconciler_def example_reconciler_def

lemma measuring_reconciler_laws:
  "status_conditions (rc_Meta (measuring_reconciler p))" "ConditionToUnstructured (rc_Convert (measuring_reconciler p)) c = Inr c"
  by (simp_all add: measuring_reconciler_def example_reconciler_laws)

lemma granted_apply_loop:
  "run_state (apply_loop (measuring_world claim ns q) (measuring_reconciler p) i cs obs) tr =
     ((i + length obs, cs, None), tr @ map (\<lambda>ob. ApplyObject ob (JString (o_Name ob)) (Inr [])) obs)"
  by (induction obs arbitrary: i tr) (simp_all add: run_defs toApplyObject_def liveOwnership_def measuring_defs)

lemma granted_status:
  "run_state (applyStatus (measuring_world claim ns q) (measuring_reconciler p) c managed report storage conds) tr =
     (None, tr @ [ApplyStatus (claim_key c) (status_patch c managed report storage ''2026-01-01T00:00:00Z''
        (foldl set_condition (status_Conditions (sc_Status c)) conds)) None])"
proof -
  have "traverse (\<lambda>c. map_error (f c) (Inr c)) cs = Inr cs" for f :: "condition \<Rightarrow> error \<Rightarrow> error" and cs
    using traverse_total [of cs "\<lambda>c. map_error (f c) (Inr c)" id] by simp
  then show ?thesis
    by (simp add: applyStatus_def run_defs measuring_defs apimachinery_def)
qed

lemma run_bindI:
  "run_state m tr = (a, tr') \<Longrightarrow> run_state (f a) tr' = x \<Longrightarrow> run_state (State_Monad.bind m f) tr = x"
  by (simp add: State_Monad.bind_def)

lemma run_return: "run_state (State_Monad.return x) tr = (x, tr)"
  by (simp add: State_Monad.return_def)

lemma run_ask: "run_state (ask answer) tr = (answer tr, tr)"
  by (simp add: ask_def)

lemma granted_objects:
  assumes "\<not> spec_Storage (sc_Spec claim)" and sync: "\<not> inSyncAtGeneration apimachinery claim"
  shows "\<exists>tr' k patch e. run_state (reconcile_objects (measuring_world claim ns q) (measuring_reconciler p) claim obs) tr =
    (Inr sloRefreshInterval, tr') \<and> tr' = tr @ map (\<lambda>ob. ApplyObject ob (JString (o_Name ob)) (Inr [])) obs
       @ [GetRollout False k (Inl e), ApplyStatus (claim_key claim) patch None]"
proof -
  let ?w = "measuring_world claim ns q" and ?r = "measuring_reconciler p"
  have meta: "rc_Meta ?r = apimachinery" by (simp add: measuring_defs)
  have objects: "run_state (applyObjects ?w ?r obs) tr =
      ((length obs, [], None), tr @ map (\<lambda>ob. ApplyObject ob (JString (o_Name ob)) (Inr [])) obs)"
    by (simp add: applyObjects_def granted_apply_loop)
  have storage: "run_state (evaluateStorage ?w ?r claim) h = (\<lparr>sr_condition = None, sr_status = None\<rparr>, h)" for h
    using assms(1) by (simp add: evaluateStorage_def run_return)
  have rollout: "\<exists>k e. run_state (read_rollout ?w ?r claim None) h = ((zero_rollout, Some (NotFound e)),
      h @ [GetRollout False k (Inl (NotFound ''no rollout''))])" for h
    by (simp add: read_rollout_def run_defs measuring_defs)
  obtain k e where r: "run_state (read_rollout ?w ?r claim None) (snd (run_state (applyObjects ?w ?r obs) tr)) =
      ((zero_rollout, Some (NotFound e)), snd (run_state (applyObjects ?w ?r obs) tr) @ [GetRollout False k (Inl (NotFound ''no rollout''))])"
    using rollout by blast
  show ?thesis
    unfolding reconcile_objects_def Let_def
    apply (rule exI [where P = "\<lambda>tr'. \<exists>k. P tr' k" for P], rule exI [of _ k], intro exI conjI)
     apply (rule run_bindI [OF objects], unfold prod.case)
     apply (rule run_bindI, simp add: meta sync run_return)
     apply (rule run_bindI [OF run_ask])
     apply (rule run_bindI [OF storage])
     apply (rule run_bindI [OF r [unfolded objects snd_conv]], unfold prod.case)
     apply (rule run_bindI [OF granted_status])
     apply (simp add: run_return errors_Join_def List.map_filter_def)
    apply simp
    done
qed

text \<open>The reconcile of a claim that was not in sync.\<close>

lemma measured_reconcile_of:
  assumes "Build claim None = Inr obs" and live: "sc_DeletionTimestamp claim = None" "Finalizer \<notin> set (sc_Finalizers claim)"
    "\<not> spec_Storage (sc_Spec claim)" "\<not> inSyncAtGeneration apimachinery claim"
  shows "\<exists>k patch e. run_state (Reconcile (measuring_world claim ns q) (measuring_reconciler p) req) [] =
    (Inr sloRefreshInterval, [] @ GetClaim req (Inr claim) # ApplyFinalizer (claim_key claim) True None #
       map (\<lambda>ob. ApplyObject ob (JString (o_Name ob)) (Inr [])) obs
       @ [GetRollout False k (Inl e), ApplyStatus (claim_key claim) patch None])"
proof -
  let ?w = "measuring_world claim ns q"
  have get: "w_getClaim ?w tr req = Inr claim" and fin: "w_applyFinalizer ?w tr key True = None" for tr key
    by (simp_all add: measuring_defs)
  have none: "rc_Storage (measuring_reconciler p) = None" by (simp add: measuring_defs)
  show ?thesis
    using granted_objects [OF live(3,4), of ns q p obs "[GetClaim req (Inr claim), ApplyFinalizer (claim_key claim) True None]"]
    by (auto simp: Reconcile_def reconcile_live_def applyFinalizer_def run_defs get fin none live(1,2) assms(1))
qed

lemma new_claim_unsynced: "status_Conditions (sc_Status claim) = [] \<Longrightarrow> \<not> inSyncAtGeneration apimachinery claim"
  by (simp add: inSyncAtGeneration_def apimachinery_def find_condition_def)

lemma granted_reconcile_of:
  assumes "Build claim None = Inr obs" and "sc_DeletionTimestamp claim = None" "Finalizer \<notin> set (sc_Finalizers claim)"
    "\<not> spec_Storage (sc_Spec claim)" "status_Conditions (sc_Status claim) = []"
  shows "\<exists>k patch e. run_state (Reconcile (granting_world claim ns) example_reconciler req) [] =
    (Inr sloRefreshInterval, [] @ GetClaim req (Inr claim) # ApplyFinalizer (claim_key claim) True None #
       map (\<lambda>ob. ApplyObject ob (JString (o_Name ob)) (Inr [])) obs
       @ [GetRollout False k (Inl e), ApplyStatus (claim_key claim) patch None])"
  using measured_reconcile_of [OF assms(1-4) new_claim_unsynced [OF assms(5)], of ns "\<lambda>h q. Inl (Errorf ''down'')" False]
  by (simp add: measuring_plain)

lemma granted_reconcile:
  assumes "Build example_claim None = Inr obs"
  shows "\<exists>k patch e. run_state (Reconcile (granting_world example_claim ns) example_reconciler req) [] =
    (Inr sloRefreshInterval, [] @ GetClaim req (Inr example_claim) # ApplyFinalizer (claim_key example_claim) True None #
       map (\<lambda>ob. ApplyObject ob (JString (o_Name ob)) (Inr [])) obs
       @ [GetRollout False k (Inl e), ApplyStatus (claim_key example_claim) patch None])"
  by (rule granted_reconcile_of [OF assms]) (simp_all add: example_claim_def)

lemma attempted_map [simp]: "attempted (map (\<lambda>ob. ApplyObject ob (u ob) (a ob)) obs) = obs"
  by (induction obs) simp_all

text \<open>A claim that is being deleted, with its finalizer, and its namespace.\<close>

definition deleted_claim :: ServiceClaim where
  "deleted_claim = example_claim\<lparr>sc_DeletionTimestamp := Some ''2026-01-01T00:00:00Z'', sc_Finalizers := [Finalizer]\<rparr>"

definition example_namespace :: NamespaceObject where
  "example_namespace =
     \<lparr>nso_Name = ''svc-shortlink'', nso_Labels = [LabelClaim \<mapsto> ''shortlink'', LabelClaimNamespace \<mapsto> ''default''],
      nso_DeletionTimestamp = None\<rparr>"

lemma deleted_simps [simp]:
  "sc_DeletionTimestamp deleted_claim = Some ''2026-01-01T00:00:00Z''" "sc_Finalizers deleted_claim = [Finalizer]"
  "belongsTo (nso_Labels example_namespace) deleted_claim" "nso_DeletionTimestamp example_namespace = None"
  by (simp_all add: deleted_claim_def example_namespace_def belongsTo_def example_claim_def object_label_defs map_get_def)

definition deleting_events :: "event list" where
  "deleting_events =
     [GetClaim (''default'', ''shortlink'') (Inr deleted_claim), GetNamespace False (NamespaceName deleted_claim) (Inr example_namespace),
      DeleteNamespace (nso_Name example_namespace) None]"

definition releasing_events :: "event list" where
  "releasing_events =
     [GetClaim (''default'', ''shortlink'') (Inr deleted_claim), GetNamespace False (NamespaceName deleted_claim) (Inl (NotFound ''gone'')),
      ApplyFinalizer (claim_key deleted_claim) False None]"

lemma deleting_reconcile:
  "run_state (Reconcile (granting_world deleted_claim (Inr example_namespace)) r (''default'', ''shortlink'')) [] =
     (Inr namespaceDeletionPoll, [] @ deleting_events)"
  by (simp add: deleting_events_def Reconcile_def finalize_def run_defs granting_world_def)

lemma releasing_reconcile:
  "run_state (Reconcile (granting_world deleted_claim (Inl (NotFound ''gone''))) r (''default'', ''shortlink'')) [] =
     (Inr 0, [] @ releasing_events)"
  by (simp add: releasing_events_def Reconcile_def finalize_def applyFinalizer_def of_error_def run_defs granting_world_def)

theorem Reconcile_deletes_own_namespace_witness:
  "run_state (Reconcile (granting_world deleted_claim (Inr example_namespace)) example_reconciler (''default'', ''shortlink'')) [] =
     (Inr namespaceDeletionPoll, [] @ deleting_events) \<and>
   (\<exists>claim copy. deleting_events = [GetClaim (''default'', ''shortlink'') (Inr claim),
        GetNamespace False (NamespaceName claim) (Inr copy), DeleteNamespace ''svc-shortlink'' None] \<and>
      sc_DeletionTimestamp claim \<noteq> None \<and> Finalizer \<in> set (sc_Finalizers claim) \<and> belongsTo (nso_Labels copy) claim)"
proof -
  have "DeleteNamespace ''svc-shortlink'' None \<in> set deleting_events" by (simp add: deleting_events_def example_namespace_def)
  from Reconcile_deletes_own_namespace [OF deleting_reconcile [of example_reconciler] this] show ?thesis
    using deleting_reconcile [of example_reconciler] by blast
qed

lemma example_reconcile:
  obtains obs new patch where "Build example_claim None = Inr obs" "obs \<noteq> []"
    "run_state (Reconcile (granting_world example_claim (Inr example_namespace)) example_reconciler (''default'', ''shortlink'')) [] =
      (Inr sloRefreshInterval, [] @ new)"
    "\<And>k claim. GetClaim k (Inr claim) \<in> set new \<Longrightarrow> claim = example_claim" "attempted new = obs"
    "ApplyStatus (claim_key example_claim) patch None \<in> set new"
proof -
  obtain obs where b: "Build example_claim None = Inr obs"
    using example_Build [of None] unfolding succeeds_iff by blast
  from granted_reconcile [OF b, of "Inr example_namespace" "(''default'', ''shortlink'')"] obtain k patch e where
    run: "run_state (Reconcile (granting_world example_claim (Inr example_namespace)) example_reconciler (''default'', ''shortlink'')) [] =
      (Inr sloRefreshInterval, [] @ GetClaim (''default'', ''shortlink'') (Inr example_claim) #
       ApplyFinalizer (claim_key example_claim) True None #
       map (\<lambda>ob. ApplyObject ob (JString (o_Name ob)) (Inr [])) obs
       @ [GetRollout False k (Inl e), ApplyStatus (claim_key example_claim) patch None])" by blast
  show thesis by (rule that [OF b conjunct1 [OF bs.nonempty [OF b]] run]) auto
qed

theorem Reconcile_applies_behind_finalizer_witness:
  "\<exists>new. run_state (Reconcile (granting_world example_claim (Inr example_namespace)) example_reconciler (''default'', ''shortlink'')) [] =
      (Inr sloRefreshInterval, [] @ new) \<and> hd (attempted new) = BuildNamespace example_claim"
proof (rule example_reconcile)
  fix obs new patch
  assume "obs \<noteq> []" and run: "run_state (Reconcile (granting_world example_claim (Inr example_namespace)) example_reconciler (''default'', ''shortlink'')) [] =
      (Inr sloRefreshInterval, [] @ new)" and c: "\<And>k claim. GetClaim k (Inr claim) \<in> set new \<Longrightarrow> claim = example_claim"
    and "attempted new = obs"
  then have "attempted new \<noteq> []" by simp
  from Reconcile_applies_behind_finalizer [OF run this] have "hd (attempted new) = BuildNamespace example_claim"
    using c by (metis list.set_intros(1))
  with run show ?thesis by blast
qed

theorem Reconcile_status_witness:
  "\<exists>new patch. run_state (Reconcile (granting_world example_claim (Inr example_namespace)) example_reconciler (''default'', ''shortlink'')) [] =
      (Inr sloRefreshInterval, [] @ new) \<and> ApplyStatus (claim_key example_claim) patch None \<in> set new \<and>
      sp_ObservedGeneration patch = 1"
proof (rule example_reconcile)
  fix obs new patch
  assume run: "run_state (Reconcile (granting_world example_claim (Inr example_namespace)) example_reconciler (''default'', ''shortlink'')) [] =
      (Inr sloRefreshInterval, [] @ new)" and c: "\<And>k claim. GetClaim k (Inr claim) \<in> set new \<Longrightarrow> claim = example_claim"
    and st: "ApplyStatus (claim_key example_claim) patch None \<in> set new"
  from Reconcile_status [OF example_reconciler_laws run st] have "sp_ObservedGeneration patch = sc_Generation example_claim"
    using c by metis
  with run st show ?thesis by (metis example_claim_def ServiceClaim.select_convs(5))
qed

theorem Reconcile_success_witness:
  "\<exists>new. run_state (Reconcile (granting_world example_claim (Inr example_namespace)) example_reconciler (''default'', ''shortlink'')) [] =
      (Inr sloRefreshInterval, [] @ new) \<and> reconcile_success example_reconciler (''default'', ''shortlink'') sloRefreshInterval new"
proof (rule example_reconcile)
  fix obs new patch
  assume run: "run_state (Reconcile (granting_world example_claim (Inr example_namespace)) example_reconciler (''default'', ''shortlink'')) [] =
      (Inr sloRefreshInterval, [] @ new)"
  with Reconcile_success [OF run] show ?thesis by blast
qed

theorem claimForObject_leads_back_witness:
  "claimForObject (o_Labels (BuildNamespace example_claim)) = [(''default'', ''shortlink'')]"
proof (rule example_reconcile)
  fix obs new patch
  assume b: "Build example_claim None = Inr obs"
  have b': "Build example_claim (rc_Storage example_reconciler) = Inr obs" using b by (simp add: example_reconciler_def)
  obtain rest where "obs = BuildNamespace example_claim # rest" using bs.namespace_first [OF b] by blast
  then have "BuildNamespace example_claim \<in> set obs" by simp
  from claimForObject_leads_back [OF b' this] show ?thesis by (simp add: example_claim_def claim_key_def)
qed

end
