(* ===== verification/Freeze_Cycle.thy ===== *)
theory Freeze_Cycle
  imports Ctl_Reconcile Webhook
begin

text \<open>
  The two halves of the freeze together: the controller decides it and writes it to the claim's status,
  the webhook enforces it on updates of the claim. They only share the stored claim. This theory holds what each does to
  it, an admitted update and the write of a status, and what a write tells of the measurement it was decided on;
  \<open>Freeze_Cache\<close> interleaves the two.
\<close>

section \<open>The stored claim and the audit trail\<close>

record cluster =
  cl_Claim :: ServiceClaim
  cl_Audit :: "k8s_event list"

text \<open>What the API server stores for a status write: the controller owns every field, and one it leaves out is cleared.\<close>

definition patched :: "StatusPatch \<Rightarrow> ServiceClaimStatus" where
  "patched patch =
     \<lparr>status_Conditions = sp_Conditions patch,
      status_ErrorBudgetRemaining = (case sp_ErrorBudgetRemaining patch of None \<Rightarrow> [] | Some v \<Rightarrow> v),
      status_BurnRate1h = (case sp_BurnRate1h patch of None \<Rightarrow> [] | Some v \<Rightarrow> v),
      status_ManagedResources = (case sp_ManagedResources patch of None \<Rightarrow> 0 | Some n \<Rightarrow> n),
      status_ObservedGeneration = sp_ObservedGeneration patch, status_LastReconcileTime = Some (sp_LastReconcileTime patch),
      status_Storage = sp_Storage patch\<rparr>"

definition write_status :: "StatusPatch \<Rightarrow> cluster \<Rightarrow> cluster" where
  "write_status patch s = s\<lparr>cl_Claim := (cl_Claim s)\<lparr>sc_Status := patched patch\<rparr>\<rparr>"

text \<open>
  An update by a user that the webhook, with a recorder, admits and that is not a dry run; updates of the
  claim do not touch its status.
\<close>

definition admitted_update :: "ServiceClaimReconciler \<Rightarrow> cluster \<Rightarrow> admission_request \<Rightarrow> ServiceClaim \<Rightarrow> cluster \<Rightarrow> bool" where
  "admitted_update r s req new s' \<longleftrightarrow>
     (\<exists>warnings events. ValidateUpdate (rc_Meta r) registered_validator (Inr req) (cl_Claim s) new = (Inr warnings, events) \<and>
        req_DryRun req \<noteq> Some True \<and> claim_key new = claim_key (cl_Claim s) \<and> sc_Status new = sc_Status (cl_Claim s) \<and>
        s' = \<lparr>cl_Claim = new, cl_Audit = cl_Audit s @ events\<rparr>)"

text \<open>Such an update, or a status write of a reconcile in some world, with the version of the claim the reconcile read.\<close>

datatype transition =
    UserUpdate admission_request ServiceClaim
  | StatusWrite world ServiceClaim

definition frozen :: "ServiceClaimReconciler \<Rightarrow> cluster \<Rightarrow> bool" where
  "frozen r s \<longleftrightarrow> was_frozen (rc_Meta r) (cl_Claim s)"

text \<open>The budget a status write measured.\<close>

definition measures :: "transition \<Rightarrow> float64 \<Rightarrow> bool" where
  "measures t remaining \<longleftrightarrow>
     (\<exists>w claim h. t = StatusWrite w claim \<and> rep_measured (evaluateSLO (Some (w_query w h)) claim) \<and>
        remaining = rep_remaining (evaluateSLO (Some (w_query w h)) claim))"

definition budget_spent :: "transition \<Rightarrow> bool" where
  "budget_spent t \<longleftrightarrow> (\<exists>remaining. measures t remaining \<and> f_le remaining (Fin 0))"

definition budget_back :: "transition \<Rightarrow> bool" where
  "budget_back t \<longleftrightarrow>
     (\<exists>remaining. measures t remaining \<and> \<not> f_le remaining (Fin 0) \<and> \<not> f_less remaining UnfreezeBudget)"

section \<open>What a write tells\<close>

text \<open>The webhook and the controller read the freeze alike.\<close>

lemma webhook_reads_freeze:
  assumes "status_conditions meta"
  shows "IsStatusConditionTrue meta (status_Conditions (sc_Status claim)) ConditionDeploysFrozen \<longleftrightarrow> was_frozen meta claim"
  by (auto simp: status_conditions.is_true_iff [OF assms] was_frozen_def split: option.splits)

lemma updated_keeps_freeze: "admitted_update r s req new s' \<Longrightarrow> frozen r s' = frozen r s"
  by (auto simp: admitted_update_def frozen_def was_frozen_def)

text \<open>
  A status write leaves the claim frozen as the freeze decision on the version it read says, for a report that
  comes from that reconcile.
\<close>

lemma status_write_freeze:
  assumes "status_conditions (rc_Meta r)" "\<And>c. ConditionToUnstructured (rc_Convert r) c = Inr c"
    and "run_state (Reconcile w r req) tr = (res, tr @ GetClaim k (Inr claim) # rest)" "ApplyStatus k' patch err \<in> set rest"
  obtains report where "report_source w r claim report"
    "\<forall>s. frozen r (write_status patch s) \<longleftrightarrow> cond_Status (freezeCondition (rc_Meta r) claim report) = ConditionTrue"
proof -
  from appends_run [OF Reconcile_statuses [OF assms(2)] assms(3)] assms(4) have "status_ok w r claim patch"
    unfolding statuses_def by (cases k') auto
  from status_ok_conditions [OF assms(1) this] obtain report where src: "report_source w r claim report" and
    found: "FindStatusCondition (rc_Meta r) (sp_Conditions patch) ConditionDeploysFrozen = Some (freezeCondition (rc_Meta r) claim report)"
    by blast
  from found have "frozen r (write_status patch s) \<longleftrightarrow> cond_Status (freezeCondition (rc_Meta r) claim report) = ConditionTrue" for s
    by (simp add: frozen_def was_frozen_def patched_def write_status_def)
  with src that show thesis by blast
qed

text \<open>So what it writes is what it read, unless it measured the budget on one side of its thresholds.\<close>

lemma status_write_changes:
  assumes "status_conditions (rc_Meta r)" "\<And>c. ConditionToUnstructured (rc_Convert r) c = Inr c"
    and "run_state (Reconcile w r req) tr = (res, tr @ GetClaim k (Inr claim) # rest)" "ApplyStatus k' patch err \<in> set rest"
  shows "\<not> frozen r (write_status patch s) \<Longrightarrow> budget_back (StatusWrite w claim) \<or> \<not> was_frozen (rc_Meta r) claim"
    and "frozen r (write_status patch s) \<Longrightarrow> budget_spent (StatusWrite w claim) \<or> was_frozen (rc_Meta r) claim"
proof -
  obtain report where src: "report_source w r claim report"
    and after: "\<forall>s. frozen r (write_status patch s) \<longleftrightarrow> cond_Status (freezeCondition (rc_Meta r) claim report) = ConditionTrue"
    by (rule status_write_freeze [OF assms])
  have m: "measures (StatusWrite w claim) (rep_remaining report)" if "rep_measured report"
    using report_source_measured [OF src] that unfolding measures_def by blast
  show "\<not> frozen r (write_status patch s) \<Longrightarrow> budget_back (StatusWrite w claim) \<or> \<not> was_frozen (rc_Meta r) claim"
    using m after unfolding budget_back_def by (auto simp: freezeCondition_def Let_def split: if_splits)
  show "frozen r (write_status patch s) \<Longrightarrow> budget_spent (StatusWrite w claim) \<or> was_frozen (rc_Meta r) claim"
    using m after unfolding budget_spent_def by (auto simp: freezeCondition_def Let_def split: if_splits)
qed

section \<open>Image changes during a freeze\<close>

definition break_glass_event :: "key \<Rightarrow> k8s_event \<Rightarrow> bool" where
  "break_glass_event k e \<longleftrightarrow> ev_Reason e = ReasonBreakGlassUsed \<and> ev_Type e = ''Warning'' \<and> ev_Regarding e = k"

text \<open>The audit trail only grows, and an image that changed left a break-glass Event on the claim.\<close>

definition audited :: "cluster \<Rightarrow> cluster \<Rightarrow> bool" where
  "audited s s' \<longleftrightarrow>
     claim_key (cl_Claim s') = claim_key (cl_Claim s) \<and>
     (\<exists>events. cl_Audit s' = cl_Audit s @ events \<and>
        (spec_Image (sc_Spec (cl_Claim s')) = spec_Image (sc_Spec (cl_Claim s)) \<or>
         (\<exists>e \<in> set events. break_glass_event (claim_key (cl_Claim s)) e)))"

lemma audited_refl: "audited s s"
  by (simp add: audited_def)

lemma audited_trans: "audited s s' \<Longrightarrow> audited s' s'' \<Longrightarrow> audited s s''"
  unfolding audited_def by fastforce

lemma updated_audited:
  assumes "status_conditions (rc_Meta r)" "frozen r s" "admitted_update r s req new s'"
  shows "audited s s'"
proof -
  from assms(3) obtain warnings events where
    v: "ValidateUpdate (rc_Meta r) registered_validator (Inr req) (cl_Claim s) new = (Inr warnings, events)"
    and dry: "req_DryRun req \<noteq> Some True" and key: "claim_key new = claim_key (cl_Claim s)"
    and s': "s' = \<lparr>cl_Claim = new, cl_Audit = cl_Audit s @ events\<rparr>"
    unfolding admitted_update_def by blast
  have "spec_Image (sc_Spec new) = spec_Image (sc_Spec (cl_Claim s)) \<or>
      (\<exists>e \<in> set events. break_glass_event (claim_key (cl_Claim s)) e)"
    using v dry key assms(2) webhook_reads_freeze [OF assms(1)]
    by (auto simp: ValidateUpdate_def Let_def frozen_def break_glass_event_def claim_key_def split: if_splits option.splits)
  with key show ?thesis unfolding audited_def s' by simp
qed

lemma written_audited: "audited s (write_status patch s)"
  by (simp add: audited_def write_status_def claim_key_def)

text \<open>A claim whose deploys are frozen and a break-glass update of it, for the witnesses.\<close>

definition frozen_cluster :: cluster where
  "frozen_cluster = \<lparr>cl_Claim = frozen_example, cl_Audit = []\<rparr>"

definition example_request :: admission_request where
  "example_request = \<lparr>req_Username = ''ada'', req_DryRun = None\<rparr>"

lemma example_frozen: "frozen example_reconciler frozen_cluster"
  by (simp add: frozen_def was_frozen_def frozen_cluster_def example_reconciler_def apimachinery_def find_condition_def
      frozen_example_def condition_types)

lemma example_update:
  "\<exists>events. admitted_update example_reconciler frozen_cluster example_request (break_glass_update ''outage'')
     \<lparr>cl_Claim = break_glass_update ''outage'', cl_Audit = events\<rparr>"
proof -
  have t: "TrimSpace ''outage'' = ''outage''" by code_simp
  have "\<exists>ws events. ValidateUpdate (rc_Meta example_reconciler) registered_validator (Inr example_request) frozen_example (break_glass_update ''outage'') = (Inr ws, events)"
    by (simp add: ValidateUpdate_def Let_def breakGlassReason_def break_glass_update_def BreakGlassAnnotation_def t)
      (simp add: frozen_example_def)
  then show ?thesis
    unfolding admitted_update_def
    by (fastforce simp: frozen_cluster_def example_request_def break_glass_update_def claim_key_def)
qed

end
