(* ===== verification/Freeze_Cache.thy ===== *)
theory Freeze_Cache
  imports Freeze_Cycle
begin

text \<open>
  The freeze when the controller reads the claim through its cache. \<open>Reconcile\<close> gets the claim from the manager's client,
  whose cache may still hold an earlier version, and \<open>applyStatus\<close> writes by forced server-side apply without a resource
  version, so nothing rejects what was decided on one. The webhook is handed the stored claim by the API server.
\<close>

section \<open>Reads of earlier versions\<close>

text \<open>The store, and the earlier versions of the claim that a cache may still show.\<close>

record cached_cluster =
  ca_Cluster :: cluster
  ca_Past :: "ServiceClaim list"

definition versions :: "cached_cluster \<Rightarrow> ServiceClaim set" where
  "versions s = insert (cl_Claim (ca_Cluster s)) (set (ca_Past s))"

definition next_version :: "cached_cluster \<Rightarrow> cluster \<Rightarrow> cached_cluster" where
  "next_version s c = \<lparr>ca_Cluster = c, ca_Past = cl_Claim (ca_Cluster s) # ca_Past s\<rparr>"

inductive cached_step :: "ServiceClaimReconciler \<Rightarrow> cached_cluster \<Rightarrow> transition \<Rightarrow> cached_cluster \<Rightarrow> bool" for r where
  cached_updated: "admitted_update r (ca_Cluster s) req new c \<Longrightarrow> cached_step r s (UserUpdate req new) (next_version s c)"
| cached_reconciled: "claim \<in> versions s \<Longrightarrow>
    run_state (Reconcile w r (claim_key (cl_Claim (ca_Cluster s)))) tr = (res, tr @ GetClaim k (Inr claim) # rest) \<Longrightarrow>
    ApplyStatus (claim_key (cl_Claim (ca_Cluster s))) patch None \<in> set rest \<Longrightarrow>
    cached_step r s (StatusWrite w claim) (next_version s (write_status patch (ca_Cluster s)))"

inductive_cases cached_stepE: "cached_step r s t s'"

inductive cached_run :: "ServiceClaimReconciler \<Rightarrow> cached_cluster \<Rightarrow> transition list \<Rightarrow> cached_cluster \<Rightarrow> bool" for r where
  cached_idle: "cached_run r s [] s"
| cached_again: "cached_step r s t s' \<Longrightarrow> cached_run r s' ts s'' \<Longrightarrow> cached_run r s (t # ts) s''"

abbreviation frozen_now :: "ServiceClaimReconciler \<Rightarrow> cached_cluster \<Rightarrow> bool" where
  "frozen_now r s \<equiv> frozen r (ca_Cluster s)"

section \<open>What holds whatever is read\<close>

text \<open>A status write that decided on a version of the claim from outside the freeze, or inside one.\<close>

definition read_frozen :: "ServiceClaimReconciler \<Rightarrow> transition \<Rightarrow> bool" where
  "read_frozen r t \<longleftrightarrow> (\<exists>w claim. t = StatusWrite w claim \<and> was_frozen (rc_Meta r) claim)"

definition read_unfrozen :: "ServiceClaimReconciler \<Rightarrow> transition \<Rightarrow> bool" where
  "read_unfrozen r t \<longleftrightarrow> (\<exists>w claim. t = StatusWrite w claim \<and> \<not> was_frozen (rc_Meta r) claim)"

lemma cached_reconciled_freeze:
  assumes "status_conditions (rc_Meta r)" "\<And>c. ConditionToUnstructured (rc_Convert r) c = Inr c"
    and "cached_step r s (StatusWrite w claim) s'"
  shows "\<not> frozen_now r s' \<Longrightarrow> budget_back (StatusWrite w claim) \<or> \<not> was_frozen (rc_Meta r) claim"
    and "frozen_now r s' \<Longrightarrow> budget_spent (StatusWrite w claim) \<or> was_frozen (rc_Meta r) claim"
    and "audited (ca_Cluster s) (ca_Cluster s')" and "claim \<in> versions s"
proof -
  from assms(3) obtain tr res k rest patch where "claim \<in> versions s" and
    run: "run_state (Reconcile w r (claim_key (cl_Claim (ca_Cluster s)))) tr = (res, tr @ GetClaim k (Inr claim) # rest)"
    and st: "ApplyStatus (claim_key (cl_Claim (ca_Cluster s))) patch None \<in> set rest"
    and s': "ca_Cluster s' = write_status patch (ca_Cluster s)"
    by (auto elim!: cached_stepE simp: next_version_def)
  then show "audited (ca_Cluster s) (ca_Cluster s')" "claim \<in> versions s" by (simp_all add: written_audited)
  show "\<not> frozen_now r s' \<Longrightarrow> budget_back (StatusWrite w claim) \<or> \<not> was_frozen (rc_Meta r) claim"
    "frozen_now r s' \<Longrightarrow> budget_spent (StatusWrite w claim) \<or> was_frozen (rc_Meta r) claim"
    unfolding s' using status_write_changes [OF assms(1,2) run st] by blast+
qed

lemma cached_updated_freeze:
  "cached_step r s (UserUpdate req new) s' \<Longrightarrow> frozen_now r s' = frozen_now r s"
  by (auto elim!: cached_stepE simp: next_version_def updated_keeps_freeze)

lemma cached_step_changes:
  assumes "status_conditions (rc_Meta r)" "\<And>c. ConditionToUnstructured (rc_Convert r) c = Inr c" "cached_step r s t s'"
  shows "frozen_now r s \<Longrightarrow> \<not> frozen_now r s' \<Longrightarrow> budget_back t \<or> read_unfrozen r t"
    and "\<not> frozen_now r s \<Longrightarrow> frozen_now r s' \<Longrightarrow> budget_spent t \<or> read_frozen r t"
  using assms(3) cached_reconciled_freeze(1,2) [OF assms(1,2)] cached_updated_freeze [of r s _ _ s']
  unfolding read_frozen_def read_unfrozen_def by (cases t; blast)+

text \<open>The webhook sees the stored claim, so the audit does not depend on what the controller read.\<close>

lemma cached_step_audited:
  assumes "status_conditions (rc_Meta r)" "\<And>c. ConditionToUnstructured (rc_Convert r) c = Inr c"
    and "frozen_now r s" "cached_step r s t s'"
  shows "audited (ca_Cluster s) (ca_Cluster s')"
proof (cases t)
  case (UserUpdate req new)
  with assms(4) have "admitted_update r (ca_Cluster s) req new (ca_Cluster s')"
    by (auto elim!: cached_stepE simp: next_version_def)
  then show ?thesis by (rule updated_audited [OF assms(1,3)])
next
  case (StatusWrite w claim)
  with cached_reconciled_freeze(3) [OF assms(1,2)] assms(4) show ?thesis by blast
qed

text \<open>
  C5: what a freeze promises without trusting the cache. Whatever versions of the claim the reconciles read, a frozen
  claim stays frozen, with every change of its image audited, until a reconcile measures at least 5% of the
  budget or reads a version of the claim in which deploys are not frozen.
\<close>

theorem freeze_with_cached_reads:
  assumes "status_conditions (rc_Meta r)" and "\<And>c. ConditionToUnstructured (rc_Convert r) c = Inr c"
    and "cached_run r s ts s'" and "frozen_now r s" and "\<forall>t \<in> set ts. \<not> budget_back t \<and> \<not> read_unfrozen r t"
  shows "frozen_now r s' \<and> audited (ca_Cluster s) (ca_Cluster s')"
  using assms(3-5)
proof (induction rule: cached_run.induct)
  case (cached_again s t s' ts s'')
  then have "frozen_now r s'" using cached_step_changes(1) [OF assms(1,2) cached_again(1)] by auto
  with cached_again cached_step_audited [OF assms(1,2) _ cached_again(1)] audited_trans show ?case by auto
qed (simp add: audited_refl)

section \<open>Measured changes\<close>

text \<open>Where every version a cache may show agrees on the freeze, only a measurement changes it, for the versions to come too.\<close>

definition all_frozen :: "ServiceClaimReconciler \<Rightarrow> cached_cluster \<Rightarrow> bool" where
  "all_frozen r s \<longleftrightarrow> (\<forall>c \<in> versions s. was_frozen (rc_Meta r) c)"

definition none_frozen :: "ServiceClaimReconciler \<Rightarrow> cached_cluster \<Rightarrow> bool" where
  "none_frozen r s \<longleftrightarrow> (\<forall>c \<in> versions s. \<not> was_frozen (rc_Meta r) c)"

lemma step_versions: "cached_step r s t s' \<Longrightarrow> versions s' = insert (cl_Claim (ca_Cluster s')) (versions s)"
  by (auto elim!: cached_step.cases simp: versions_def next_version_def)

lemma agreed_step:
  assumes "status_conditions (rc_Meta r)" "\<And>c. ConditionToUnstructured (rc_Convert r) c = Inr c" "cached_step r s t s'"
  shows "all_frozen r s \<Longrightarrow> \<not> budget_back t \<Longrightarrow> all_frozen r s'"
    and "none_frozen r s \<Longrightarrow> \<not> budget_spent t \<Longrightarrow> none_frozen r s'"
proof -
  note changes = cached_step_changes [OF assms]
  have read: "w \<in> versions s" if "t = StatusWrite v w" for v w
    using assms(3) that by (auto elim: cached_step.cases)
  have now: "cl_Claim (ca_Cluster s) \<in> versions s" by (simp add: versions_def)
  show "all_frozen r s \<Longrightarrow> \<not> budget_back t \<Longrightarrow> all_frozen r s'"
    using changes(1) read now unfolding all_frozen_def step_versions [OF assms(3)] frozen_def read_unfrozen_def by blast
  show "none_frozen r s \<Longrightarrow> \<not> budget_spent t \<Longrightarrow> none_frozen r s'"
    using changes(2) read now unfolding none_frozen_def step_versions [OF assms(3)] frozen_def read_frozen_def by blast
qed

lemma agreed_run:
  assumes "status_conditions (rc_Meta r)" "\<And>c. ConditionToUnstructured (rc_Convert r) c = Inr c" "cached_run r s ts s'"
  shows "all_frozen r s \<Longrightarrow> \<forall>t \<in> set ts. \<not> budget_back t \<Longrightarrow> all_frozen r s'"
    and "none_frozen r s \<Longrightarrow> \<forall>t \<in> set ts. \<not> budget_spent t \<Longrightarrow> none_frozen r s'"
  using assms(3) by (induction rule: cached_run.induct) (use agreed_step [OF assms(1,2)] in auto)

lemma agreed_now: "all_frozen r s \<Longrightarrow> frozen_now r s" "none_frozen r s \<Longrightarrow> \<not> frozen_now r s"
  by (simp_all add: all_frozen_def none_frozen_def versions_def frozen_def)

lemma run_changes:
  assumes "status_conditions (rc_Meta r)" "\<And>c. ConditionToUnstructured (rc_Convert r) c = Inr c" "cached_run r s ts s'"
  shows "frozen_now r s \<Longrightarrow> \<not> frozen_now r s' \<Longrightarrow> \<exists>t \<in> set ts. budget_back t \<or> read_unfrozen r t"
    and "\<not> frozen_now r s \<Longrightarrow> frozen_now r s' \<Longrightarrow> \<exists>t \<in> set ts. budget_spent t \<or> read_frozen r t"
  using assms(3)
proof (induction rule: cached_run.induct)
  case (cached_again s t s' ts s'')
  note step = cached_step_changes [OF assms(1,2) cached_again(1)]
  { case 1 then show ?case using step(1) cached_again(3) by auto }
  { case 2 then show ?case using step(2) cached_again(4) by auto }
qed simp_all

text \<open>A reconcile of the example claim that measures: Prometheus gives one answer to all that is asked.\<close>

definition measuring :: "float64 \<Rightarrow> ServiceClaim \<Rightarrow> world" where
  "measuring x claim = measuring_world claim (Inr example_namespace) (\<lambda>h q. Inr x)"

lemma measuring_step:
  assumes obs: "Build claim None = Inr obs" "sc_DeletionTimestamp claim = None" "Finalizer \<notin> set (sc_Finalizers claim)"
    "\<not> spec_Storage (sc_Spec claim)" "\<not> inSyncAtGeneration apimachinery claim"
    and s: "cl_Claim (ca_Cluster s) = claim"
  obtains s' where "cached_step (measuring_reconciler True) s (StatusWrite (measuring x claim) claim) s'"
    "frozen_now (measuring_reconciler True) s' \<longleftrightarrow>
       cond_Status (freezeCondition apimachinery claim (evaluateSLO (Some (\<lambda>q. Inr x)) claim)) = ConditionTrue"
proof -
  let ?r = "measuring_reconciler True" and ?w = "measuring x claim" and ?k = "claim_key claim"
  obtain patch rest where run: "run_state (Reconcile ?w ?r ?k) [] = (Inr sloRefreshInterval, [] @ GetClaim ?k (Inr claim) # rest)"
    and st: "ApplyStatus ?k patch None \<in> set rest"
    using measured_reconcile_of [OF obs, of "Inr example_namespace" "\<lambda>h q. Inr x" True ?k] unfolding measuring_def by fastforce
  have r: "rc_Meta ?r = apimachinery" "rc_HasPrometheus ?r" "rc_Storage ?r = None" "w_query ?w h = (\<lambda>q. Inr x)" for h
    by (simp_all add: measuring_def measuring_defs)
  obtain report where src: "report_source ?w ?r claim report"
    and after: "\<forall>s. frozen ?r (write_status patch s) \<longleftrightarrow> cond_Status (freezeCondition (rc_Meta ?r) claim report) = ConditionTrue"
    by (rule status_write_freeze [OF measuring_reconciler_laws run st])
  from src obs(1) have "report = evaluateSLO (Some (\<lambda>q. Inr x)) claim" by (auto simp: report_source_def r)
  moreover have "cached_step ?r s (StatusWrite ?w claim) (next_version s (write_status patch (ca_Cluster s)))"
    using cached_reconciled [where s = s and claim = claim, unfolded s, OF _ run st] by (simp add: versions_def s)
  ultimately show thesis using after that by (fastforce simp: next_version_def r)
qed

section \<open>A freeze that ends without a measurement\<close>

text \<open>A claim and the same claim frozen later, of which the cache still shows the first version.\<close>

definition frozen_later :: ServiceClaim where
  "frozen_later = example_claim\<lparr>sc_Status := (sc_Status example_claim)\<lparr>status_Conditions :=
     [\<lparr>cond_Type = ConditionDeploysFrozen, cond_Status = ConditionTrue, cond_ObservedGeneration = 1,
       cond_Reason = ReasonBudgetExhausted, cond_Message = []\<rparr>]\<rparr>\<rparr>"

definition lagging_cache :: cached_cluster where
  "lagging_cache = \<lparr>ca_Cluster = \<lparr>cl_Claim = frozen_later, cl_Audit = []\<rparr>, ca_Past = [example_claim]\<rparr>"

lemma lagging_frozen: "frozen_now example_reconciler lagging_cache"
  by (simp add: frozen_def was_frozen_def lagging_cache_def frozen_later_def example_reconciler_def apimachinery_def find_condition_def)

lemma evaluateSLO_down: "(\<And>q. answer q = Inl e) \<Longrightarrow> \<not> rep_measured (evaluateSLO (Some answer) claim)"
  by (simp add: evaluateSLO_def Let_def unmeasured_def split: sum.splits)

text \<open>All of the budget spent freezes the example claim, none of it spent ends the freeze.\<close>

lemma example_measured:
  assumes "sc_Spec claim = sc_Spec example_claim" "SpendBudget x (Some (1 / 200)) = Inr use"
  shows "rep_measured (evaluateSLO (Some (\<lambda>q. Inr x)) claim)" "rep_remaining (evaluateSLO (Some (\<lambda>q. Inr x)) claim) = Remaining use"
proof -
  have e: "ErrorRatioExpr (sc_SLI claim) (NamespaceName claim) (slo_Window (sc_SLO claim)) =
      Inr (availability_expr (''namespace='' @ quote (NamespaceName claim)) (Join (map itoa [200, 404]) ''|'') ''28d'')"
    using assms(1) by (simp add: ErrorRatioExpr_def goodStatusPattern_def example_claim_def sli_types Let_def)
  have b: "ErrorBudget (slo_Objective (sc_SLO claim)) = Inr (1 / 200)" using example_budget assms(1) by simp
  show "rep_measured (evaluateSLO (Some (\<lambda>q. Inr x)) claim)" "rep_remaining (evaluateSLO (Some (\<lambda>q. Inr x)) claim) = Remaining use"
    using evaluateSLO_measured [where q = "\<lambda>q. Inr x", OF b e _ _ assms(2)] by simp_all
qed

lemma example_spends:
  "SpendBudget (Fin 1) (Some (1 / 200)) = Inr \<lparr>Consumed = Fin 200, Remaining = Fin 0\<rparr>"
  "SpendBudget (Fin 0) (Some (1 / 200)) = Inr \<lparr>Consumed = Fin 0, Remaining = Fin 1\<rparr>"
  by code_simp+

lemma example_read:
  "\<not> was_frozen apimachinery example_claim" "was_frozen apimachinery frozen_later"
  by (simp_all add: was_frozen_def apimachinery_def find_condition_def example_claim_def frozen_later_def)

lemma example_agreed:
  "none_frozen (measuring_reconciler True) \<lparr>ca_Cluster = \<lparr>cl_Claim = example_claim, cl_Audit = []\<rparr>, ca_Past = []\<rparr>"
  "all_frozen (measuring_reconciler True) \<lparr>ca_Cluster = \<lparr>cl_Claim = frozen_later, cl_Audit = []\<rparr>, ca_Past = []\<rparr>"
  using example_read by (simp_all add: none_frozen_def all_frozen_def versions_def measuring_defs)

lemma example_freezes:
  obtains s' where "cached_step (measuring_reconciler True) \<lparr>ca_Cluster = \<lparr>cl_Claim = example_claim, cl_Audit = []\<rparr>, ca_Past = []\<rparr>
      (StatusWrite (measuring (Fin 1) example_claim) example_claim) s'" "frozen_now (measuring_reconciler True) s'"
proof -
  obtain obs where b: "Build example_claim None = Inr obs" using example_Build [of None] unfolding succeeds_iff by blast
  have "cond_Status (freezeCondition apimachinery example_claim (evaluateSLO (Some (\<lambda>q. Inr (Fin 1))) example_claim)) = ConditionTrue"
    using freezeCondition_decision example_measured [OF _ example_spends(1)] by simp
  with measuring_step [OF b, of "\<lparr>ca_Cluster = \<lparr>cl_Claim = example_claim, cl_Audit = []\<rparr>, ca_Past = []\<rparr>" "Fin 1"] new_claim_unsynced [of example_claim]
  show thesis using that by (fastforce simp: example_claim_def)
qed

lemma example_unfreezes:
  obtains s' where "cached_step (measuring_reconciler True) \<lparr>ca_Cluster = \<lparr>cl_Claim = frozen_later, cl_Audit = []\<rparr>, ca_Past = []\<rparr>
      (StatusWrite (measuring (Fin 0) frozen_later) frozen_later) s'" "\<not> frozen_now (measuring_reconciler True) s'"
proof -
  have c: "cond_Status (freezeCondition apimachinery frozen_later (evaluateSLO (Some (\<lambda>q. Inr (Fin 0))) frozen_later)) = ConditionFalse"
  proof -
    have "f_less (Fin 1) UnfreezeBudget = False" by code_simp
    then show ?thesis
      using freezeCondition_decision example_measured [OF _ example_spends(2), of frozen_later] by (simp add: frozen_later_def)
  qed
  have "succeeds (Build frozen_later None)"
    using example_Build [of None] unfolding Build_succeeds_iff by (simp add: frozen_later_def)
  then obtain obs where b: "Build frozen_later None = Inr obs" unfolding succeeds_iff by blast
  have "\<not> inSyncAtGeneration apimachinery frozen_later"
    by (simp add: inSyncAtGeneration_def apimachinery_def find_condition_def frozen_later_def condition_types)
  with c measuring_step [OF b, of "\<lparr>ca_Cluster = \<lparr>cl_Claim = frozen_later, cl_Audit = []\<rparr>, ca_Past = []\<rparr>" "Fin 0"]
  show thesis using that by (fastforce simp: frozen_later_def example_claim_def)
qed

text \<open>
  C6: a stale read ends a freeze. The claim is frozen and the controller's cache still shows the version before the
  freeze; one reconcile, during which no query of Prometheus is answered, writes a status in which deploys are not
  frozen, though the last decision should stand while the budget can't be measured.
\<close>

theorem stale_read_unfreezes:
  "\<exists>w s'. frozen_now example_reconciler lagging_cache \<and>
     cached_step example_reconciler lagging_cache (StatusWrite w example_claim) s' \<and>
     (\<forall>h q. \<exists>e. w_query w h q = Inl e) \<and> \<not> (\<exists>remaining. measures (StatusWrite w example_claim) remaining) \<and>
     \<not> frozen_now example_reconciler s'"
proof -
  let ?w = "granting_world example_claim (Inr example_namespace)"
  let ?key = "claim_key (cl_Claim (ca_Cluster lagging_cache))"
  have key: "?key = claim_key example_claim"
    by (simp add: lagging_cache_def frozen_later_def claim_key_def)
  obtain obs where b: "Build example_claim None = Inr obs" using example_Build [of None] unfolding succeeds_iff by blast
  from granted_reconcile [OF b, of "Inr example_namespace" ?key] obtain patch rest where
    run: "run_state (Reconcile ?w example_reconciler ?key) [] = (Inr sloRefreshInterval, [] @ GetClaim ?key (Inr example_claim) # rest)"
    and st: "ApplyStatus ?key patch None \<in> set rest"
    unfolding key by fastforce
  have "example_claim \<in> versions lagging_cache" by (simp add: versions_def lagging_cache_def)
  from cached_reconciled [OF this run st] obtain s' where step: "cached_step example_reconciler lagging_cache (StatusWrite ?w example_claim) s'"
    by blast
  have down: "w_query ?w h q = Inl (Errorf ''down'')" for h q by (simp add: granting_world_def)
  have no: "\<not> measures (StatusWrite ?w example_claim) remaining" for remaining
    by (auto simp: measures_def evaluateSLO_down [OF down])
  have "\<not> was_frozen (rc_Meta example_reconciler) example_claim"
    by (simp add: was_frozen_def example_claim_def example_reconciler_def apimachinery_def find_condition_def)
  with cached_reconciled_freeze(2) [OF example_reconciler_laws step] no have "\<not> frozen_now example_reconciler s'"
    unfolding budget_spent_def by blast
  with lagging_frozen step down no show ?thesis by blast
qed

text \<open>An administrator's break-glass update, whatever the cache shows.\<close>

theorem freeze_with_cached_reads_witness:
  "\<exists>events. cached_run example_reconciler \<lparr>ca_Cluster = frozen_cluster, ca_Past = [example_claim]\<rparr>
       [UserUpdate example_request (break_glass_update ''outage'')]
       \<lparr>ca_Cluster = \<lparr>cl_Claim = break_glass_update ''outage'', cl_Audit = events\<rparr>, ca_Past = [frozen_example, example_claim]\<rparr> \<and>
     (\<exists>e \<in> set events. break_glass_event (''default'', ''shortlink'') e)"
proof -
  let ?s = "\<lparr>ca_Cluster = frozen_cluster, ca_Past = [example_claim]\<rparr>" and ?t = "UserUpdate example_request (break_glass_update ''outage'')"
  obtain events where "admitted_update example_reconciler frozen_cluster example_request (break_glass_update ''outage'')
     \<lparr>cl_Claim = break_glass_update ''outage'', cl_Audit = events\<rparr>" using example_update by blast
  then have step: "cached_step example_reconciler ?s ?t
      \<lparr>ca_Cluster = \<lparr>cl_Claim = break_glass_update ''outage'', cl_Audit = events\<rparr>, ca_Past = [frozen_example, example_claim]\<rparr>"
    using cached_updated [of example_reconciler ?s] by (force simp: next_version_def frozen_cluster_def)
  note run = cached_again [OF step cached_idle]
  have "\<not> budget_back ?t \<and> \<not> read_unfrozen example_reconciler ?t"
    by (simp add: budget_back_def measures_def read_unfrozen_def)
  with freeze_with_cached_reads [OF example_reconciler_laws run] example_frozen
  have "audited frozen_cluster \<lparr>cl_Claim = break_glass_update ''outage'', cl_Audit = events\<rparr>" by simp
  then have "\<exists>e \<in> set events. break_glass_event (''default'', ''shortlink'') e"
    by (simp add: audited_def frozen_cluster_def break_glass_update_def frozen_example_def claim_key_def)
  with run show ?thesis by blast
qed

end
