(* ===== verification/Ctl_Lifecycle.thy ===== *)
theory Ctl_Lifecycle
  imports Ctl_Reconcile
begin

text \<open>
  Three things the controller promises over its calls: its own writes do not queue its claim again,
  Events are recorded for real corrections only, and a deleted claim is released once its namespace is
  gone.
\<close>

section \<open>What queues a claim\<close>

text \<open>The predicates of controller-runtime compare what their names say.\<close>

locale update_predicates =
  fixes p :: predicates
  assumes generation_changed: "GenerationChanged p a b \<longleftrightarrow> sc_Generation a \<noteq> sc_Generation b"
    and label_changed: "LabelChanged p a b \<longleftrightarrow> sc_Labels a \<noteq> sc_Labels b"
    and annotation_changed: "AnnotationChanged p a b \<longleftrightarrow> sc_Annotations a \<noteq> sc_Annotations b"
begin

lemma claimChanged_iff:
  "claimChanged p a b \<longleftrightarrow>
     sc_Generation a \<noteq> sc_Generation b \<or> sc_Labels a \<noteq> sc_Labels b \<or> sc_Annotations a \<noteq> sc_Annotations b \<or>
     sc_DeletionTimestamp b \<noteq> None"
  by (simp add: claimChanged_def generation_changed label_changed annotation_changed)

end

definition event_predicates :: predicates where
  "event_predicates =
     \<lparr>GenerationChanged = (\<lambda>a b. sc_Generation a \<noteq> sc_Generation b), LabelChanged = (\<lambda>a b. sc_Labels a \<noteq> sc_Labels b),
      AnnotationChanged = (\<lambda>a b. sc_Annotations a \<noteq> sc_Annotations b)\<rparr>"

interpretation ep: update_predicates event_predicates
  by unfold_locales (simp_all add: event_predicates_def)

text \<open>
  The controller's own writes never retrigger it. A write to the status or to the finalizers of a claim
  that is not being deleted is filtered out; a new generation, new labels, new annotations and a deletion
  are not.
\<close>

lemma own_writes_do_not_retrigger:
  assumes "update_predicates p" and "sc_DeletionTimestamp claim = None"
  shows "\<not> claimChanged p claim (claim\<lparr>sc_Status := status\<rparr>) \<and>
         \<not> claimChanged p claim (claim\<lparr>sc_Finalizers := finalizers\<rparr>) \<and>
         (claimChanged p claim new \<longleftrightarrow>
            sc_Generation claim \<noteq> sc_Generation new \<or> sc_Labels claim \<noteq> sc_Labels new \<or>
            sc_Annotations claim \<noteq> sc_Annotations new \<or> sc_DeletionTimestamp new \<noteq> None)"
  using assms by (simp add: update_predicates.claimChanged_iff)

section \<open>Drift\<close>

text \<open>The corrections a history shows: a read of the live object and a successful apply right after it.\<close>

definition correction_of :: "client_object \<Rightarrow> bool \<Rightarrow> correction" where
  "correction_of ob recreated = \<lparr>cor_kind = o_Kind ob, cor_ref = objectRef ob, cor_recreated = recreated\<rparr>"

fun drift_step :: "event \<Rightarrow> event \<Rightarrow> correction list" where
  "drift_step (ReadLive ob (Inl e)) (ApplyObject ob' u (Inr managed)) = [correction_of ob True]"
| "drift_step (ReadLive ob (Inr before)) (ApplyObject ob' u (Inr managed)) =
     (if sameOwnership (controllerOwnership before) (controllerOwnership managed) then [] else [correction_of ob False])"
| "drift_step _ _ = []"

fun drift_of :: "event list \<Rightarrow> correction list" where
  "drift_of (e # e' # es) = drift_step e e' @ drift_of (e' # es)"
| "drift_of [] = []"
| "drift_of [e] = []"

fun recorded :: "event list \<Rightarrow> k8s_event list" where
  "recorded [] = []"
| "recorded (RecordEvent e # es) = e # recorded es"
| "recorded (_ # es) = recorded es"

lemma recorded_append [simp]: "recorded (xs @ ys) = recorded xs @ recorded ys"
  by (induction xs rule: recorded.induct) simp_all

text \<open>A history after which no apply follows right away.\<close>

fun applies_first :: "event list \<Rightarrow> bool" where
  "applies_first (ApplyObject ob u a # es) = True"
| "applies_first _ = False"

fun reads_or_applies :: "event \<Rightarrow> bool" where
  "reads_or_applies (ReadLive ob a) = True"
| "reads_or_applies (ApplyObject ob u a) = True"
| "reads_or_applies _ = False"

lemma drift_step_not_apply: "\<not> applies_first (e' # es) \<Longrightarrow> drift_step e e' = []"
  by (cases "(e, e')" rule: drift_step.cases) auto

lemma drift_of_append:
  "\<not> applies_first ys \<Longrightarrow> drift_of (xs @ ys) = drift_of xs @ drift_of ys"
proof (induction xs rule: drift_of.induct)
  case (3 e)
  then show ?case by (cases ys) (simp_all add: drift_step_not_apply)
qed simp_all

lemma drift_of_quiet: "list_all (\<lambda>e. \<not> reads_or_applies e) es \<Longrightarrow> drift_of es = []"
proof (induction es rule: drift_of.induct)
  case (1 e e' es)
  then have "drift_step e e' = []" by (cases "(e, e')" rule: drift_step.cases) auto
  with 1 show ?case by simp
qed simp_all

text \<open>What \<open>applyObjects\<close> reports is what its history shows.\<close>

definition drift_outcome :: "bool \<Rightarrow> correction list \<Rightarrow> nat \<times> correction list \<times> error option \<Rightarrow> event list \<Rightarrow> bool" where
  "drift_outcome reader cs res new \<longleftrightarrow>
     fst (snd res) = cs @ (if reader then drift_of new else []) \<and> recorded new = [] \<and> (reader \<longrightarrow> \<not> applies_first new)"

lemma drift_outcome_step:
  assumes "drift_outcome True (cs @ drift_step e (ApplyObject ob u a)) res new" "reads_or_applies e" "\<not> applies_first [e]"
  shows "drift_outcome True cs res (e # ApplyObject ob u a # new)"
proof -
  have "drift_of (ApplyObject ob u a # new) = drift_of new" by (cases new) auto
  moreover have "recorded [e] = []" "recorded [ApplyObject ob u a] = []" using assms(2) by (cases e) auto
  then have "recorded (e # ApplyObject ob u a # new) = recorded new"
    using recorded_append [of "[e, ApplyObject ob u a]" new] recorded_append [of "[e]" "[ApplyObject ob u a]"] by simp
  ultimately show ?thesis
    using assms by (cases e) (auto simp: drift_outcome_def)
qed

lemma apply_loop_drift: "appends (apply_loop w r i cs obs) (drift_outcome (rc_HasAPIReader r) cs)"
proof (induction obs arbitrary: i cs)
  case Nil
  show ?case by (simp add: appends_return drift_outcome_def)
next
  case (Cons ob obs)
  show ?case
  proof (cases "rc_HasAPIReader r")
    case True
    have stop: "drift_outcome True cs (i, cs, err) []" "drift_outcome True cs (i, cs, err) [ReadLive ob a]"
      "drift_outcome True cs (i, cs, err) [ReadLive ob a, ApplyObject ob u (Inl e)]" for err a u e
      by (cases a; simp add: drift_outcome_def)+
    have go: "appends (apply_loop w r (Suc i) (cs @ drift_step (ReadLive ob a) (ApplyObject ob u b)) obs)
        (\<lambda>res new. drift_outcome True cs res (ReadLive ob a # ApplyObject ob u b # new))" for a b u
      using Cons.IH by (rule appends_weaken) (auto simp: True intro!: drift_outcome_step)
    have gone: "appends (apply_loop w r (Suc i) (cs @ [\<lparr>cor_kind = o_Kind ob, cor_ref = objectRef ob, cor_recreated = True\<rparr>]) obs)
        (\<lambda>res new. drift_outcome True cs res (ReadLive ob (Inl e) # ApplyObject ob u (Inr m) # new))" for e u m
      using go [of "Inl e" u "Inr m"] by (simp add: correction_of_def)
    have same: "sameOwnership (controllerOwnership before) (controllerOwnership m) \<Longrightarrow> appends (apply_loop w r (Suc i) cs obs)
        (\<lambda>res new. drift_outcome True cs res (ReadLive ob (Inr before) # ApplyObject ob u (Inr m) # new))" for before u m
      using go [of "Inr before" u "Inr m"] by simp
    have differ: "\<not> sameOwnership (controllerOwnership before) (controllerOwnership m) \<Longrightarrow>
      appends (apply_loop w r (Suc i) (cs @ [\<lparr>cor_kind = o_Kind ob, cor_ref = objectRef ob, cor_recreated = False\<rparr>]) obs)
        (\<lambda>res new. drift_outcome True cs res (ReadLive ob (Inr before) # ApplyObject ob u (Inr m) # new))" for before u m
      using go [of "Inr before" u "Inr m"] by (simp add: correction_of_def)
    show ?thesis
      using True
      by (auto simp: liveOwnership_def intro!: appends_return appends_bind appends_call stop gone same differ split: sum.splits)
  next
    case False
    then show ?thesis
      using Cons.IH
      by (auto simp: liveOwnership_def drift_outcome_def intro!: appends_return appends_bind appends_call
          elim!: appends_weaken split: sum.splits)
  qed
qed

text \<open>The other calls record nothing and neither read nor apply a managed object.\<close>

fun silent :: "event \<Rightarrow> bool" where
  "silent (RecordEvent e) = False"
| "silent e = (\<not> reads_or_applies e)"

lemma silent_drift: "list_all silent new \<Longrightarrow> drift_of new = [] \<and> recorded new = [] \<and> \<not> applies_first new"
proof -
  assume a: "list_all silent new"
  then have "list_all (\<lambda>e. \<not> reads_or_applies e) new"
    by (rule list.pred_mono_strong) (auto elim: silent.elims)
  moreover have "recorded new = []" using a by (induction new rule: recorded.induct) auto
  moreover have "\<not> applies_first new" using a by (cases new rule: applies_first.cases) auto
  ultimately show ?thesis by (simp add: drift_of_quiet)
qed

lemma applyStatus_silent: "appends (applyStatus w r claim managed report storage conds) (\<lambda>res new. list_all silent new)"
  unfolding applyStatus_def Let_def by (auto intro!: appends_intros split: sum.splits)

lemma observe_ack_silent: "appends (observe_ack w r k gvks) (\<lambda>res new. list_all silent new)"
  by (induction gvks) (auto intro!: appends_intros elim!: appends_weaken)

lemma evaluateStorage_silent: "appends (evaluateStorage w r claim) (\<lambda>res new. list_all silent new)"
  unfolding evaluateStorage_def
  by (auto intro!: appends_intros appends_weaken [OF observe_ack_silent] split: option.splits)

lemma read_rollout_silent: "appends (read_rollout w r claim err) (\<lambda>res new. list_all silent new)"
  unfolding read_rollout_def Let_def by (auto intro!: appends_intros)

text \<open>What a reconcile of a claim records.\<close>

definition drift_reported :: "ServiceClaimReconciler \<Rightarrow> ServiceClaim \<Rightarrow> event list \<Rightarrow> bool" where
  "drift_reported r claim new \<longleftrightarrow>
     recorded new =
       (if inSyncAtGeneration (rc_Meta r) claim \<and> rc_HasRecorder r \<and> rc_HasAPIReader r
        then recorded (map (drift_event claim) (drift_of new)) else [])"

lemma drift_of_record: "drift_of (RecordEvent e # es) = drift_of es"
  by (cases es) simp_all

lemma drift_events:
  "drift_of (map (drift_event claim) cs @ tail) = drift_of tail"
  "applies_first (map (drift_event claim) cs @ tail) \<longleftrightarrow> cs = [] \<and> applies_first tail"
proof -
  show "drift_of (map (drift_event claim) cs @ tail) = drift_of tail"
    by (induction cs) (simp_all add: drift_event_def drift_of_record)
  show "applies_first (map (drift_event claim) cs @ tail) \<longleftrightarrow> cs = [] \<and> applies_first tail"
    by (cases cs) (simp_all add: drift_event_def)
qed

text \<open>The Events that are recorded for a list of corrections.\<close>

definition drift_records :: "ServiceClaimReconciler \<Rightarrow> ServiceClaim \<Rightarrow> correction list \<Rightarrow> event list" where
  "drift_records r claim cs =
     (if inSyncAtGeneration (rc_Meta r) claim \<and> rc_HasRecorder r then map (drift_event claim) cs else [])"

lemma drift_join:
  assumes "drift_outcome (rc_HasAPIReader r) [] (n, cs, err) new" "list_all silent tail"
  shows "drift_reported r claim (new @ drift_records r claim cs @ tail)"
proof -
  let ?all = "new @ drift_records r claim cs @ tail"
  have tail: "drift_of tail = []" "recorded tail = []" "\<not> applies_first tail" using silent_drift [OF assms(2)] by simp_all
  have rec: "recorded ?all = recorded (drift_records r claim cs)" using assms(1) tail by (simp add: drift_outcome_def)
  have cs: "cs = (if rc_HasAPIReader r then drift_of ?all else [])"
  proof (cases "rc_HasAPIReader r")
    case True
    have "\<not> applies_first (drift_records r claim cs @ tail)" "drift_of (drift_records r claim cs @ tail) = []"
      using tail drift_events [of claim cs tail] by (auto simp: drift_records_def)
    then have "drift_of ?all = drift_of new" by (simp add: drift_of_append)
    with True assms(1) show ?thesis by (simp add: drift_outcome_def)
  qed (use assms(1) in \<open>simp add: drift_outcome_def\<close>)
  show ?thesis
    unfolding drift_reported_def rec by (subst cs) (simp add: drift_records_def)
qed

lemma silent_bind:
  assumes "appends m (\<lambda>a new. list_all silent new)" "\<And>a. appends (f a) (\<lambda>b new. list_all silent new)"
  shows "appends (State_Monad.bind m f) (\<lambda>b new. list_all silent new)"
  by (rule appends_bind, rule appends_weaken [OF assms(1)], rule appends_weaken [OF assms(2)]) simp

lemma reconcile_objects_drift: "appends (reconcile_objects w r claim obs) (\<lambda>res new. drift_reported r claim new)"
  unfolding reconcile_objects_def Let_def applyObjects_def
proof (rule appends_bind, rule appends_weaken [OF apply_loop_drift], goal_cases)
  case (1 res new)
  obtain applied cs err where res: "res = (applied, cs, err)" by (cases res)
  have drift: "appends (if inSyncAtGeneration (rc_Meta r) claim then reportDrift r claim cs else State_Monad.return ())
      (\<lambda>res new. new = drift_records r claim cs)"
    by (auto simp: reportDrift_def drift_records_def intro!: appends_tell appends_return)
  show ?case
    unfolding res prod.case
    apply (rule appends_bind, rule appends_weaken [OF drift])
    apply (rule appends_weaken [where P = "\<lambda>b new. list_all silent new"])
     apply (rule silent_bind, simp add: appends_ask)
     apply (rule silent_bind [OF evaluateStorage_silent])
     apply (rule silent_bind [OF read_rollout_silent])
     apply (simp only: split_beta)
     apply (rule silent_bind [OF applyStatus_silent])
     apply (simp add: appends_return)
    using 1 unfolding res by (auto intro!: drift_join)
qed

lemma applyFinalizer_silent: "appends (applyFinalizer w claim present) (\<lambda>res new. list_all silent new)"
  unfolding applyFinalizer_def by (auto intro!: appends_intros)

lemma finalize_silent: "appends (finalize w claim) (\<lambda>res new. list_all silent new)"
  by (rule appends_weaken [OF finalize_appends]) (auto elim!: deletion_protocolE)

lemma reconcile_invalid_silent: "appends (reconcile_invalid w r claim e) (\<lambda>res new. list_all silent new)"
  unfolding reconcile_invalid_def Let_def by (intro silent_bind applyStatus_silent) (simp add: appends_return)

lemma drift_of_silent_pre: "list_all silent pre \<Longrightarrow> drift_of (pre @ new) = drift_of new"
proof (induction pre)
  case (Cons e pre)
  then have "drift_step e e' = []" for e' by (cases "(e, e')" rule: drift_step.cases) auto
  then have "drift_of (e # es) = drift_of es" for es by (cases es) simp_all
  with Cons show ?case by simp
qed simp

lemma drift_reported_pre: "list_all silent pre \<Longrightarrow> drift_reported r claim new \<Longrightarrow> drift_reported r claim (pre @ new)"
  using silent_drift [of pre] by (simp add: drift_reported_def drift_of_silent_pre)

lemma drift_reported_silent: "list_all silent new \<Longrightarrow> drift_reported r claim new"
  using silent_drift [of new] by (simp add: drift_reported_def)

lemma drift_reported_GetClaim: "drift_reported r claim new \<Longrightarrow> drift_reported r claim (GetClaim k a # new)"
  using drift_reported_pre [of "[GetClaim k a]"] by simp

lemma reconcile_live_drift: "appends (reconcile_live w r claim) (\<lambda>res new. drift_reported r claim new)"
proof -
  have body: "appends (case Build claim (rc_Storage r) of Inl e \<Rightarrow> reconcile_invalid w r claim e
      | Inr objects \<Rightarrow> reconcile_objects w r claim objects) (\<lambda>res new. drift_reported r claim new)"
    by (simp add: reconcile_objects_drift appends_weaken [OF reconcile_invalid_silent drift_reported_silent] split: sum.splits)
  have pre: "appends (if Finalizer \<notin> set (sc_Finalizers claim) then applyFinalizer w claim True else State_Monad.return None)
      (\<lambda>res new. list_all silent new)"
    by (simp add: applyFinalizer_silent appends_return)
  show ?thesis
    unfolding reconcile_live_def
    by (rule appends_bind, rule appends_weaken [OF pre])
      (auto intro!: appends_return appends_weaken [OF body] simp: drift_reported_silent drift_reported_pre split: option.splits)
qed

text \<open>
  C22: the Events of a reconcile are its corrections. They are recorded only for a claim that was in sync at
  its generation when it was read, and are then exactly one for each object that a read found missing, or
  whose ownership entry the apply right after the read changed, in their order.
\<close>

theorem Reconcile_reports_drift:
  assumes "run_state (Reconcile w r req) tr = (res, tr @ new)"
  shows "\<exists>answer rest. new = GetClaim req answer # rest \<and>
           recorded new = (case answer of
             Inl e \<Rightarrow> []
           | Inr claim \<Rightarrow>
               if inSyncAtGeneration (rc_Meta r) claim \<and> rc_HasRecorder r \<and> rc_HasAPIReader r
               then recorded (map (drift_event claim) (drift_of new)) else [])"
proof -
  let ?Q = "\<lambda>(res :: int result) new. \<exists>answer rest. new = GetClaim req answer # rest \<and>
      (case answer of Inl e \<Rightarrow> recorded new = [] | Inr claim \<Rightarrow> drift_reported r claim new)"
  have "appends (Reconcile w r req) ?Q"
    unfolding Reconcile_def
    by (rule appends_bind, rule appends_call)
      (auto intro!: appends_return appends_weaken [OF finalize_silent] appends_weaken [OF reconcile_live_drift]
        simp: drift_reported_GetClaim drift_reported_silent split: sum.splits)
  from appends_run [OF this assms] show ?thesis by (auto simp: drift_reported_def split: sum.splits)
qed

theorem Reconcile_reports_drift_witness:
  "\<exists>new. run_state (Reconcile (granting_world example_claim (Inr example_namespace)) example_reconciler (''default'', ''shortlink'')) [] =
      (Inr sloRefreshInterval, [] @ new) \<and> recorded new = []"
proof (rule example_reconcile)
  fix obs new patch
  assume run: "run_state (Reconcile (granting_world example_claim (Inr example_namespace)) example_reconciler (''default'', ''shortlink'')) [] =
      (Inr sloRefreshInterval, [] @ new)"
  have "\<not> rc_HasAPIReader example_reconciler" by (simp add: example_reconciler_def)
  then have "(case answer of Inl e \<Rightarrow> [] | Inr claim \<Rightarrow>
      if inSyncAtGeneration (rc_Meta example_reconciler) claim \<and> rc_HasRecorder example_reconciler \<and> rc_HasAPIReader example_reconciler
      then recorded (map (drift_event claim) (drift_of new)) else []) = []" for answer
    by (cases answer) simp_all
  with Reconcile_reports_drift [OF run] have "recorded new = []" by metis
  with run show ?thesis by blast
qed

section \<open>Deletion\<close>

text \<open>
  A claim's namespace as the API server has it: there, being deleted for so many more polls, or gone. In
  such a world everything else is as in any world, and the writes of the deletion are granted.
\<close>

datatype ns_phase =
    Present NamespaceObject
  | Terminating NamespaceObject nat
  | Gone

record deletion =
  dl_Claim :: ServiceClaim
  dl_Namespace :: ns_phase

definition namespace_answer :: "ns_phase \<Rightarrow> NamespaceObject result" where
  "namespace_answer ph =
     (case ph of
        Present ns \<Rightarrow> Inr ns
      | Terminating ns n \<Rightarrow> Inr (ns\<lparr>nso_DeletionTimestamp := Some ''2026-01-01T00:00:00Z''\<rparr>)
      | Gone \<Rightarrow> Inl (NotFound ''namespace not found''))"

definition deletion_world :: "world \<Rightarrow> deletion \<Rightarrow> world" where
  "deletion_world w d =
     w\<lparr>w_getClaim := (\<lambda>tr k. Inr (dl_Claim d)), w_getNamespace := (\<lambda>tr live name. namespace_answer (dl_Namespace d)),
       w_deleteNamespace := (\<lambda>tr name. None), w_applyFinalizer := (\<lambda>tr k present. None)\<rparr>"

text \<open>What the calls of a reconcile, and the time until the next, do to the claim and its namespace.\<close>

definition elapse :: "nat \<Rightarrow> event list \<Rightarrow> ns_phase \<Rightarrow> ns_phase" where
  "elapse polls new ph =
     (case ph of
        Present ns \<Rightarrow> if \<exists>err. DeleteNamespace (nso_Name ns) err \<in> set new then Terminating ns polls else Present ns
      | Terminating ns 0 \<Rightarrow> Gone
      | Terminating ns (Suc n) \<Rightarrow> Terminating ns n
      | Gone \<Rightarrow> Gone)"

definition release :: "event list \<Rightarrow> ServiceClaim \<Rightarrow> ServiceClaim" where
  "release new claim =
     (if ApplyFinalizer (claim_key claim) False None \<in> set new
      then claim\<lparr>sc_Finalizers := removeAll Finalizer (sc_Finalizers claim)\<rparr> else claim)"

definition reconcile_deletion :: "world \<Rightarrow> ServiceClaimReconciler \<Rightarrow> nat \<Rightarrow> deletion \<Rightarrow> deletion" where
  "reconcile_deletion w r polls d =
     (let new = snd (run_state (Reconcile (deletion_world w d) r (claim_key (dl_Claim d))) [])
      in \<lparr>dl_Claim = release new (dl_Claim d), dl_Namespace = elapse polls new (dl_Namespace d)\<rparr>)"

lemma reconcile_deletion_step:
  assumes "sc_DeletionTimestamp (dl_Claim d) \<noteq> None" "Finalizer \<in> set (sc_Finalizers (dl_Claim d))"
  shows "dl_Namespace d = Present ns \<Longrightarrow> belongsTo (nso_Labels ns) (dl_Claim d) \<Longrightarrow> nso_DeletionTimestamp ns = None \<Longrightarrow>
      reconcile_deletion w r polls d = d\<lparr>dl_Namespace := Terminating ns polls\<rparr>"
    and "dl_Namespace d = Terminating ns (Suc n) \<Longrightarrow> belongsTo (nso_Labels ns) (dl_Claim d) \<Longrightarrow>
      reconcile_deletion w r polls d = d\<lparr>dl_Namespace := Terminating ns n\<rparr>"
    and "dl_Namespace d = Terminating ns 0 \<Longrightarrow> belongsTo (nso_Labels ns) (dl_Claim d) \<Longrightarrow>
      reconcile_deletion w r polls d = d\<lparr>dl_Namespace := Gone\<rparr>"
    and "dl_Namespace d = Gone \<Longrightarrow>
      reconcile_deletion w r polls d =
        d\<lparr>dl_Claim := (dl_Claim d)\<lparr>sc_Finalizers := removeAll Finalizer (sc_Finalizers (dl_Claim d))\<rparr>\<rparr>"
  using assms
  by (cases d; simp add: reconcile_deletion_def Reconcile_def finalize_def applyFinalizer_def of_error_def run_defs
      deletion_world_def namespace_answer_def elapse_def release_def)+

text \<open>The namespace after so many reconciles.\<close>

lemma deletion_progress:
  assumes "sc_DeletionTimestamp claim \<noteq> None" "Finalizer \<in> set (sc_Finalizers claim)" "belongsTo (nso_Labels ns) claim"
    and "nso_DeletionTimestamp ns = None" "i \<le> polls"
  shows "(reconcile_deletion w r polls ^^ Suc i) \<lparr>dl_Claim = claim, dl_Namespace = Present ns\<rparr> =
     \<lparr>dl_Claim = claim, dl_Namespace = Terminating ns (polls - i)\<rparr>"
  using assms(5)
proof (induction i)
  case 0
  show ?case using assms(1-4) by (simp add: reconcile_deletion_step(1))
next
  case (Suc i)
  then have "polls - i = Suc (polls - Suc i)" by simp
  with Suc assms(1-3) show ?case by (simp add: reconcile_deletion_step(2))
qed

text \<open>
  C20: a deletion completes. If a namespace takes so many polls to disappear after it was deleted, the
  claim's finalizer is released three reconciles later and not before the namespace is gone.
\<close>

theorem deletion_completes:
  assumes "sc_DeletionTimestamp claim \<noteq> None" and "Finalizer \<in> set (sc_Finalizers claim)"
    and "belongsTo (nso_Labels ns) claim" and "nso_DeletionTimestamp ns = None"
  shows "(reconcile_deletion w r polls ^^ (polls + 3)) \<lparr>dl_Claim = claim, dl_Namespace = Present ns\<rparr> =
           \<lparr>dl_Claim = claim\<lparr>sc_Finalizers := removeAll Finalizer (sc_Finalizers claim)\<rparr>, dl_Namespace = Gone\<rparr> \<and>
         (\<forall>i < polls + 3. dl_Claim ((reconcile_deletion w r polls ^^ i) \<lparr>dl_Claim = claim, dl_Namespace = Present ns\<rparr>) = claim)"
proof -
  let ?f = "reconcile_deletion w r polls" and ?d = "\<lparr>dl_Claim = claim, dl_Namespace = Present ns\<rparr>"
  note progress = deletion_progress [OF assms, where w = w and r = r and polls = polls]
  have gone: "(?f ^^ Suc (Suc polls)) ?d = \<lparr>dl_Claim = claim, dl_Namespace = Gone\<rparr>"
    using progress [of polls] assms by (simp add: reconcile_deletion_step(3))
  have "(?f ^^ (polls + 3)) ?d = ?f ((?f ^^ Suc (Suc polls)) ?d)"
    by (simp add: numeral_3_eq_3)
  then have "(?f ^^ (polls + 3)) ?d =
      \<lparr>dl_Claim = claim\<lparr>sc_Finalizers := removeAll Finalizer (sc_Finalizers claim)\<rparr>, dl_Namespace = Gone\<rparr>"
    unfolding gone using assms(1,2) by (simp add: reconcile_deletion_step(4))
  moreover have "dl_Claim ((?f ^^ i) ?d) = claim" if "i < polls + 3" for i
  proof -
    show ?thesis
    proof (cases i)
      case (Suc j)
      with that consider "j \<le> polls" | "j = Suc polls" by linarith
      then show ?thesis using Suc progress [of j] gone by cases (simp_all del: funpow.simps(2))
    qed simp
  qed
  ultimately show ?thesis by blast
qed

theorem deletion_completes_witness:
  "dl_Namespace ((reconcile_deletion (granting_world deleted_claim (Inr example_namespace)) example_reconciler 2 ^^ 5)
     \<lparr>dl_Claim = deleted_claim, dl_Namespace = Present example_namespace\<rparr>) = Gone"
  using deletion_completes [of deleted_claim example_namespace 2 "granting_world deleted_claim (Inr example_namespace)" example_reconciler]
  by simp

end
