(* ===== verification/Ctl_Converge.thy ===== *)
theory Ctl_Converge
  imports Ctl_Lifecycle
begin

text \<open>
  What the cluster holds after a reconcile, as far as the controller decides it: every object that was applied, in the
  version that was applied. The controller deletes nothing but namespaces, so what a claim does not build any more,
  after a change of its tier, stays.
\<close>

section \<open>The objects of a cluster\<close>

text \<open>
  The objects by API version, kind, namespace and name, as the controller last applied them; the fields that others own
  are not looked at. A namespace that is deleted takes its objects with it.
\<close>

type_synonym objects = "(string \<times> string \<times> string \<times> string) \<rightharpoonup> client_object"

definition gone_with :: "string \<Rightarrow> string \<times> string \<times> string \<times> string \<Rightarrow> bool" where
  "gone_with ns i \<longleftrightarrow>
     (case i of (api, kind, namespace, name) \<Rightarrow> if kind = ''Namespace'' then name = ns else namespace = ns)"

fun objects_after :: "event list \<Rightarrow> objects \<Rightarrow> objects" where
  "objects_after [] m = m"
| "objects_after (ApplyObject ob u (Inr managed) # es) m = objects_after es (m(identity ob \<mapsto> ob))"
| "objects_after (DeleteNamespace ns None # es) m = objects_after es (\<lambda>i. if gone_with ns i then None else m i)"
| "objects_after (_ # es) m = objects_after es m"

definition built_objects :: "client_object list \<Rightarrow> objects" where
  "built_objects obs = map_of (map (\<lambda>ob. (identity ob, ob)) obs)"

lemma objects_after_applies:
  "\<forall>ns e. DeleteNamespace ns e \<notin> set es \<Longrightarrow> objects_after es m = fold (\<lambda>ob m. m(identity ob \<mapsto> ob)) (applied_in es) m"
  by (induction es m rule: objects_after.induct) auto

lemma fold_built:
  "distinct (map identity obs) \<Longrightarrow> fold (\<lambda>ob m. m(identity ob \<mapsto> ob)) obs m = m ++ built_objects obs"
proof (induction obs arbitrary: m)
  case (Cons ob obs)
  then have "built_objects obs (identity ob) = None" by (simp add: built_objects_def map_of_eq_None_iff image_image)
  then have "m(identity ob \<mapsto> ob) ++ built_objects obs = m ++ built_objects (ob # obs)"
    by (auto simp: built_objects_def map_add_def fun_eq_iff split: option.splits)
  with Cons show ?case by (simp add: fun_upd_def)
qed (simp add: built_objects_def)

lemma built_objects_Some: "distinct (map identity obs) \<Longrightarrow> ob \<in> set obs \<Longrightarrow> built_objects obs (identity ob) = Some ob"
  unfolding built_objects_def by (rule map_of_is_SomeI) (simp_all add: comp_def)

lemma built_objects_dom: "built_objects obs i = None \<longleftrightarrow> i \<notin> identity ` set obs"
  by (simp add: built_objects_def map_of_eq_None_iff image_image)

section \<open>A reconcile of a live claim\<close>

lemma appends_both: "appends m P \<Longrightarrow> appends m Q \<Longrightarrow> appends m (\<lambda>a new. P a new \<and> Q a new)"
  unfolding appends_def by (metis same_append_eq)

definition live_events :: "ServiceClaimReconciler \<Rightarrow> ServiceClaim \<Rightarrow> int result \<Rightarrow> event list \<Rightarrow> bool" where
  "live_events r claim res rest \<longleftrightarrow>
     (\<forall>ns e. DeleteNamespace ns e \<notin> set rest) \<and>
     (\<forall>d obs. res = Inr d \<longrightarrow> Build claim (rc_Storage r) = Inr obs \<longrightarrow> applied_in rest = obs)"

lemma protocol_live:
  assumes "reconcile_protocol r req (GetClaim req (Inr claim) # rest)" "sc_DeletionTimestamp claim = None"
  shows "DeleteNamespace ns e \<notin> set rest"
  using assms by (cases rule: reconcile_protocol.cases) (auto simp: list_all_iff finalizer_guard_def)

lemma reconcile_live_events:
  assumes "sc_DeletionTimestamp claim = None"
  shows "appends (reconcile_live w r claim) (live_events r claim)"
  by (rule appends_weaken [OF appends_both [OF reconcile_live_appends [OF assms, of w r req] reconcile_live_result]])
    (auto simp: live_events_def dest: protocol_live [OF _ assms])

text \<open>The events of a reconcile begin with the claim it read.\<close>

lemma Reconcile_live_events:
  "appends (Reconcile w r req) (\<lambda>res new. \<forall>claim rest. new = GetClaim req (Inr claim) # rest \<longrightarrow>
     sc_DeletionTimestamp claim = None \<longrightarrow> live_events r claim res rest)"
  unfolding Reconcile_def
  by (rule appends_bind, rule appends_call)
    (auto intro!: appends_return appends_weaken [OF finalize_appends] appends_weaken [OF reconcile_live_events] split: sum.splits)

lemma converged:
  assumes "run_state (Reconcile w r req) tr = (Inr d, tr @ GetClaim req (Inr claim) # rest)"
    and "sc_DeletionTimestamp claim = None" and "Build claim (rc_Storage r) = Inr obs"
  shows "objects_after (GetClaim req (Inr claim) # rest) m = m ++ built_objects obs"
proof -
  have "live_events r claim (Inr d) rest"
    using appends_run [OF Reconcile_live_events assms(1)] assms(2) by blast
  with assms(3) have "\<forall>ns e. DeleteNamespace ns e \<notin> set rest" "applied_in rest = obs" by (auto simp: live_events_def)
  with objects_after_applies fold_built [OF bs.distinct_identities [OF assms(3)]] show ?thesis by simp
qed

text \<open>
  C11: a reconcile converges in one pass. When it succeeds for a live claim that can be built, the cluster holds
  each built object as it was built, and everything else is as it was: another such reconcile changes nothing.
\<close>

theorem reconcile_converges:
  assumes "run_state (Reconcile w r req) tr = (Inr d, tr @ GetClaim req (Inr claim) # rest)"
    and "run_state (Reconcile w' r req) tr' = (Inr d', tr' @ GetClaim req (Inr claim) # rest')"
    and "sc_DeletionTimestamp claim = None" and "Build claim (rc_Storage r) = Inr obs"
  shows "objects_after (GetClaim req (Inr claim) # rest) m = m ++ built_objects obs \<and>
         objects_after (GetClaim req (Inr claim) # rest') (objects_after (GetClaim req (Inr claim) # rest) m) =
           objects_after (GetClaim req (Inr claim) # rest) m"
  unfolding converged [OF assms(1,3,4)] converged [OF assms(2,3,4)] by (simp add: map_add_subsumed1 flip: map_add_assoc)

section \<open>A change of the tier\<close>

text \<open>What is built no more.\<close>

definition leftovers :: "client_object list \<Rightarrow> client_object list \<Rightarrow> client_object list" where
  "leftovers before_change obs = filter (\<lambda>ob. identity ob \<notin> identity ` set obs) before_change"

lemma leftover_stays:
  assumes "distinct (map identity xs)" "built_objects xs \<subseteq>\<^sub>m m" "ob \<in> set (leftovers xs obs)"
  shows "(m ++ built_objects obs) (identity ob) = Some ob"
proof -
  from assms(3) have ob: "ob \<in> set xs" "built_objects obs (identity ob) = None"
    by (auto simp: leftovers_def built_objects_dom)
  with built_objects_Some [OF assms(1)] assms(2) have "m (identity ob) = Some ob" by (metis domI map_le_def)
  with ob show ?thesis by (simp add: map_add_def)
qed

lemma public_to_batch_leftovers:
  assumes "Build a storage = Inr xs" "Build b storage' = Inr obs" "sc_Tier a = TierPublic" "sc_Tier b = TierBatch"
    "sc_Name a = sc_Name b"
  shows "{BuildService a, BuildHPA a, BuildPodDisruptionBudget a, BuildIngress a, BuildAnalysisTemplate a} \<subseteq> set (leftovers xs obs)"
proof -
  have "identity ` set obs = set (claim_identities b storage')" using Build_identities [OF assms(2)] by (metis list.set_map)
  moreover have "{BuildService a, BuildHPA a, BuildPodDisruptionBudget a, BuildIngress a, BuildAnalysisTemplate a} \<subseteq> set xs"
    by (rule Build_Inr [OF assms(1)]) (simp add: assms(3) HasAutoscaling_def HasCanaryAnalysis_def tiers)
  moreover have "\<forall>ob \<in> {BuildService a, BuildHPA a, BuildPodDisruptionBudget a, BuildIngress a, BuildAnalysisTemplate a}.
      identity ob \<notin> set (claim_identities b storage')"
    using assms(4)
    by (simp add: claim_identities_def Let_def HasAutoscaling_def HasCanaryAnalysis_def tiers identity_def BuildService_def BuildHPA_def
        BuildPodDisruptionBudget_def BuildIngress_def BuildAnalysisTemplate_def objectMeta_def analysisTemplateKind_def rolloutAPIVersion_def
        NamespaceName_def namespacePrefix_def)
  ultimately show ?thesis by (auto simp: leftovers_def)
qed

text \<open>
  C16: a tier that changes leaves objects behind. When a public claim becomes a batch claim and is reconciled with
  success, its Ingress, Service, autoscaler, disruption budget and analysis template stay as they were; and the
  autoscaler still scales the Rollout whose replicas the controller now sets in every reconcile.
\<close>

theorem tier_change_leaves_objects:
  assumes "run_state (Reconcile w r req) tr = (Inr d, tr @ GetClaim req (Inr claim) # rest)"
    and "sc_DeletionTimestamp claim = None" and "Build claim (rc_Storage r) = Inr obs" and "sc_Tier claim = TierBatch"
    and "Build old (rc_Storage r) = Inr xs" and "sc_Tier old = TierPublic" and "sc_Name old = sc_Name claim"
    and "built_objects xs \<subseteq>\<^sub>m m"
  shows "(\<forall>ob \<in> {BuildService old, BuildHPA old, BuildPodDisruptionBudget old, BuildIngress old, BuildAnalysisTemplate old}.
            objects_after (GetClaim req (Inr claim) # rest) m (identity ob) = Some ob) \<and>
         (\<exists>hpa rollout replicas. o_Spec (BuildHPA old) = HPASpec_of hpa \<and>
            objects_after (GetClaim req (Inr claim) # rest) m
              (hpa_TargetAPIVersion hpa, hpa_TargetKind hpa, o_Namespace (BuildHPA old), hpa_TargetName hpa) =
              Some (BuildRollout claim (rc_Storage r)) \<and>
            o_Spec (BuildRollout claim (rc_Storage r)) = RolloutSpec_of rollout \<and> ros_Replicas rollout = Some replicas)"
proof
  have after: "objects_after (GetClaim req (Inr claim) # rest) m = m ++ built_objects obs"
    by (rule converged [OF assms(1-3)])
  show "\<forall>ob \<in> {BuildService old, BuildHPA old, BuildPodDisruptionBudget old, BuildIngress old, BuildAnalysisTemplate old}.
      objects_after (GetClaim req (Inr claim) # rest) m (identity ob) = Some ob"
    using leftover_stays [OF bs.distinct_identities [OF assms(5)] assms(8)]
      public_to_batch_leftovers [OF assms(5,3,6,4,7)] unfolding after by blast
  have "BuildRollout claim (rc_Storage r) \<in> set obs" by (rule Build_Inr [OF assms(3)]) simp
  from built_objects_Some [OF bs.distinct_identities [OF assms(3)] this]
  have "(m ++ built_objects obs) (identity (BuildRollout claim (rc_Storage r))) = Some (BuildRollout claim (rc_Storage r))"
    by (simp add: map_add_def)
  then show "\<exists>hpa rollout replicas. o_Spec (BuildHPA old) = HPASpec_of hpa \<and>
      objects_after (GetClaim req (Inr claim) # rest) m
        (hpa_TargetAPIVersion hpa, hpa_TargetKind hpa, o_Namespace (BuildHPA old), hpa_TargetName hpa) =
        Some (BuildRollout claim (rc_Storage r)) \<and>
      o_Spec (BuildRollout claim (rc_Storage r)) = RolloutSpec_of rollout \<and> ros_Replicas rollout = Some replicas"
    using assms(4,7) unfolding after
    by (simp add: BuildHPA_def BuildRollout_def objectMeta_def identity_def NamespaceName_def HasAutoscaling_def tiers)
qed

section \<open>Examples\<close>

text \<open>The reconcile of the example claim, and of the same claim as a batch claim after it.\<close>

theorem reconcile_converges_witness:
  "\<exists>obs rest. Build example_claim None = Inr obs \<and>
     run_state (Reconcile (granting_world example_claim (Inr example_namespace)) example_reconciler (''default'', ''shortlink'')) [] =
       (Inr sloRefreshInterval, [] @ GetClaim (''default'', ''shortlink'') (Inr example_claim) # rest) \<and>
     objects_after (GetClaim (''default'', ''shortlink'') (Inr example_claim) # rest) Map.empty = built_objects obs"
proof -
  obtain obs where b: "Build example_claim None = Inr obs" using example_Build [of None] unfolding succeeds_iff by blast
  from granted_reconcile [OF b, of "Inr example_namespace" "(''default'', ''shortlink'')"] obtain rest where
    run: "run_state (Reconcile (granting_world example_claim (Inr example_namespace)) example_reconciler (''default'', ''shortlink'')) [] =
      (Inr sloRefreshInterval, [] @ GetClaim (''default'', ''shortlink'') (Inr example_claim) # rest)" by blast
  have "sc_DeletionTimestamp example_claim = None" "Build example_claim (rc_Storage example_reconciler) = Inr obs"
    using b by (simp_all add: example_claim_def example_reconciler_def)
  from reconcile_converges [OF run run this, of Map.empty] b run show ?thesis by simp
qed

definition batch_claim :: ServiceClaim where
  "batch_claim = example_claim\<lparr>sc_Spec := (sc_Spec example_claim)\<lparr>spec_Tier := TierBatch\<rparr>\<rparr>"

lemma batch_Build: "succeeds (Build batch_claim None)"
  using example_budget example_window
  by (simp add: Build_def succeeds_and_then succeeds_iff [symmetric] BuildPrometheusRule_usable BuildDashboard_usable
      BuildRunbook_usable usable_SLO_def usable_SLI_def batch_claim_def)
    (simp add: example_claim_def sli_types)

theorem tier_change_leaves_objects_witness:
  "\<exists>rest m. run_state (Reconcile (granting_world batch_claim (Inr example_namespace)) example_reconciler (''default'', ''shortlink'')) [] =
       (Inr sloRefreshInterval, [] @ GetClaim (''default'', ''shortlink'') (Inr batch_claim) # rest) \<and>
     objects_after (GetClaim (''default'', ''shortlink'') (Inr batch_claim) # rest) m (identity (BuildIngress example_claim)) =
       Some (BuildIngress example_claim)"
proof -
  obtain xs where xs: "Build example_claim None = Inr xs" using example_Build [of None] unfolding succeeds_iff by blast
  obtain obs where obs: "Build batch_claim None = Inr obs" using batch_Build unfolding succeeds_iff by blast
  have live: "sc_DeletionTimestamp batch_claim = None" "Finalizer \<notin> set (sc_Finalizers batch_claim)"
    "\<not> spec_Storage (sc_Spec batch_claim)" "status_Conditions (sc_Status batch_claim) = []"
    by (simp_all add: batch_claim_def example_claim_def)
  from granted_reconcile_of [OF obs live, of "Inr example_namespace" "(''default'', ''shortlink'')"] obtain rest where
    run: "run_state (Reconcile (granting_world batch_claim (Inr example_namespace)) example_reconciler (''default'', ''shortlink'')) [] =
      (Inr sloRefreshInterval, [] @ GetClaim (''default'', ''shortlink'') (Inr batch_claim) # rest)" by blast
  have none: "rc_Storage example_reconciler = None" by (simp add: example_reconciler_def)
  have "sc_Tier batch_claim = TierBatch" "sc_Tier example_claim = TierPublic" "sc_Name example_claim = sc_Name batch_claim"
    by (simp_all add: batch_claim_def example_claim_def tiers)
  from tier_change_leaves_objects [OF run live(1) obs [folded none] this(1) xs [folded none] this(2,3), of "built_objects xs"] run
  show ?thesis by (auto simp: none)
qed

end
