(* ===== verification/Ctl_Namesakes.thy ===== *)
theory Ctl_Namesakes
  imports Ctl_Lifecycle
begin

text \<open>
  Two claims of the same name in different namespaces. Their objects have the same names in the same namespace
  \<open>svc-<name>\<close>, every apply is forced, and the labels an object carries are those of the claim that was reconciled last.
\<close>

section \<open>Who a namespace belongs to\<close>

definition namesakes :: "ServiceClaim \<Rightarrow> ServiceClaim \<Rightarrow> bool" where
  "namesakes a b \<longleftrightarrow> sc_Name a = sc_Name b \<and> sc_Namespace a \<noteq> sc_Namespace b"

text \<open>The namespace object as a forced apply of the built one leaves it.\<close>

definition applied_namespace :: "client_object \<Rightarrow> NamespaceObject" where
  "applied_namespace ob = \<lparr>nso_Name = o_Name ob, nso_Labels = o_Labels ob, nso_DeletionTimestamp = None\<rparr>"

text \<open>A claim marked for deletion, and an API server that shows it and a namespace.\<close>

definition deleting :: "ServiceClaim \<Rightarrow> ServiceClaim" where
  "deleting claim = claim\<lparr>sc_DeletionTimestamp := Some ''2026-01-01T00:00:00Z'', sc_Finalizers := [Finalizer]\<rparr>"

definition shows_namespace :: "world \<Rightarrow> ServiceClaim \<Rightarrow> NamespaceObject \<Rightarrow> bool" where
  "shows_namespace w claim ns \<longleftrightarrow>
     (\<forall>tr. w_getClaim w tr (claim_key claim) = Inr (deleting claim)) \<and> (\<forall>tr. w_getNamespace w tr False (NamespaceName claim) = Inr ns)"

lemma belongs_to_one:
  "belongsTo labels a \<Longrightarrow> belongsTo labels b \<Longrightarrow> sc_Name a = sc_Name b \<and> sc_Namespace a = sc_Namespace b"
  by (auto simp: belongsTo_def)

lemma deleting_reconcile_decides:
  assumes "shows_namespace w claim ns" and "nso_DeletionTimestamp ns = None"
  shows "snd (run_state (Reconcile w r (claim_key claim)) []) =
     [GetClaim (claim_key claim) (Inr (deleting claim)), GetNamespace False (NamespaceName claim) (Inr ns),
      if belongsTo (nso_Labels ns) claim then DeleteNamespace (nso_Name ns) (w_deleteNamespace w
          [GetClaim (claim_key claim) (Inr (deleting claim)), GetNamespace False (NamespaceName claim) (Inr ns)] (nso_Name ns))
      else ApplyFinalizer (claim_key claim) False (w_applyFinalizer w
          [GetClaim (claim_key claim) (Inr (deleting claim)), GetNamespace False (NamespaceName claim) (Inr ns)] (claim_key claim) False)]"
proof -
  have "sc_DeletionTimestamp (deleting claim) = Some ''2026-01-01T00:00:00Z''" "sc_Finalizers (deleting claim) = [Finalizer]"
    "NamespaceName (deleting claim) = NamespaceName claim" "claim_key (deleting claim) = claim_key claim"
    "belongsTo labels (deleting claim) = belongsTo labels claim" for labels
    by (simp_all add: deleting_def NamespaceName_def claim_key_def belongsTo_def)
  with assms show ?thesis
    by (simp add: Reconcile_def finalize_def applyFinalizer_def run_defs shows_namespace_def split: option.splits)
qed

lemma built_namespace:
  assumes "Build claim storage = Inr obs"
  shows "hd obs = BuildNamespace claim" and "belongsTo (o_Labels (hd obs)) claim"
proof -
  from bs.namespace_first [OF assms] obtain rest where "obs = BuildNamespace claim # rest" by blast
  then show "hd obs = BuildNamespace claim" "belongsTo (o_Labels (hd obs)) claim"
    using bs.leads_back [OF assms] by (simp_all add: belongsTo_def)
qed

lemma owner_deletes:
  assumes "shows_namespace w claim ns" "nso_DeletionTimestamp ns = None" "belongsTo (nso_Labels ns) claim"
  shows "\<exists>err. DeleteNamespace (nso_Name ns) err \<in> set (snd (run_state (Reconcile w r (claim_key claim)) []))"
  unfolding deleting_reconcile_decides [OF assms(1,2)] using assms(3) by auto

lemma stranger_leaves:
  assumes "shows_namespace w claim ns" "nso_DeletionTimestamp ns = None" "\<not> belongsTo (nso_Labels ns) claim"
  shows "(\<forall>name err. DeleteNamespace name err \<notin> set (snd (run_state (Reconcile w r (claim_key claim)) []))) \<and>
     (\<exists>err. ApplyFinalizer (claim_key claim) False err \<in> set (snd (run_state (Reconcile w r (claim_key claim)) [])))"
  unfolding deleting_reconcile_decides [OF assms(1,2)] using assms(3) by auto

section \<open>What namesakes do to each other\<close>

text \<open>
  C21: the last reconcile decides. Namesakes build the same namespace. As long as it carries the labels that one of
  them built, deleting that one deletes the namespace, with the service of the other in it; deleting the
  other leaves the namespace and releases the finalizer.
\<close>

theorem namesakes_share_a_namespace:
  assumes "namesakes a b" and "Build a storage = Inr xs" and "Build b storage = Inr bs"
  shows "identity (hd xs) = identity (hd bs) \<and>
     (shows_namespace w b (applied_namespace (hd bs)) \<longrightarrow>
        (\<exists>err. DeleteNamespace (NamespaceName a) err \<in> set (snd (run_state (Reconcile w r (claim_key b)) [])))) \<and>
     (shows_namespace w a (applied_namespace (hd bs)) \<longrightarrow>
        (\<forall>ns err. DeleteNamespace ns err \<notin> set (snd (run_state (Reconcile w r (claim_key a)) []))) \<and>
        (\<exists>err. ApplyFinalizer (claim_key a) False err \<in> set (snd (run_state (Reconcile w r (claim_key a)) []))))"
proof -
  let ?ns = "applied_namespace (hd bs)"
  note xs = built_namespace [OF assms(2)] and bs = built_namespace [OF assms(3)]
  from bs(2) have b: "belongsTo (nso_Labels ?ns) b" by (simp add: applied_namespace_def)
  have a: "\<not> belongsTo (nso_Labels ?ns) a"
  proof
    assume "belongsTo (nso_Labels ?ns) a"
    from belongs_to_one [OF this b] assms(1) show False by (simp add: namesakes_def)
  qed
  have name: "nso_Name ?ns = NamespaceName a" "nso_DeletionTimestamp ?ns = None" "identity (hd xs) = identity (hd bs)"
    using assms(1) by (simp_all add: applied_namespace_def xs(1) bs(1) namesakes_def BuildNamespace_def NamespaceName_def identity_def)
  show ?thesis
    using owner_deletes [OF _ name(2) b, of w r] stranger_leaves [OF _ name(2) a, of w r] name(3) unfolding name(1) by blast
qed

text \<open>The same claim in another namespace.\<close>

definition namesake :: ServiceClaim where
  "namesake = example_claim\<lparr>sc_Namespace := ''other''\<rparr>"

theorem namesakes_share_a_namespace_witness:
  "\<exists>bs. Build namesake None = Inr bs \<and>
     (\<exists>err. DeleteNamespace (NamespaceName example_claim) err \<in>
        set (snd (run_state (Reconcile (granting_world (deleting namesake) (Inr (applied_namespace (hd bs)))) example_reconciler (claim_key namesake)) [])))"
proof -
  obtain xs where xs: "Build example_claim None = Inr xs"
    using example_Build [of None] unfolding succeeds_iff by blast
  have "succeeds (Build namesake None)"
    using example_budget example_window
    by (simp add: Build_def succeeds_and_then succeeds_iff [symmetric] BuildPrometheusRule_usable BuildDashboard_usable
        BuildRunbook_usable usable_SLO_def usable_SLI_def namesake_def)
      (simp add: example_claim_def sli_types)
  then obtain bs where bs: "Build namesake None = Inr bs" unfolding succeeds_iff by blast
  have "namesakes example_claim namesake" by (simp add: namesakes_def namesake_def example_claim_def)
  moreover have "shows_namespace (granting_world (deleting namesake) (Inr (applied_namespace (hd bs)))) namesake (applied_namespace (hd bs))"
    by (simp add: shows_namespace_def granting_world_def)
  ultimately show ?thesis using namesakes_share_a_namespace [OF _ xs bs] bs by blast
qed

end
