(* ===== verification/Ctl_Orphans.thy ===== *)
theory Ctl_Orphans
  imports Ctl_Namesakes
begin

text \<open>
  The promise behind the finalizer: a claim's namespace does not outlive the claim. The reconciles of one claim are
  interleaved here, call by call, with everybody else who writes to the claim or the namespace, with caches that show
  the claim and the namespace late, and with crashes; the claim and the namespace are what the API server stores of them.
\<close>

section \<open>The claim and its namespace\<close>

text \<open>
  What the protocol depends on: of the claim its finalizers and deletion timestamp, in each version from the
  one the cache shows to the one that is stored, with \<open>None\<close> where there is no claim; and the namespace that is stored, with
  the older ones the cache has not passed yet, the oldest first, which is the one it shows.
\<close>

record claim_version =
  cv_Finalizers :: "string list"
  cv_DeletionTimestamp :: "string option"

record cluster =
  cl_Versions :: "claim_version option list"
  cl_Namespace :: "NamespaceObject option"
  cl_Older :: "NamespaceObject option list"

definition carries_claim :: "key \<Rightarrow> labels \<Rightarrow> bool" where
  "carries_claim k labels \<longleftrightarrow> map_get labels LabelClaim = snd k \<and> map_get labels LabelClaimNamespace = fst k"

definition owns :: "key \<Rightarrow> cluster \<Rightarrow> bool" where
  "owns k s \<longleftrightarrow> (case cl_Namespace s of None \<Rightarrow> False | Some ns \<Rightarrow> carries_claim k (nso_Labels ns))"

definition holds :: "claim_version option \<Rightarrow> bool" where
  "holds v \<longleftrightarrow> (case v of None \<Rightarrow> False | Some c \<Rightarrow> Finalizer \<in> set (cv_Finalizers c))"

definition marked :: "claim_version option \<Rightarrow> bool" where
  "marked v \<longleftrightarrow> (case v of None \<Rightarrow> False | Some c \<Rightarrow> cv_DeletionTimestamp c \<noteq> None)"

definition stored :: "cluster \<Rightarrow> claim_version option" where
  "stored s = last (cl_Versions s)"

definition store :: "claim_version option \<Rightarrow> cluster \<Rightarrow> cluster" where
  "store v s = s\<lparr>cl_Versions := cl_Versions s @ [v]\<rparr>"

definition put_namespace :: "NamespaceObject option \<Rightarrow> cluster \<Rightarrow> cluster" where
  "put_namespace ns s = s\<lparr>cl_Namespace := ns, cl_Older := cl_Older s @ [cl_Namespace s]\<rparr>"

text \<open>The namespace as a read shows it: one that goes to the API server, or one from the cache.\<close>

definition shown :: "bool \<Rightarrow> cluster \<Rightarrow> NamespaceObject option" where
  "shown live s = (if live then cl_Namespace s else hd (cl_Older s @ [cl_Namespace s]))"

text \<open>A claim that is marked for deletion disappears with its last finalizer.\<close>

definition settle :: "claim_version \<Rightarrow> claim_version option" where
  "settle c = (if cv_Finalizers c = [] \<and> cv_DeletionTimestamp c \<noteq> None then None else Some c)"

section \<open>What the others do\<close>

text \<open>
  Users create and delete the claim, and they and other controllers change the finalizers that are theirs; the caches
  catch up with a version of the claim or of the namespace; and the namespace is changed, deleted or created in any way that does not make it carry
  the claim's labels when it did not before.
\<close>

inductive others :: "key \<Rightarrow> cluster \<Rightarrow> cluster \<Rightarrow> bool" for k where
  created: "stored s = None \<Longrightarrow> Finalizer \<notin> set fs \<Longrightarrow>
    others k s (store (Some \<lparr>cv_Finalizers = fs, cv_DeletionTimestamp = None\<rparr>) s)"
| deleted: "stored s = Some c \<Longrightarrow> cv_DeletionTimestamp c = None \<Longrightarrow>
    others k s (store (settle (c\<lparr>cv_DeletionTimestamp := Some t\<rparr>)) s)"
| finalizers: "stored s = Some c \<Longrightarrow> Finalizer \<in> set fs \<longleftrightarrow> Finalizer \<in> set (cv_Finalizers c) \<Longrightarrow>
    others k s (store (settle (c\<lparr>cv_Finalizers := fs\<rparr>)) s)"
| caught_up: "cl_Versions s = v # vs \<Longrightarrow> vs \<noteq> [] \<Longrightarrow> others k s (s\<lparr>cl_Versions := vs\<rparr>)"
| caught_up_namespace: "cl_Older s = v # vs \<Longrightarrow> others k s (s\<lparr>cl_Older := vs\<rparr>)"
| changed_namespace: "(owns k (put_namespace ns s) \<Longrightarrow> owns k s) \<Longrightarrow> others k s (put_namespace ns s)"

section \<open>What the controller's calls do\<close>

definition add_finalizer :: "cluster \<Rightarrow> cluster option" where
  "add_finalizer s =
     (case stored s of
        None \<Rightarrow> None
      | Some c \<Rightarrow>
          if Finalizer \<in> set (cv_Finalizers c) then Some s
          else if cv_DeletionTimestamp c \<noteq> None then None
          else Some (store (Some (c\<lparr>cv_Finalizers := cv_Finalizers c @ [Finalizer]\<rparr>)) s))"

definition remove_finalizer :: "cluster \<Rightarrow> cluster option" where
  "remove_finalizer s =
     (case stored s of
        None \<Rightarrow> None
      | Some c \<Rightarrow>
          if Finalizer \<in> set (cv_Finalizers c)
          then Some (store (settle (c\<lparr>cv_Finalizers := removeAll Finalizer (cv_Finalizers c)\<rparr>)) s)
          else Some s)"

text \<open>A forced apply sets the labels it carries and leaves the others, and the deletion timestamp.\<close>

definition merge_namespace :: "client_object \<Rightarrow> NamespaceObject option \<Rightarrow> NamespaceObject" where
  "merge_namespace ob old =
     (case old of
        None \<Rightarrow> \<lparr>nso_Name = o_Name ob, nso_Labels = o_Labels ob, nso_DeletionTimestamp = None\<rparr>
      | Some ns \<Rightarrow> ns\<lparr>nso_Labels := nso_Labels ns ++ o_Labels ob\<rparr>)"

definition namespace_of :: "key \<Rightarrow> string" where
  "namespace_of k = namespacePrefix @ snd k"

text \<open>
  A call that the API server accepts. Without a claim an apply of the finalizer would have to create one, and the spec
  is required; and a claim that is marked for deletion takes no new finalizer.
\<close>

fun accepted :: "key \<Rightarrow> event \<Rightarrow> cluster \<Rightarrow> cluster option" where
  "accepted k (ApplyFinalizer k' present err) s =
     (if k' \<noteq> k then Some s else if present then add_finalizer s else remove_finalizer s)"
| "accepted k (ApplyObject ob u answer) s =
     Some (if o_Kind ob = ''Namespace'' \<and> o_Name ob = namespace_of k
           then put_namespace (Some (merge_namespace ob (cl_Namespace s))) s else s)"
| "accepted k (DeleteNamespace name err) s =
     Some (if name = namespace_of k
           then put_namespace (map_option (\<lambda>ns. ns\<lparr>nso_DeletionTimestamp := Some ''now''\<rparr>) (cl_Namespace s)) s else s)"
| "accepted k _ s = Some s"

fun granted :: "event \<Rightarrow> bool" where
  "granted (ApplyFinalizer k present err) = (err = None)"
| "granted (ApplyObject ob u answer) = (\<not> isl answer)"
| "granted (DeleteNamespace name err) = (err = None)"
| "granted _ = True"

text \<open>
  What a read may answer. The claim is read as the cache shows it, and so is the namespace, unless the read is live.
  \<open>current\<close> is for what holds with a cache that is not late where it matters: an answer that lets the finalizer go, no
  namespace or one without the claim's labels, is then true of the stored namespace, and any other may be anything.
\<close>

fun sees :: "bool \<Rightarrow> key \<Rightarrow> cluster \<Rightarrow> event \<Rightarrow> bool" where
  "sees current k s (GetClaim k' (Inr claim)) =
     (k' = k \<longrightarrow> claim_key claim = k \<and>
        hd (cl_Versions s) = Some \<lparr>cv_Finalizers = sc_Finalizers claim, cv_DeletionTimestamp = sc_DeletionTimestamp claim\<rparr>)"
| "sees current k s (GetNamespace live name (Inl e)) =
     (name = namespace_of k \<longrightarrow> is_not_found e \<longrightarrow> (if current then \<not> owns k s else shown live s = None))"
| "sees current k s (GetNamespace live name (Inr ns)) =
     (nso_Name ns = name \<and> (name = namespace_of k \<longrightarrow>
        (if current then \<not> carries_claim k (nso_Labels ns) \<longrightarrow> \<not> owns k s else shown live s = Some ns)))"
| "sees current k s _ = True"

text \<open>A call that fails may have had its effect: its answer may be lost on the way.\<close>

inductive serves :: "bool \<Rightarrow> key \<Rightarrow> cluster \<Rightarrow> event \<Rightarrow> cluster \<Rightarrow> bool" for current k where
  granted: "granted e \<Longrightarrow> sees current k s e \<Longrightarrow> accepted k e s = Some s' \<Longrightarrow> serves current k s e s'"
| refused: "\<not> granted e \<Longrightarrow> serves current k s e s"
| lost: "\<not> granted e \<Longrightarrow> accepted k e s = Some s' \<Longrightarrow> serves current k s e s'"

text \<open>
  The states on the way of a reconcile with the given calls: others may act between the calls, and the controller may
  stop at any of them.
\<close>

inductive during :: "bool \<Rightarrow> key \<Rightarrow> cluster \<Rightarrow> event list \<Rightarrow> cluster \<Rightarrow> bool" for current k where
  here: "during current k s es s"
| others: "others k s s1 \<Longrightarrow> during current k s1 es s' \<Longrightarrow> during current k s es s'"
| made: "serves current k s e s1 \<Longrightarrow> during current k s1 es s' \<Longrightarrow> during current k s (e # es) s'"

inductive_cases during_NilE: "during current k s [] s'"
inductive_cases during_ConsE: "during current k s (e # es) s'"

text \<open>
  The clusters that can be reached from one without the claim, shown as it is, by the reconciles of the claim one after the other. What
  reconciles of other claims do is among what the others do.
\<close>

inductive reachable :: "bool \<Rightarrow> ServiceClaimReconciler \<Rightarrow> key \<Rightarrow> cluster \<Rightarrow> bool" for current r k where
  start: "cl_Versions s = [None] \<Longrightarrow> cl_Older s = [] \<Longrightarrow> \<not> owns k s \<Longrightarrow> reachable current r k s"
| reconciled: "reachable current r k s \<Longrightarrow> run_state (Reconcile w r k) tr = (res, tr @ new) \<Longrightarrow>
    during current k s new s' \<Longrightarrow> reachable current r k s'"

section \<open>The versions between the cache and the store\<close>

text \<open>A version with the finalizer that is marked for deletion: its reconcile may release the finalizer.\<close>

definition doomed :: "claim_version option \<Rightarrow> bool" where
  "doomed v \<longleftrightarrow> holds v \<and> marked v"

text \<open>
  Until the finalizer is released, versions are doomed only at the end, and once one holds the finalizer the stored one
  does. From the read of a doomed version on, and after the release, doomed versions are only at the front, and
  none after them holds the finalizer.
\<close>

definition guarded :: "claim_version option list \<Rightarrow> bool" where
  "guarded vs \<longleftrightarrow> (\<exists>A D. vs = A @ D \<and> vs \<noteq> [] \<and> list_all (\<lambda>v. \<not> doomed v) A \<and> list_all doomed D \<and>
     (list_ex holds A \<longrightarrow> holds (last vs)))"

definition releasing :: "claim_version option list \<Rightarrow> bool" where
  "releasing vs \<longleftrightarrow> (\<exists>D B. vs = D @ B \<and> vs \<noteq> [] \<and> list_all doomed D \<and> list_all (\<lambda>v. \<not> holds v) B)"

text \<open>A new version of the same claim, or of no claim, keeps the finalizer as it is, and the mark if it has one.\<close>

definition follows :: "claim_version option \<Rightarrow> claim_version option \<Rightarrow> bool" where
  "follows v w \<longleftrightarrow> holds w = holds v \<and> (doomed v \<longrightarrow> doomed w)"

lemma doomed_holds: "doomed v \<Longrightarrow> holds v" by (simp add: doomed_def)

lemma last_doomed: "D \<noteq> [] \<Longrightarrow> list_all doomed D \<Longrightarrow> doomed (last D)"
  by (simp add: list_all_iff)

lemma guarded_follows:
  assumes "guarded vs" "follows (last vs) w"
  shows "guarded (vs @ [w])"
proof -
  from assms(1) obtain A D where vs: "vs = A @ D" "vs \<noteq> []" "list_all (\<lambda>v. \<not> doomed v) A" "list_all doomed D"
    "list_ex holds A \<longrightarrow> holds (last vs)" unfolding guarded_def by blast
  show ?thesis
  proof (cases "doomed w")
    case True
    with vs assms(2) have "vs @ [w] = A @ (D @ [w]) \<and> vs @ [w] \<noteq> [] \<and> list_all (\<lambda>v. \<not> doomed v) A \<and>
        list_all doomed (D @ [w]) \<and> (list_ex holds A \<longrightarrow> holds (last (vs @ [w])))"
      by (simp add: doomed_holds)
    then show ?thesis unfolding guarded_def by blast
  next
    case False
    with assms(2) have "\<not> doomed (last vs)" by (auto simp: follows_def)
    with vs have "D = []" using last_doomed [of D] by (cases "D = []") auto
    with vs False assms(2) have "vs @ [w] = (A @ [w]) @ [] \<and> vs @ [w] \<noteq> [] \<and> list_all (\<lambda>v. \<not> doomed v) (A @ [w]) \<and>
        list_all doomed [] \<and> (list_ex holds (A @ [w]) \<longrightarrow> holds (last (vs @ [w])))"
      by (auto simp: follows_def)
    then show ?thesis unfolding guarded_def by blast
  qed
qed

lemma guarded_held:
  assumes "guarded vs" "\<not> holds (last vs)" "\<not> doomed w"
  shows "guarded (vs @ [w])"
proof -
  from assms(1) obtain A D where vs: "vs = A @ D" "list_all (\<lambda>v. \<not> doomed v) A" "list_all doomed D"
    "list_ex holds A \<longrightarrow> holds (last vs)" unfolding guarded_def by blast
  with assms(2) have "D = []" using last_doomed [of D] by (cases "D = []") (auto simp: doomed_def)
  with vs assms have "vs @ [w] = (A @ [w]) @ [] \<and> vs @ [w] \<noteq> [] \<and> list_all (\<lambda>v. \<not> doomed v) (A @ [w]) \<and>
      list_all doomed [] \<and> (list_ex holds (A @ [w]) \<longrightarrow> holds (last (vs @ [w])))" by auto
  then show ?thesis unfolding guarded_def by blast
qed

lemma releasing_snoc:
  assumes "releasing vs" "doomed (last vs) \<and> doomed w \<or> \<not> holds w"
  shows "releasing (vs @ [w])"
proof -
  from assms(1) obtain D B where vs: "vs = D @ B" "vs \<noteq> []" "list_all doomed D" "list_all (\<lambda>v. \<not> holds v) B"
    unfolding releasing_def by blast
  show ?thesis
  proof (cases "holds w")
    case True
    with assms(2) have w: "doomed (last vs)" "doomed w" by auto
    with vs have "B = []" by (cases "B = []") (auto simp: doomed_def list_all_iff)
    with vs w have "vs @ [w] = (D @ [w]) @ [] \<and> vs @ [w] \<noteq> [] \<and> list_all doomed (D @ [w]) \<and> list_all (\<lambda>v. \<not> holds v) []"
      by simp
    then show ?thesis unfolding releasing_def by blast
  next
    case False
    with vs have "vs @ [w] = D @ (B @ [w]) \<and> vs @ [w] \<noteq> [] \<and> list_all doomed D \<and> list_all (\<lambda>v. \<not> holds v) (B @ [w])"
      by simp
    then show ?thesis unfolding releasing_def by blast
  qed
qed

lemma releasing_follows:
  assumes "releasing vs" "follows (last vs) w"
  shows "releasing (vs @ [w])"
proof (rule releasing_snoc [OF assms(1)])
  from assms(1) have "doomed (last vs) \<or> \<not> holds (last vs)"
    unfolding releasing_def by (auto simp: list_all_iff last_append dest!: last_in_set)
  with assms(2) show "doomed (last vs) \<and> doomed w \<or> \<not> holds w" by (auto simp: follows_def)
qed

lemma guarded_tl:
  assumes "guarded (v # vs)" "vs \<noteq> []"
  shows "guarded vs"
proof -
  from assms(1) obtain A D where q: "v # vs = A @ D" "list_all (\<lambda>v. \<not> doomed v) A" "list_all doomed D"
    "list_ex holds A \<longrightarrow> holds (last vs)" using assms(2) unfolding guarded_def by auto
  then have "vs = tl A @ (if A = [] then tl D else D) \<and> vs \<noteq> [] \<and> list_all (\<lambda>v. \<not> doomed v) (tl A) \<and>
      list_all doomed (if A = [] then tl D else D) \<and> (list_ex holds (tl A) \<longrightarrow> holds (last vs))"
    using assms(2) by (cases A; cases D) auto
  then show ?thesis unfolding guarded_def by blast
qed

lemma releasing_tl:
  assumes "releasing (v # vs)" "vs \<noteq> []"
  shows "releasing vs"
proof -
  from assms(1) obtain D B where q: "v # vs = D @ B" "list_all doomed D" "list_all (\<lambda>v. \<not> holds v) B"
    unfolding releasing_def by blast
  then have "vs = tl D @ (if D = [] then tl B else B) \<and> vs \<noteq> [] \<and> list_all doomed (tl D) \<and>
      list_all (\<lambda>v. \<not> holds v) (if D = [] then tl B else B)"
    using assms(2) by (cases D; cases B) auto
  then show ?thesis unfolding releasing_def by blast
qed

text \<open>What a read of the version at the front tells of the others.\<close>

lemma releasing_front:
  assumes "releasing vs" "\<not> doomed (hd vs)"
  shows "vs \<noteq> [] \<and> list_all (\<lambda>v. \<not> holds v) vs"
proof -
  from assms(1) obtain D B where vs: "vs = D @ B" "vs \<noteq> []" "list_all doomed D" "list_all (\<lambda>v. \<not> holds v) B"
    unfolding releasing_def by blast
  with assms(2) have "D = []" by (cases D) auto
  with vs show ?thesis by simp
qed

lemma read_live:
  assumes "guarded vs \<or> releasing vs" "\<not> doomed (hd vs)"
  shows "guarded vs"
proof (rule disjE [OF assms(1)])
  assume "releasing vs"
  from releasing_front [OF this assms(2)] have "vs = vs @ [] \<and> vs \<noteq> [] \<and> list_all (\<lambda>v. \<not> doomed v) vs \<and>
      list_all doomed [] \<and> (list_ex holds vs \<longrightarrow> holds (last vs))"
    by (auto simp: list_all_iff list_ex_iff doomed_def)
  then show ?thesis unfolding guarded_def by blast
qed

lemma read_held:
  assumes "guarded vs \<or> releasing vs" "\<not> doomed (hd vs)" "holds (hd vs)"
  shows "holds (last vs)"
proof -
  from read_live [OF assms(1,2)] obtain A D where vs: "vs = A @ D" "vs \<noteq> []" "list_all doomed D"
    "list_ex holds A \<longrightarrow> holds (last vs)" unfolding guarded_def by blast
  with assms(2,3) have "list_ex holds A" by (cases A; cases D) auto
  with vs(4) show ?thesis by blast
qed

lemma read_doomed:
  assumes "guarded vs \<or> releasing vs" "doomed (hd vs)"
  shows "releasing vs"
proof (rule disjE [OF assms(1)])
  assume "guarded vs"
  then obtain A D where vs: "vs = A @ D" "vs \<noteq> []" "list_all (\<lambda>v. \<not> doomed v) A" "list_all doomed D"
    unfolding guarded_def by blast
  with assms(2) have "A = []" by (cases A) auto
  with vs have "vs = D @ [] \<and> vs \<noteq> [] \<and> list_all doomed D \<and> list_all (\<lambda>v. \<not> holds v) []" by simp
  then show ?thesis unfolding releasing_def by blast
qed

section \<open>The phases of a reconcile\<close>

text \<open>
  Between reconciles; after the read of a claim without a mark; once the finalizer is on it; after the read of a
  doomed claim; and once its namespace was found gone. Every phase gives the first.
\<close>

definition idle :: "key \<Rightarrow> cluster \<Rightarrow> bool" where
  "idle k s \<longleftrightarrow> (guarded (cl_Versions s) \<or> releasing (cl_Versions s)) \<and> (owns k s \<longrightarrow> holds (stored s))"

definition live :: "key \<Rightarrow> cluster \<Rightarrow> bool" where
  "live k s \<longleftrightarrow> guarded (cl_Versions s) \<and> (owns k s \<longrightarrow> holds (stored s))"

definition held :: "key \<Rightarrow> cluster \<Rightarrow> bool" where
  "held k s \<longleftrightarrow> guarded (cl_Versions s) \<and> holds (stored s)"

definition dying :: "key \<Rightarrow> cluster \<Rightarrow> bool" where
  "dying k s \<longleftrightarrow> releasing (cl_Versions s) \<and> (owns k s \<longrightarrow> holds (stored s))"

definition free :: "key \<Rightarrow> cluster \<Rightarrow> bool" where
  "free k s \<longleftrightarrow> releasing (cl_Versions s) \<and> \<not> owns k s"

lemmas phase_defs = idle_def live_def held_def dying_def free_def

lemma store_simps [simp]:
  "cl_Versions (store v s) = cl_Versions s @ [v]" "stored (store v s) = v" "owns k (store v s) = owns k s"
  by (simp_all add: store_def stored_def owns_def)

lemma namespace_simps [simp]:
  "cl_Versions (put_namespace ns s) = cl_Versions s" "cl_Namespace (put_namespace ns s) = ns" "stored (put_namespace ns s) = stored s"
  by (simp_all add: stored_def put_namespace_def)

lemma settle_follows: "Finalizer \<in> set (cv_Finalizers c) \<longleftrightarrow> holds v \<Longrightarrow> marked v \<longrightarrow> cv_DeletionTimestamp c \<noteq> None \<Longrightarrow>
    follows v (settle c)"
  by (auto simp: follows_def settle_def doomed_def holds_def marked_def)

text \<open>What the others do is a new version that follows the stored one, a late look at one, or another namespace.\<close>

lemma others_cases:
  assumes "others k s s'"
  obtains (version) w where "s' = store w s" "follows (stored s) w"
  | (cache) v where "cl_Versions s = v # cl_Versions s'" "cl_Versions s' \<noteq> []" "stored s' = stored s" "owns k s' = owns k s"
  | (namespace) "cl_Versions s' = cl_Versions s" "stored s' = stored s" "owns k s' \<Longrightarrow> owns k s"
  using assms
proof cases
  case (created fs)
  then show ?thesis by (intro version) (auto simp: follows_def holds_def doomed_def)
next
  case (deleted c t)
  then show ?thesis by (intro version) (auto intro!: settle_follows simp: holds_def)
next
  case (finalizers c fs)
  then show ?thesis by (intro version) (auto intro!: settle_follows simp: holds_def marked_def)
next
  case (caught_up v vs)
  then show ?thesis by (intro cache) (auto simp: stored_def owns_def)
next
  case (caught_up_namespace v vs)
  then show ?thesis by (intro namespace) (simp_all add: stored_def owns_def)
next
  case (changed_namespace ns)
  then show ?thesis by (intro namespace) simp_all
qed

text \<open>No phase ends by what the others do.\<close>

definition steady :: "key \<Rightarrow> (cluster \<Rightarrow> bool) \<Rightarrow> bool" where
  "steady k P \<longleftrightarrow> (\<forall>s s'. others k s s' \<longrightarrow> P s \<longrightarrow> P s') \<and> (\<forall>s. P s \<longrightarrow> idle k s)"

lemma others_versions:
  assumes "others k s s'"
  shows "guarded (cl_Versions s) \<Longrightarrow> guarded (cl_Versions s')" "releasing (cl_Versions s) \<Longrightarrow> releasing (cl_Versions s')"
    and "holds (stored s') = holds (stored s)" "owns k s' \<Longrightarrow> owns k s"
  using assms
  by (cases rule: others_cases; auto simp: stored_def [symmetric] intro: guarded_tl releasing_tl
      intro!: guarded_follows releasing_follows; simp add: follows_def stored_def)+

lemma phases_steady: "steady k (idle k)" "steady k (live k)" "steady k (held k)" "steady k (dying k)" "steady k (free k)"
  unfolding steady_def phase_defs using others_versions by blast+

text \<open>The states on the way of calls that start in a phase.\<close>

definition stays_idle :: "bool \<Rightarrow> key \<Rightarrow> (cluster \<Rightarrow> bool) \<Rightarrow> event list \<Rightarrow> bool" where
  "stays_idle current k P es \<longleftrightarrow> (\<forall>s s'. during current k s es s' \<longrightarrow> P s \<longrightarrow> idle k s')"

lemma stays_idle_Nil:
  assumes "steady k P"
  shows "stays_idle current k P []"
proof -
  have "during current k s es s' \<Longrightarrow> es = [] \<Longrightarrow> P s \<Longrightarrow> idle k s'" for s es s'
    by (induction rule: during.induct) (use assms in \<open>auto simp: steady_def\<close>)
  then show ?thesis by (simp add: stays_idle_def)
qed

lemma stays_idle_Cons:
  assumes "steady k P" and "stays_idle current k Q es"
    and "\<And>s s1. P s \<Longrightarrow> serves current k s e s1 \<Longrightarrow> Q s1"
  shows "stays_idle current k P (e # es)"
proof -
  have "during current k s es' s' \<Longrightarrow> es' = e # es \<Longrightarrow> P s \<Longrightarrow> idle k s'" for s es' s'
    by (induction rule: during.induct) (use assms in \<open>auto simp: steady_def stays_idle_def\<close>)
  then show ?thesis by (simp add: stays_idle_def)
qed

section \<open>The calls in their phases\<close>

inductive_cases servesE: "serves current k s e s'"

lemma namespace_of: "NamespaceName claim = namespace_of (claim_key claim)"
  by (simp add: NamespaceName_def namespace_of_def claim_key_def)

lemma carries_belongs: "belongsTo labels claim \<longleftrightarrow> carries_claim (claim_key claim) labels"
  by (auto simp: belongsTo_def carries_claim_def claim_key_def)

lemma serves_read:
  assumes "serves current k s e s'" "granted e" "accepted k e s = Some s"
  shows "s' = s \<and> sees current k s e"
  using assms by (auto elim: servesE)

lemma read_claim:
  assumes "serves current k s (GetClaim k (Inr claim)) s'" "idle k s"
  shows "claim_key claim = k" and "Finalizer \<in> set (sc_Finalizers claim) \<Longrightarrow> sc_DeletionTimestamp claim = None \<Longrightarrow> held k s'"
    and "sc_DeletionTimestamp claim = None \<Longrightarrow> live k s'"
    and "Finalizer \<in> set (sc_Finalizers claim) \<Longrightarrow> sc_DeletionTimestamp claim \<noteq> None \<Longrightarrow> dying k s'"
    and "idle k s'"
proof -
  from serves_read [OF assms(1)] have s': "s' = s" and key: "claim_key claim = k" and
    hd: "hd (cl_Versions s) = Some \<lparr>cv_Finalizers = sc_Finalizers claim, cv_DeletionTimestamp = sc_DeletionTimestamp claim\<rparr>" by simp_all
  have front: "holds (hd (cl_Versions s)) \<longleftrightarrow> Finalizer \<in> set (sc_Finalizers claim)"
    "marked (hd (cl_Versions s)) \<longleftrightarrow> sc_DeletionTimestamp claim \<noteq> None"
    unfolding hd by (simp_all add: holds_def marked_def)
  show "claim_key claim = k" by (rule key)
  show "idle k s'" using assms(2) s' by simp
  have vs: "guarded (cl_Versions s) \<or> releasing (cl_Versions s)" and own: "owns k s \<longrightarrow> holds (stored s)"
    using assms(2) by (simp_all add: idle_def)
  show "held k s'" if "Finalizer \<in> set (sc_Finalizers claim)" "sc_DeletionTimestamp claim = None"
    using read_live [OF vs] read_held [OF vs] front that unfolding s' held_def stored_def doomed_def by blast
  show "live k s'" if "sc_DeletionTimestamp claim = None"
    using read_live [OF vs] own front that unfolding s' live_def doomed_def by blast
  show "dying k s'" if "Finalizer \<in> set (sc_Finalizers claim)" "sc_DeletionTimestamp claim \<noteq> None"
    using read_doomed [OF vs] own front that unfolding s' dying_def doomed_def by blast
qed

lemma guarded_add:
  assumes "guarded (cl_Versions s)" "add_finalizer s = Some s'"
  shows "guarded (cl_Versions s') \<and> holds (stored s') \<and> owns k s' = owns k s"
  using assms guarded_held [OF assms(1)]
  by (auto simp: add_finalizer_def stored_def [symmetric] holds_def doomed_def marked_def split: option.splits if_splits)

lemma live_ApplyFinalizer:
  assumes "live k s" "serves current k s (ApplyFinalizer k True err) s'"
  shows "live k s'" and "err = None \<Longrightarrow> held k s'"
  using assms guarded_add [of s s' k] by (auto simp: live_def held_def elim!: servesE)

lemma held_harmless:
  assumes "held k s" "serves current k s e s'" "harmless e"
  shows "held k s'"
proof -
  have "accepted k e s = Some s1 \<Longrightarrow> held k s1" for s1
    using assms(1,3) by (cases e) (auto simp: held_def split: if_splits)
  with assms(1,2) show ?thesis by (auto elim: servesE)
qed

lemma removed_releasing:
  assumes "releasing (cl_Versions s)" "remove_finalizer s = Some s'"
  shows "releasing (cl_Versions s') \<and> owns k s' = owns k s"
proof -
  have "\<not> holds (settle (c\<lparr>cv_Finalizers := removeAll Finalizer fs\<rparr>))" for c fs
    by (simp add: settle_def holds_def)
  with assms show ?thesis
    by (auto simp: remove_finalizer_def intro!: releasing_snoc split: option.splits if_splits)
qed

lemma free_ApplyFinalizer: "free k s \<Longrightarrow> serves current k s (ApplyFinalizer k False err) s' \<Longrightarrow> free k s'"
  using removed_releasing [of s s' k] by (auto simp: free_def elim!: servesE)

lemma dying_DeleteNamespace:
  assumes "dying k s" "serves current k s (DeleteNamespace ns err) s'"
  shows "dying k s'"
proof -
  have "owns k (put_namespace (map_option (\<lambda>ns. ns\<lparr>nso_DeletionTimestamp := t\<rparr>) (cl_Namespace s)) s) = owns k s" for t
    by (simp add: owns_def split: option.splits)
  with assms show ?thesis by (auto simp: dying_def elim!: servesE split: if_splits)
qed

lemma dying_GetNamespace:
  assumes "dying k s" "serves current k s (GetNamespace False (namespace_of k) answer) s'"
  shows "dying k s'"
    and "current \<Longrightarrow> (case answer of Inl e \<Rightarrow> is_not_found e | Inr ns \<Rightarrow> \<not> carries_claim k (nso_Labels ns)) \<Longrightarrow> free k s'"
proof -
  have s': "s' = s" "sees current k s (GetNamespace False (namespace_of k) answer)" using serves_read [OF assms(2)] by simp_all
  then show "dying k s'" using assms(1) by simp
  assume "current" "case answer of Inl e \<Rightarrow> is_not_found e | Inr ns \<Rightarrow> \<not> carries_claim k (nso_Labels ns)"
  with s' assms(1) show "free k s'" by (cases answer) (simp_all add: dying_def free_def)
qed

section \<open>No namespace without its claim\<close>

lemma stays_idle_harmless: "list_all harmless es \<Longrightarrow> stays_idle current k (held k) es"
proof (induction es)
  case Nil
  show ?case by (rule stays_idle_Nil [OF phases_steady(3)])
next
  case (Cons e es)
  then have "harmless e" "stays_idle current k (held k) es" by simp_all
  then show ?case using stays_idle_Cons [OF phases_steady(3)] held_harmless by blast
qed

lemma stays_idle_deletion:
  assumes "deletion_protocol claim es" "claim_key claim = k"
  shows "stays_idle True k (\<lambda>s. if Finalizer \<in> set (sc_Finalizers claim) then dying k s else idle k s) es"
proof -
  note rules = stays_idle_Nil stays_idle_Cons phases_steady
  have read: "stays_idle True k (dying k) (GetNamespace False (namespace_of k) answer # es)" if "stays_idle True k (dying k) es" for answer es
    by (rule stays_idle_Cons [OF phases_steady(4) that dying_GetNamespace(1)])
  have let_go: "stays_idle True k (dying k) (GetNamespace False (namespace_of k) answer # [ApplyFinalizer k False err])"
    if "case answer of Inl e \<Rightarrow> is_not_found e | Inr ns \<Rightarrow> \<not> carries_claim k (nso_Labels ns)" for answer err
    using that by (intro stays_idle_Cons [where Q = "free k"] stays_idle_Nil phases_steady)
      (auto intro: dying_GetNamespace(2) free_ApplyFinalizer)
  have delete: "stays_idle True k (dying k) [DeleteNamespace ns err]" for ns err
    by (rule stays_idle_Cons [OF phases_steady(4) stays_idle_Nil [OF phases_steady(4)] dying_DeleteNamespace])
  show ?thesis
    using assms read let_go delete
    by (cases rule: deletion_protocol.cases) (auto simp: namespace_of carries_belongs intro!: stays_idle_Nil phases_steady)
qed

lemma stays_idle_guarded:
  assumes "list_all harmless es" "claim_key claim = k"
  shows "stays_idle current k (if Finalizer \<in> set (sc_Finalizers claim) then held k else live k) (finalizer_guard claim @ es)"
proof (cases "Finalizer \<in> set (sc_Finalizers claim)")
  case True
  with stays_idle_harmless [OF assms(1)] show ?thesis by (simp add: finalizer_guard_def)
next
  case False
  have "stays_idle current k (live k) (ApplyFinalizer k True None # es)"
    by (rule stays_idle_Cons [OF phases_steady(2) stays_idle_harmless [OF assms(1)] live_ApplyFinalizer(2)]) simp_all
  with False assms(2) show ?thesis by (simp add: finalizer_guard_def)
qed

lemma stays_idle_read:
  assumes "claim_key claim = k \<Longrightarrow> stays_idle current k Q es"
    and "\<And>s s'. idle k s \<Longrightarrow> serves current k s (GetClaim k (Inr claim)) s' \<Longrightarrow> Q s'"
  shows "stays_idle current k (idle k) (GetClaim k (Inr claim) # es)"
proof (cases "claim_key claim = k")
  case True
  show ?thesis by (rule stays_idle_Cons [OF phases_steady(1) assms(1) [OF True] assms(2)])
next
  case False
  have "stays_idle current k (\<lambda>s. False) es" by (simp add: stays_idle_def)
  from stays_idle_Cons [OF phases_steady(1) this] read_claim(1) False show ?thesis by blast
qed

lemma stays_idle_reconcile:
  assumes "reconcile_protocol r k new"
  shows "stays_idle True k (idle k) new"
  using assms
proof cases
  case (unread e)
  have "stays_idle True k (idle k) [GetClaim k (Inl e)]"
    by (rule stays_idle_Cons [OF phases_steady(1) stays_idle_Nil [OF phases_steady(1)]]) (auto dest: serves_read)
  with unread show ?thesis by simp
next
  case (deleted claim es)
  show ?thesis unfolding deleted(1)
    by (rule stays_idle_read [OF stays_idle_deletion [OF deleted(3)]]) (use deleted(2) read_claim(4,5) in auto)
next
  case (unguarded claim e)
  have "stays_idle True k (live k) [ApplyFinalizer k True (Some e)]"
    by (rule stays_idle_Cons [OF phases_steady(2) stays_idle_Nil [OF phases_steady(2)] live_ApplyFinalizer(1)])
  then show ?thesis unfolding unguarded(1)
    by (intro stays_idle_read [where Q = "live k"]) (use unguarded(2) read_claim(3) in auto)
next
  case (invalid claim es)
  show ?thesis unfolding invalid(1)
    by (rule stays_idle_read [OF stays_idle_guarded [OF invalid(4)]]) (use invalid(2) read_claim(2,3) in auto)
next
  case (applied claim obs es)
  show ?thesis unfolding applied(1)
    by (rule stays_idle_read [OF stays_idle_guarded [OF applied(4)]]) (use applied(2) read_claim(2,3) in auto)
qed

text \<open>
  C7: no namespace outlives its claim. As long as an answer that lets the finalizer go is true when it is given, at
  every moment, in the middle of a reconcile too, a namespace that carries the labels of a claim has that claim
  stored with the finalizer on it.
\<close>

theorem namespace_has_its_claim:
  assumes "reachable True r k s" and "owns k s"
  shows "\<exists>c. stored s = Some c \<and> Finalizer \<in> set (cv_Finalizers c)"
proof -
  from assms(1) have "idle k s"
  proof induction
    case (start s)
    have "guarded [None]" unfolding guarded_def by (intro exI [of _ "[None]"] exI [of _ "[]"]) (simp add: doomed_def holds_def)
    with start show ?case by (simp add: idle_def)
  next
    case (reconciled s w tr res new s')
    with stays_idle_reconcile [OF appends_run [OF Reconcile_appends]] show ?case unfolding stays_idle_def by blast
  qed
  with assms(2) show ?thesis by (auto simp: idle_def holds_def split: option.splits)
qed

section \<open>Examples\<close>

text \<open>The example claim, created and seen by the cache; then its namespace is applied, and the controller stops.\<close>

definition example_key :: key where "example_key = claim_key example_claim"

definition empty_cluster :: cluster where
  "empty_cluster = \<lparr>cl_Versions = [None], cl_Namespace = None, cl_Older = []\<rparr>"

definition version :: "string list \<Rightarrow> string option \<Rightarrow> claim_version option" where
  "version fs t = Some \<lparr>cv_Finalizers = fs, cv_DeletionTimestamp = t\<rparr>"

definition applied_cluster :: cluster where
  "applied_cluster = \<lparr>cl_Versions = [version [] None, version [Finalizer] None],
     cl_Namespace = Some (merge_namespace (BuildNamespace example_claim) None), cl_Older = [None]\<rparr>"

lemma example_key_simps:
  "carries_claim example_key (o_Labels (BuildNamespace example_claim))" "o_Kind (BuildNamespace example_claim) = ''Namespace''"
  "o_Name (BuildNamespace example_claim) = namespace_of example_key"
proof -
  obtain obs where b: "Build example_claim None = Inr obs" using example_Build [of None] unfolding succeeds_iff by blast
  then obtain rest where "obs = BuildNamespace example_claim # rest" using bs.namespace_first by blast
  with bs.leads_back [OF b] show "carries_claim example_key (o_Labels (BuildNamespace example_claim))"
    by (simp add: carries_claim_def example_key_def claim_key_def)
  show "o_Kind (BuildNamespace example_claim) = ''Namespace''" "o_Name (BuildNamespace example_claim) = namespace_of example_key"
    by (simp_all add: BuildNamespace_def example_key_def flip: namespace_of)
qed

lemma example_versions:
  "sc_Finalizers example_claim = []" "sc_DeletionTimestamp example_claim = None" "claim_key example_claim = example_key"
  by (simp_all add: example_claim_def example_key_def)

lemma example_during:
  "during current example_key empty_cluster (GetClaim example_key (Inr example_claim) # ApplyFinalizer example_key True None #
     ApplyObject (BuildNamespace example_claim) u (Inr []) # new) applied_cluster"
proof -
  let ?s1 = "store (version [] None) empty_cluster" and ?s2 = "\<lparr>cl_Versions = [version [] None], cl_Namespace = None, cl_Older = []\<rparr>"
    and ?s3 = "\<lparr>cl_Versions = [version [] None, version [Finalizer] None], cl_Namespace = None, cl_Older = []\<rparr>"
  have "others example_key empty_cluster ?s1"
    unfolding version_def by (rule others.created) (simp_all add: empty_cluster_def stored_def)
  moreover have "others example_key ?s1 ?s2"
    using others.caught_up [of ?s1 None "[version [] None]" example_key] by (simp add: empty_cluster_def store_def)
  moreover have "serves current example_key ?s2 (GetClaim example_key (Inr example_claim)) ?s2"
    by (rule serves.granted) (simp_all add: example_versions version_def)
  moreover have "serves current example_key ?s2 (ApplyFinalizer example_key True None) ?s3"
    by (rule serves.granted) (simp_all add: add_finalizer_def stored_def version_def store_def)
  moreover have "serves current example_key ?s3 (ApplyObject (BuildNamespace example_claim) u (Inr [])) applied_cluster"
    by (rule serves.granted) (simp_all add: example_key_simps applied_cluster_def put_namespace_def)
  ultimately show ?thesis by (meson during.intros)
qed

lemma example_applied: "reachable current example_reconciler example_key applied_cluster"
proof -
  obtain obs where b: "Build example_claim None = Inr obs" using example_Build [of None] unfolding succeeds_iff by blast
  then obtain rest where obs: "obs = BuildNamespace example_claim # rest" using bs.namespace_first by blast
  from granted_reconcile [OF b, of "Inr example_namespace" example_key] obtain new where
    run: "run_state (Reconcile (granting_world example_claim (Inr example_namespace)) example_reconciler example_key) [] =
      (Inr sloRefreshInterval, [] @ GetClaim example_key (Inr example_claim) # ApplyFinalizer example_key True None #
        ApplyObject (BuildNamespace example_claim) (JString (o_Name (BuildNamespace example_claim))) (Inr []) # new)"
    unfolding obs example_key_def by (auto simp: append_Cons)
  have "reachable current example_reconciler example_key empty_cluster"
    by (rule reachable.start) (simp_all add: empty_cluster_def owns_def)
  from reachable.reconciled [OF this run example_during] show ?thesis .
qed

lemma example_owns: "owns example_key applied_cluster"
  by (simp add: applied_cluster_def owns_def merge_namespace_def example_key_simps)

theorem namespace_has_its_claim_witness:
  "reachable True example_reconciler example_key applied_cluster \<and>
   (\<exists>c. stored applied_cluster = Some c \<and> Finalizer \<in> set (cv_Finalizers c))"
  using namespace_has_its_claim [OF example_applied example_owns] example_applied by blast

section \<open>A cache that is late\<close>

text \<open>
  The claim is deleted and the cache shows that, but it does not show the namespace yet; then the finalizer is
  released; and then the caches show all there is.
\<close>

definition orphaning_time :: string where "orphaning_time = ''2026-01-01T00:00:00Z''"

definition deleting_cluster :: cluster where
  "deleting_cluster = applied_cluster\<lparr>cl_Versions := [version [Finalizer] (Some orphaning_time)]\<rparr>"

definition orphaned_cluster :: cluster where
  "orphaned_cluster = applied_cluster\<lparr>cl_Versions := [None], cl_Older := []\<rparr>"

lemma deleting_key: "claim_key deleted_claim = example_key" "NamespaceName deleted_claim = namespace_of example_key"
  by (simp_all add: deleted_claim_def example_key_def claim_key_def NamespaceName_def namespace_of_def)

text \<open>A user deletes the claim, and the cache catches up with it.\<close>

lemma during_deletion:
  assumes "during current example_key deleting_cluster es s"
  shows "during current example_key applied_cluster es s"
proof -
  let ?d = "version [Finalizer] (Some orphaning_time)"
  let ?s1 = "store ?d applied_cluster" and ?s2 = "applied_cluster\<lparr>cl_Versions := [version [Finalizer] None, ?d]\<rparr>"
  have "others example_key applied_cluster ?s1"
    using others.deleted [of applied_cluster "\<lparr>cv_Finalizers = [Finalizer], cv_DeletionTimestamp = None\<rparr>" example_key orphaning_time]
    by (simp add: applied_cluster_def stored_def version_def settle_def)
  moreover have "others example_key ?s1 ?s2" "others example_key ?s2 deleting_cluster"
    using others.caught_up [of ?s1 "version [] None" "[version [Finalizer] None, ?d]" example_key]
      others.caught_up [of ?s2 "version [Finalizer] None" "[?d]" example_key]
    by (simp_all add: applied_cluster_def store_def deleting_cluster_def)
  ultimately show ?thesis using assms by (meson during.intros)
qed

lemma deleting_reads:
  "serves current example_key deleting_cluster (GetClaim example_key (Inr deleted_claim)) deleting_cluster"
  by (rule serves.granted) (simp_all add: deleting_key version_def orphaning_time_def deleting_cluster_def)

lemma releasing_example: "releasing_events = [GetClaim example_key (Inr deleted_claim),
    GetNamespace False (namespace_of example_key) (Inl (NotFound ''gone'')), ApplyFinalizer example_key False None]"
  using deleting_key by (simp add: releasing_events_def) (simp add: example_key_def claim_key_def example_claim_def)

lemma late_shows: "cl_Older applied_cluster = [None]" "shown False deleting_cluster = None"
  by (simp_all add: shown_def deleting_cluster_def applied_cluster_def)

lemma orphaning_during: "during False example_key applied_cluster releasing_events orphaned_cluster"
proof -
  let ?d = "version [Finalizer] (Some orphaning_time)"
  let ?s1 = "deleting_cluster\<lparr>cl_Versions := [?d, None]\<rparr>" and ?s2 = "deleting_cluster\<lparr>cl_Versions := [None]\<rparr>"
  have "serves False example_key deleting_cluster (GetNamespace False (namespace_of example_key) (Inl (NotFound ''gone''))) deleting_cluster"
    by (rule serves.granted) (simp_all add: late_shows)
  moreover have "serves False example_key deleting_cluster (ApplyFinalizer example_key False None) ?s1"
    by (rule serves.granted)
      (simp_all add: remove_finalizer_def stored_def version_def settle_def store_def deleting_cluster_def)
  moreover have "others example_key ?s1 ?s2" "others example_key ?s2 orphaned_cluster"
    using others.caught_up [of ?s1 ?d "[None]" example_key] others.caught_up_namespace [of ?s2 None "[]" example_key]
    by (simp_all add: deleting_cluster_def applied_cluster_def orphaned_cluster_def)
  ultimately show ?thesis
    unfolding releasing_example by (intro during_deletion during.made [OF deleting_reads]) (meson during.intros)
qed

text \<open>
  That a read of the namespace may be told that there is none; and the calls of the controller with nobody else doing
  anything, and that no reconcile changes the cluster that way.
\<close>

definition may_miss :: "bool \<Rightarrow> key \<Rightarrow> cluster \<Rightarrow> bool" where
  "may_miss past_cache k s \<longleftrightarrow> (\<exists>e. is_not_found e \<and> sees False k s (GetNamespace past_cache (namespace_of k) (Inl e)))"

inductive alone :: "key \<Rightarrow> cluster \<Rightarrow> event list \<Rightarrow> cluster \<Rightarrow> bool" for k where
  done_alone: "alone k s [] s"
| made_alone: "serves False k s e s1 \<Longrightarrow> alone k s1 es s' \<Longrightarrow> alone k s (e # es) s'"

inductive_cases alone_NilE: "alone k s [] s'"
inductive_cases alone_ConsE: "alone k s (e # es) s'"

definition abandoned :: "ServiceClaimReconciler \<Rightarrow> key \<Rightarrow> cluster \<Rightarrow> bool" where
  "abandoned r k s \<longleftrightarrow> (\<forall>w tr res new s'. run_state (Reconcile w r k) tr = (res, tr @ new) \<longrightarrow> alone k s new s' \<longrightarrow> s' = s)"

lemma unclaimed_abandoned:
  assumes "cl_Versions s = [None]"
  shows "abandoned r k s"
  unfolding abandoned_def
proof (intro allI impI)
  fix w tr res new s'
  assume run: "run_state (Reconcile w r k) tr = (res, tr @ new)" and a: "alone k s new s'"
  have "\<not> serves False k s (GetClaim k (Inr claim)) s1" for claim s1
    using assms by (auto elim!: servesE)
  with a have no: "new \<noteq> GetClaim k (Inr claim) # rest" for claim rest by (auto elim: alone_ConsE)
  have "reconcile_protocol r k new" by (rule appends_run [OF Reconcile_appends run])
  then obtain e where "new = [GetClaim k (Inl e)]" using no by (cases rule: reconcile_protocol.cases) auto
  with a show "s' = s" by (auto elim!: alone_ConsE alone_NilE servesE)
qed

text \<open>
  C8: a late cache orphans a namespace. There is a cluster on the way of the reconciles of the example claim in which its
  namespace is applied but the cache, one version behind, shows none yet, so that a read through the cache may be told that
  there is no namespace, and a read past it could not. The user deletes the claim, and its reconcile, which reads the
  namespace through the cache, is told so and releases the finalizer. Then the claim is gone and the namespace is left as it was
  with the claim's labels, and even once the caches show all that is stored, no reconcile of the claim changes anything.
\<close>

theorem late_cache_orphans_namespace:
  "\<exists>s w claim e s'. reachable False example_reconciler (claim_key example_claim) s \<and>
     owns (claim_key example_claim) s \<and> cl_Older s = [None] \<and>
     may_miss False (claim_key example_claim) s \<and> \<not> may_miss True (claim_key example_claim) s \<and>
     run_state (Reconcile w example_reconciler (claim_key example_claim)) [] =
       (Inr 0, [GetClaim (claim_key example_claim) (Inr claim), GetNamespace False (NamespaceName example_claim) (Inl e),
          ApplyFinalizer (claim_key example_claim) False None]) \<and>
     during False (claim_key example_claim) s
       [GetClaim (claim_key example_claim) (Inr claim), GetNamespace False (NamespaceName example_claim) (Inl e),
          ApplyFinalizer (claim_key example_claim) False None] s' \<and>
     cl_Versions s' = [None] \<and> cl_Older s' = [] \<and> cl_Namespace s' = cl_Namespace s \<and>
     abandoned example_reconciler (claim_key example_claim) s'"
proof -
  have key: "example_key = (''default'', ''shortlink'')" and name: "NamespaceName example_claim = namespace_of example_key"
    by (simp_all add: example_key_def claim_key_def example_claim_def NamespaceName_def namespace_of_def)
  have "run_state (Reconcile (granting_world deleted_claim (Inl (NotFound ''gone''))) example_reconciler example_key) [] =
      (Inr 0, releasing_events)" using releasing_reconcile key by simp
  moreover have "may_miss False example_key applied_cluster"
    unfolding may_miss_def by (rule exI [of _ "NotFound ''gone''"]) (simp add: shown_def applied_cluster_def)
  moreover have "\<not> may_miss True example_key applied_cluster"
    by (simp add: may_miss_def shown_def applied_cluster_def)
  moreover have "abandoned example_reconciler example_key orphaned_cluster"
    by (rule unclaimed_abandoned) (simp add: orphaned_cluster_def)
  moreover have "cl_Versions orphaned_cluster = [None]" "cl_Older orphaned_cluster = []"
    "cl_Namespace orphaned_cluster = cl_Namespace applied_cluster" by (simp_all add: orphaned_cluster_def)
  ultimately show ?thesis
    using example_applied example_owns late_shows(1) orphaning_during
    unfolding name releasing_example example_key_def [symmetric] by blast
qed

section \<open>A delete that comes late\<close>

definition built_namespace_object :: NamespaceObject where
  "built_namespace_object = merge_namespace (BuildNamespace example_claim) None"

text \<open>The namespace after a reconcile of the namesake has applied its own over it.\<close>

definition overtaken :: NamespaceObject where
  "overtaken = merge_namespace (BuildNamespace namesake) (Some built_namespace_object)"

lemma overtaken_labels:
  "carries_claim (claim_key namesake) (nso_Labels overtaken)" "\<not> carries_claim example_key (nso_Labels overtaken)"
proof -
  have "map_get (m ++ o_Labels (BuildNamespace namesake)) LabelClaim = ''shortlink''"
    "map_get (m ++ o_Labels (BuildNamespace namesake)) LabelClaimNamespace = ''other''" for m
    by (simp_all add: BuildNamespace_def Labels_def namesake_def example_claim_def map_get_def object_label_defs)
  then show "carries_claim (claim_key namesake) (nso_Labels overtaken)" "\<not> carries_claim example_key (nso_Labels overtaken)"
    by (simp_all add: carries_claim_def merge_namespace_def claim_key_def namesake_def example_claim_def example_key_def overtaken_def)
qed

definition late_delete :: "event list" where
  "late_delete = [GetClaim example_key (Inr deleted_claim), GetNamespace False (namespace_of example_key) (Inr built_namespace_object),
     DeleteNamespace (namespace_of example_key) None]"

lemma late_delete_reconcile:
  "run_state (Reconcile (granting_world deleted_claim (Inr built_namespace_object)) r example_key) [] =
     (Inr namespaceDeletionPoll, [] @ late_delete)"
proof -
  have "belongsTo (nso_Labels built_namespace_object) deleted_claim" "nso_DeletionTimestamp built_namespace_object = None"
    "nso_Name built_namespace_object = namespace_of example_key"
    by (simp_all add: carries_belongs deleting_key built_namespace_object_def merge_namespace_def example_key_simps)
  then show ?thesis
    by (simp add: late_delete_def Reconcile_def finalize_def run_defs granting_world_def deleting_key)
qed

text \<open>The cluster of the deletion, with a cache that shows the namespace as it is.\<close>

definition shown_cluster :: cluster where
  "shown_cluster = deleting_cluster\<lparr>cl_Older := []\<rparr>"

lemma shown_reachable: "reachable current example_reconciler example_key shown_cluster"
proof -
  have "others example_key deleting_cluster shown_cluster"
    using others.caught_up_namespace [of deleting_cluster None "[]" example_key]
    by (simp add: shown_cluster_def deleting_cluster_def applied_cluster_def)
  then have "during current example_key deleting_cluster late_delete shown_cluster" by (meson during.intros)
  from reachable.reconciled [OF example_applied late_delete_reconcile during_deletion [OF this]] show ?thesis .
qed

lemma shown_reads:
  "serves False example_key shown_cluster (GetClaim example_key (Inr deleted_claim)) shown_cluster"
  "serves False example_key shown_cluster (GetNamespace False (namespace_of example_key) (Inr built_namespace_object)) shown_cluster"
  by (rule serves.granted; simp add: deleting_key version_def orphaning_time_def shown_cluster_def deleting_cluster_def
      shown_def applied_cluster_def built_namespace_object_def merge_namespace_def example_key_simps)+

text \<open>
  C9: a delete is not tied to the namespace that was read. There is a reconcile of the example claim, which is being
  deleted, with a cache that shows all that is stored: it reads its namespace, which carries its labels; then a reconcile of
  a claim of the same name in another namespace applies its own namespace object over it, so that it carries the labels
  of that claim and no longer its own; and the delete, which goes by the name, hits the namespace all the same.
\<close>

theorem late_delete_hits_another_claim:
  "\<exists>s s' s''. reachable False example_reconciler example_key s \<and> cl_Older s = [] \<and>
     run_state (Reconcile (granting_world deleted_claim (Inr built_namespace_object)) example_reconciler example_key) [] =
       (Inr namespaceDeletionPoll, late_delete) \<and>
     serves False example_key s (late_delete ! 0) s \<and> serves False example_key s (late_delete ! 1) s \<and>
     sc_Name namesake = sc_Name example_claim \<and> claim_key namesake \<noteq> example_key \<and>
     others example_key s s' \<and> cl_Namespace s' = Some (merge_namespace (BuildNamespace namesake) (cl_Namespace s)) \<and>
     owns (claim_key namesake) s' \<and> \<not> owns example_key s' \<and>
     serves False example_key s' (late_delete ! 2) s'' \<and>
     owns (claim_key namesake) s'' \<and> map_option nso_DeletionTimestamp (cl_Namespace s'') = Some (Some ''now'')"
proof -
  let ?s = shown_cluster and ?s' = "put_namespace (Some overtaken) shown_cluster"
  let ?s'' = "put_namespace (Some (overtaken\<lparr>nso_DeletionTimestamp := Some ''now''\<rparr>)) ?s'"
  have ns: "cl_Namespace ?s = Some built_namespace_object"
    by (simp add: shown_cluster_def deleting_cluster_def applied_cluster_def built_namespace_object_def)
  have "serves False example_key ?s (late_delete ! 0) ?s" "serves False example_key ?s (late_delete ! 1) ?s"
    using shown_reads by (simp_all add: late_delete_def)
  moreover have own: "owns (claim_key namesake) ?s'" "\<not> owns example_key ?s'" "owns (claim_key namesake) ?s''"
    using overtaken_labels by (simp_all add: owns_def)
  moreover have "others example_key ?s ?s'" by (rule others.changed_namespace) (use own(2) in blast)
  moreover have "cl_Namespace ?s' = Some (merge_namespace (BuildNamespace namesake) (cl_Namespace ?s))"
    by (simp add: ns overtaken_def merge_namespace_def)
  moreover have "serves False example_key ?s' (late_delete ! 2) ?s''"
    by (rule serves.granted) (simp_all add: late_delete_def)
  moreover have "sc_Name namesake = sc_Name example_claim" "claim_key namesake \<noteq> example_key" "cl_Older ?s = []"
    by (simp_all add: namesake_def example_claim_def claim_key_def example_key_def shown_cluster_def)
  ultimately show ?thesis
    using late_delete_reconcile [of example_reconciler] shown_reachable
    by (intro exI [of _ ?s] exI [of _ ?s'] exI [of _ ?s'']) simp
qed

end
