(* ===== verification/Ctl_Isolation.thy ===== *)
theory Ctl_Isolation
  imports Ctl_Converge Ctl_Orphans
begin

text \<open>
  Claims of different names keep out of each other's way: a reconcile changes only what is in the namespace of its own
  claim, so the reconciles of two of them can be swapped, and a deletion takes what any version of the claim built,
  and nothing else.
\<close>

section \<open>What a reconcile can reach\<close>

text \<open>The API server answers a read with the object that was asked for.\<close>

fun as_asked :: "event \<Rightarrow> bool" where
  "as_asked (GetClaim k (Inr claim)) = (claim_key claim = k)"
| "as_asked (GetNamespace past_cache name (Inr ns)) = (nso_Name ns = name)"
| "as_asked _ = True"

fun stays_in :: "string \<Rightarrow> event \<Rightarrow> bool" where
  "stays_in ns (ApplyObject ob u answer) = gone_with ns (identity ob)"
| "stays_in ns (DeleteNamespace name err) = (name = ns)"
| "stays_in ns _ = True"

lemma gone_with_one: "gone_with ns i \<Longrightarrow> gone_with ns' i \<Longrightarrow> ns = ns'"
  by (cases i) (auto simp: gone_with_def split: if_splits)

lemma built_gone_with:
  assumes "Build sc storage = Inr obs" "ob \<in> set obs"
  shows "gone_with (namespace_of (claim_key sc)) (identity ob)"
proof -
  have "identity ob \<in> set (claim_identities sc storage)"
    using assms Build_identities [OF assms(1)] by (metis image_eqI list.set_map)
  then show ?thesis
    unfolding namespace_of [symmetric] by (auto simp: claim_identities_def Let_def gone_with_def split: if_splits)
qed

lemma attempted_mem: "ApplyObject ob u answer \<in> set es \<Longrightarrow> ob \<in> set (attempted es)"
  by (induction es rule: attempted.induct) auto

lemma harmless_stays_in:
  assumes "list_all harmless es" "\<And>ob. ob \<in> set (attempted es) \<Longrightarrow> gone_with ns (identity ob)"
  shows "list_all (stays_in ns) es"
  unfolding list_all_iff
proof
  fix e
  assume e: "e \<in> set es"
  with assms(1) have "harmless e" by (simp add: list_all_iff)
  moreover have "gone_with ns (identity ob)" if "e = ApplyObject ob u answer" for ob u answer
    using assms(2) attempted_mem e that by blast
  ultimately show "stays_in ns e" by (cases e) simp_all
qed

lemma reconcile_stays_in:
  assumes "reconcile_protocol r k new" "list_all as_asked new"
  shows "list_all (stays_in (namespace_of k)) new"
  using assms(1)
proof cases
  case (deleted claim es)
  with assms(2) have "claim_key claim = k" "list_all as_asked es" by simp_all
  with deleted show ?thesis by (auto simp: namespace_of elim!: deletion_protocolE)
next
  case (invalid claim es)
  with harmless_stays_in [of es "namespace_of k"] show ?thesis by (simp add: finalizer_guard_def)
next
  case (applied claim obs es)
  with assms(2) have "claim_key claim = k" by simp
  with applied built_gone_with [OF applied(3)] have "list_all (stays_in (namespace_of k)) es"
    by (intro harmless_stays_in) (auto dest: set_mono_prefix)
  with applied(1) show ?thesis by (simp add: finalizer_guard_def)
qed simp_all

section \<open>Histories of different claims commute\<close>

lemma objects_after_Cons: "objects_after (e # es) m = objects_after es (objects_after [e] m)"
  by (cases "(e # es, m)" rule: objects_after.cases) simp_all

lemma objects_after_append: "objects_after (xs @ ys) m = objects_after ys (objects_after xs m)"
proof (induction xs arbitrary: m)
  case (Cons e xs)
  show ?case
    unfolding append_Cons objects_after_Cons [of e "xs @ ys"] objects_after_Cons [of e xs] by (rule Cons.IH)
qed simp

lemma objects_after_outside:
  assumes "list_all (stays_in ns) es" "\<not> gone_with ns i"
  shows "objects_after es m i = m i"
  using assms(1)
proof (induction es arbitrary: m)
  case (Cons e es)
  have "objects_after [e] m i = m i"
    using Cons.prems assms(2) by (cases "([e], m)" rule: objects_after.cases) auto
  with Cons show ?case unfolding objects_after_Cons [of e es] by simp
qed simp

lemma objects_after_local: "m i = m' i \<Longrightarrow> objects_after es m i = objects_after es m' i"
proof (induction es arbitrary: m m')
  case (Cons e es)
  from Cons.prems have "objects_after [e] m i = objects_after [e] m' i"
    by (cases "([e], m)" rule: objects_after.cases) auto
  then show ?case unfolding objects_after_Cons [of e es] by (rule Cons.IH)
qed simp

lemma objects_after_swap:
  assumes "list_all (stays_in ns) xs" "list_all (stays_in ns') ys" "ns \<noteq> ns'"
  shows "objects_after (xs @ ys) m = objects_after (ys @ xs) m"
proof
  fix i
  show "objects_after (xs @ ys) m i = objects_after (ys @ xs) m i"
  proof (cases "gone_with ns i")
    case True
    with gone_with_one assms(3) have "\<not> gone_with ns' i" by blast
    then have ys: "objects_after ys m' i = m' i" for m' by (rule objects_after_outside [OF assms(2)])
    show ?thesis unfolding objects_after_append ys using objects_after_local [where m = m and m' = "objects_after ys m"] ys by simp
  next
    case False
    then have xs: "objects_after xs m' i = m' i" for m' by (rule objects_after_outside [OF assms(1)])
    show ?thesis unfolding objects_after_append xs using objects_after_local [where m = "objects_after xs m" and m' = m] xs by simp
  qed
qed

text \<open>
  C14: claims of different names do not interfere. Whatever else goes on, a reconcile of one leaves the objects of the
  other as they are, and two reconciles have the same effect in either order.
\<close>

theorem reconciles_do_not_interfere:
  assumes "run_state (Reconcile w r a) tr = (res, tr @ new)" and "list_all as_asked new"
    and "run_state (Reconcile w' r' b) tr' = (res', tr' @ new')" and "list_all as_asked new'" and "snd a \<noteq> snd b"
  shows "objects_after (new @ new') m = objects_after (new' @ new) m \<and>
         (\<forall>i. gone_with (namespace_of b) i \<longrightarrow> objects_after new m i = m i)"
proof -
  have a: "list_all (stays_in (namespace_of a)) new"
    by (rule reconcile_stays_in [OF appends_run [OF Reconcile_appends assms(1)] assms(2)])
  have b: "list_all (stays_in (namespace_of b)) new'"
    by (rule reconcile_stays_in [OF appends_run [OF Reconcile_appends assms(3)] assms(4)])
  have ns: "namespace_of a \<noteq> namespace_of b" using assms(5) by (simp add: namespace_of_def)
  with objects_after_swap [OF a b] objects_after_outside [OF a] gone_with_one show ?thesis by blast
qed

section \<open>A deletion\<close>

text \<open>The calls of a reconcile that deletes a namespace end with the deletion, and nothing was applied.\<close>

lemma deletion_last:
  assumes "reconcile_protocol r k new" "DeleteNamespace ns None \<in> set new"
  shows "\<exists>claim answer. new = [GetClaim k (Inr claim), GetNamespace False (NamespaceName claim) answer, DeleteNamespace ns None]"
  using assms
  by (cases rule: reconcile_protocol.cases)
    (auto simp: list_all_iff finalizer_guard_def elim!: deletion_protocolE split: if_splits)

text \<open>
  C15: a deletion takes all of a claim and nothing else. When a reconcile deletes a namespace, every object
  that any version of the claim built, whatever its tier and storage were, is gone, and every object outside the
  claim's namespace is as it was.
\<close>

theorem deletion_takes_the_claim:
  assumes "run_state (Reconcile w r k) tr = (res, tr @ new)" and "list_all as_asked new"
    and "DeleteNamespace ns None \<in> set new"
  shows "objects_after new m = (\<lambda>i. if gone_with (namespace_of k) i then None else m i) \<and>
         (\<forall>sc storage obs. claim_key sc = k \<longrightarrow> Build sc storage = Inr obs \<longrightarrow>
            (\<forall>ob \<in> set obs. objects_after new m (identity ob) = None))"
proof -
  have protocol: "reconcile_protocol r k new" by (rule appends_run [OF Reconcile_appends assms(1)])
  have "DeleteNamespace ns None \<in> set new \<longrightarrow> ns = namespace_of k"
    using reconcile_stays_in [OF protocol assms(2)] by (auto simp: list_all_iff)
  with deletion_last [OF protocol assms(3)] assms(3) have
    after: "objects_after new m = (\<lambda>i. if gone_with (namespace_of k) i then None else m i)" by auto
  with built_gone_with show ?thesis by auto
qed

section \<open>Examples\<close>

text \<open>The example claim is applied, and a claim of another name is deleted.\<close>

definition billing_claim :: ServiceClaim where
  "billing_claim = deleted_claim\<lparr>sc_Name := ''billing''\<rparr>"

definition billing_namespace :: NamespaceObject where
  "billing_namespace = \<lparr>nso_Name = ''svc-billing'', nso_Labels = Labels billing_claim, nso_DeletionTimestamp = None\<rparr>"

definition billing_events :: "event list" where
  "billing_events = [GetClaim (''default'', ''billing'') (Inr billing_claim), GetNamespace False ''svc-billing'' (Inr billing_namespace),
     DeleteNamespace ''svc-billing'' None]"

lemma billing_reconcile:
  "run_state (Reconcile (granting_world billing_claim (Inr billing_namespace)) r (''default'', ''billing'')) [] =
     (Inr namespaceDeletionPoll, [] @ billing_events)"
proof -
  have "belongsTo (nso_Labels billing_namespace) billing_claim" "nso_DeletionTimestamp billing_namespace = None"
    "nso_Name billing_namespace = ''svc-billing''" "NamespaceName billing_claim = ''svc-billing''"
    "sc_DeletionTimestamp billing_claim \<noteq> None" "Finalizer \<in> set (sc_Finalizers billing_claim)"
    by (simp_all add: belongsTo_def billing_namespace_def Labels_def object_label_defs map_get_def billing_claim_def NamespaceName_def
        namespacePrefix_def)
  then show ?thesis
    by (simp add: billing_events_def Reconcile_def finalize_def run_defs granting_world_def)
qed

lemma billing_as_asked: "list_all as_asked billing_events"
  by (simp add: billing_events_def billing_claim_def billing_namespace_def claim_key_def deleted_claim_def example_claim_def)

theorem reconciles_do_not_interfere_witness:
  "\<exists>new. run_state (Reconcile (granting_world example_claim (Inr example_namespace)) example_reconciler (''default'', ''shortlink'')) [] =
       (Inr sloRefreshInterval, [] @ new) \<and> attempted new \<noteq> [] \<and>
     objects_after (new @ billing_events) Map.empty = objects_after (billing_events @ new) Map.empty"
proof -
  obtain obs where b: "Build example_claim None = Inr obs" using example_Build [of None] unfolding succeeds_iff by blast
  from granted_reconcile [OF b, of "Inr example_namespace" "(''default'', ''shortlink'')"] obtain new where
    run: "run_state (Reconcile (granting_world example_claim (Inr example_namespace)) example_reconciler (''default'', ''shortlink'')) [] =
      (Inr sloRefreshInterval, [] @ new)" and new: "list_all as_asked new" "attempted new = obs"
    by (auto simp: list_all_iff claim_key_def example_claim_def)
  from reconciles_do_not_interfere [OF run new(1) billing_reconcile billing_as_asked] run new(2) bs.nonempty [OF b]
  show ?thesis by auto
qed

theorem deletion_takes_the_claim_witness:
  "objects_after billing_events [(''v1'', ''Service'', ''svc-billing'', ''billing'') \<mapsto> BuildService billing_claim] = Map.empty"
proof -
  have "DeleteNamespace ''svc-billing'' None \<in> set billing_events" by (simp add: billing_events_def)
  from deletion_takes_the_claim [OF billing_reconcile [of example_reconciler] billing_as_asked this]
  show ?thesis by (auto simp: gone_with_def namespace_of_def namespacePrefix_def)
qed

end
