(* ===== verification/Ctl_Accept.thy ===== *)
theory Ctl_Accept
  imports Ctl_Converge
begin

text \<open>
  What the API server takes of the objects of a claim: the names and labels it validates, and for which claims every
  object passes. A claim that the schema of ServiceClaims admits can have objects that never do, and then no reconcile
  of it ever succeeds.
\<close>

section \<open>Names and label values\<close>

text \<open>
  The rules of Kubernetes for the names of objects (labels and subdomains of RFC 1123, labels of RFC 1035 for a Service
  unless the feature \<open>RelaxedServiceNameValidation\<close> is on)
  and for the values of labels.
\<close>

definition lower_alpha :: "char \<Rightarrow> bool" where
  "lower_alpha c \<longleftrightarrow> 97 \<le> byte c \<and> byte c \<le> 122"

definition lower_alnum :: "char \<Rightarrow> bool" where
  "lower_alnum c \<longleftrightarrow> lower_alpha c \<or> is_digit c"

definition alnum :: "char \<Rightarrow> bool" where
  "alnum c \<longleftrightarrow> lower_alnum c \<or> 65 \<le> byte c \<and> byte c \<le> 90"

definition dns_word :: "string \<Rightarrow> bool" where
  "dns_word s \<longleftrightarrow>
     s \<noteq> [] \<and> lower_alnum (hd s) \<and> lower_alnum (last s) \<and> list_all (\<lambda>c. lower_alnum c \<or> c = CHR ''-'') s"

definition dns1123_label :: "string \<Rightarrow> bool" where
  "dns1123_label s \<longleftrightarrow> dns_word s \<and> length s \<le> 63"

definition dns1035_label :: "string \<Rightarrow> bool" where
  "dns1035_label s \<longleftrightarrow> dns1123_label s \<and> lower_alpha (hd s)"

fun dot_parts :: "string \<Rightarrow> string list" where
  "dot_parts [] = [[]]"
| "dot_parts (c # s) =
     (if c = CHR ''.'' then [] # dot_parts s else (c # hd (dot_parts s)) # tl (dot_parts s))"

definition dns1123_subdomain :: "string \<Rightarrow> bool" where
  "dns1123_subdomain s \<longleftrightarrow> length s \<le> 253 \<and> list_all dns_word (dot_parts s)"

definition label_value :: "string \<Rightarrow> bool" where
  "label_value s \<longleftrightarrow>
     s = [] \<or> alnum (hd s) \<and> alnum (last s) \<and> length s \<le> 63 \<and>
       list_all (\<lambda>c. alnum c \<or> c \<in> {CHR ''-'', CHR ''_'', CHR ''.''}) s"

definition object_name_ok :: "string \<Rightarrow> string \<Rightarrow> bool" where
  "object_name_ok kind name =
     (if kind = ''Namespace'' then dns1123_label name
      else if kind = ''Service'' then dns1035_label name
      else dns1123_subdomain name)"

definition acceptable :: "client_object \<Rightarrow> bool" where
  "acceptable ob \<longleftrightarrow>
     object_name_ok (o_Kind ob) (o_Name ob) \<and> (o_Namespace ob = [] \<or> dns1123_label (o_Namespace ob)) \<and>
     (\<forall>v \<in> ran (o_Labels ob). label_value v)"

lemma lower_alnum_alnum: "lower_alnum c \<Longrightarrow> alnum c" by (simp add: alnum_def)

lemma dot_not_lower_alnum [simp]: "\<not> lower_alnum CHR ''.''"
  by (simp add: lower_alnum_def lower_alpha_def is_digit_def)

lemma dot_parts_plain: "CHR ''.'' \<notin> set s \<Longrightarrow> dot_parts s = [s]"
  by (induction s) auto

lemma dns_word_no_dot: "dns_word s \<Longrightarrow> CHR ''.'' \<notin> set s"
  by (auto simp: dns_word_def list_all_iff)

lemma dns_word_subdomain: "dns_word s \<Longrightarrow> length s \<le> 253 \<Longrightarrow> dns1123_subdomain s"
  by (simp add: dns1123_subdomain_def dot_parts_plain dns_word_no_dot)

lemma subdomain_hd:
  assumes "dns1123_subdomain s"
  shows "s \<noteq> [] \<and> lower_alnum (hd s)"
proof (cases s)
  case (Cons c t)
  with assms show ?thesis by (cases "c = CHR ''.''") (auto simp: dns1123_subdomain_def dns_word_def)
qed (use assms in \<open>simp add: dns1123_subdomain_def dns_word_def\<close>)

lemma dns_word_append: "dns_word a \<Longrightarrow> dns_word b \<Longrightarrow> list_all (\<lambda>c. lower_alnum c \<or> c = CHR ''-'') m \<Longrightarrow> dns_word (a @ m @ b)"
  by (auto simp: dns_word_def)

lemma dns1123_label_value: "dns1123_label s \<Longrightarrow> label_value s"
  by (auto simp: dns1123_label_def dns_word_def label_value_def lower_alnum_alnum list_all_iff)

section \<open>The objects of a claim\<close>

text \<open>The longest name with which \<open>svc-<name>\<close> is a label.\<close>

definition name_limit :: nat where "name_limit = 63 - length namespacePrefix"

definition nameable :: "ServiceClaim \<Rightarrow> bool" where
  "nameable sc \<longleftrightarrow>
     dns_word (sc_Name sc) \<and> length (sc_Name sc) \<le> name_limit \<and> (HasAutoscaling sc \<longrightarrow> lower_alpha (hd (sc_Name sc)))"

lemma name_limit: "name_limit = 59" by (simp add: name_limit_def namespacePrefix_def)

lemma dns_words [simp]: "dns_word ''svc''" "dns_word ''dashboard''" "dns_word ''runbook''" "dns_word ''canary''"
  by (simp_all add: dns_word_def lower_alnum_def lower_alpha_def)

lemma namespace_label:
  assumes "dns1123_subdomain (sc_Name sc)"
  shows "dns1123_label (NamespaceName sc) \<longleftrightarrow> dns_word (sc_Name sc) \<and> length (sc_Name sc) \<le> name_limit"
proof
  assume "dns_word (sc_Name sc) \<and> length (sc_Name sc) \<le> name_limit"
  with dns_word_append [of "''svc''" "sc_Name sc" "''-''"] show "dns1123_label (NamespaceName sc)"
    by (simp add: dns1123_label_def NamespaceName_def namespacePrefix_def name_limit)
next
  assume label: "dns1123_label (NamespaceName sc)"
  from subdomain_hd [OF assms] have start: "sc_Name sc \<noteq> []" "lower_alnum (hd (sc_Name sc))" by simp_all
  from label start have "dns_word (sc_Name sc)"
    by (simp add: dns1123_label_def NamespaceName_def namespacePrefix_def dns_word_def)
  moreover from label have "length (sc_Name sc) \<le> name_limit"
    by (simp add: dns1123_label_def NamespaceName_def namespacePrefix_def name_limit)
  ultimately show "dns_word (sc_Name sc) \<and> length (sc_Name sc) \<le> name_limit" ..
qed

lemma suffixed_subdomain:
  assumes "dns_word n" "length n \<le> name_limit" "dns_word s" "length s \<le> 190"
  shows "dns1123_subdomain (n @ CHR ''-'' # s)"
proof (rule dns_word_subdomain)
  from dns_word_append [OF assms(1,3), of "[CHR ''-'']"] show "dns_word (n @ CHR ''-'' # s)" by simp
  from assms(2,4) show "length (n @ CHR ''-'' # s) \<le> 253" by (simp add: name_limit)
qed

lemma claim_names_ok:
  assumes "nameable sc"
  shows "list_all (\<lambda>(api, kind, namespace, name). object_name_ok kind name \<and> (namespace = [] \<or> dns1123_label namespace))
    (claim_identities sc storage)"
proof -
  from assms have n: "dns_word (sc_Name sc)" "length (sc_Name sc) \<le> name_limit" by (simp_all add: nameable_def)
  then have sub: "dns1123_subdomain (sc_Name sc)" by (intro dns_word_subdomain) (simp_all add: name_limit)
  with n have ns: "dns1123_label (NamespaceName sc)" by (simp add: namespace_label)
  have service: "HasAutoscaling sc \<Longrightarrow> dns1035_label (sc_Name sc)"
    using assms n by (simp add: nameable_def dns1035_label_def dns1123_label_def name_limit)
  have suffixed: "dns1123_subdomain (sc_Name sc @ ''-canary'')" "dns1123_subdomain (sc_Name sc @ ''-dashboard'')"
    "dns1123_subdomain (sc_Name sc @ ''-runbook'')"
    by (simp_all add: suffixed_subdomain n)
  show ?thesis
    by (simp add: claim_identities_def Let_def object_name_ok_def sub ns service suffixed)
qed

lemma Build_label_cases:
  assumes "Build sc storage = Inr obs" "ob \<in> set obs"
  shows "o_Labels ob \<in> {Labels sc, (Labels sc)(DashboardLabel \<mapsto> dashboardLabelValue)}"
  using assms(1)
proof (rule Build_Inr)
  fix rule dashboard runbook
  assume "BuildPrometheusRule sc = Inr rule" "BuildDashboard sc = Inr dashboard" "BuildRunbook sc = Inr runbook"
  then have docs: "o_Labels rule = Labels sc" "o_Labels runbook = Labels sc"
    "o_Labels dashboard = (Labels sc)(DashboardLabel \<mapsto> dashboardLabelValue)"
    by (auto dest!: BuildPrometheusRule_shape BuildDashboard_shape BuildRunbook_shape)
  assume "obs = BuildNamespace sc # BuildServiceAccount sc
       # (if HasStorage sc storage then [BuildStorageRole sc (the storage), BuildStorageBucket sc (the storage)] else [])
       @ (if HasCanaryAnalysis sc then [BuildAnalysisTemplate sc] else [])
       @ [BuildRollout sc storage, BuildNetworkPolicy sc, rule, BuildServiceMonitor sc, dashboard, runbook]
       @ (if HasAutoscaling sc then [BuildService sc, BuildHPA sc, BuildPodDisruptionBudget sc] else [])
       @ (if sc_Tier sc = TierPublic then [BuildIngress sc] else [])"
  with assms(2) docs show ?thesis by (auto simp: built_labels split: if_splits)
qed

lemma label_values:
  "ran (Labels sc) = {sc_Name sc, ManagedBy, sc_Namespace sc, spec_Owner (sc_Spec sc)}"
  by (simp add: Labels_def object_label_defs ran_map_upd insert_commute)

lemma label_values_dashboard:
  "ran ((Labels sc)(DashboardLabel \<mapsto> dashboardLabelValue)) = insert dashboardLabelValue (ran (Labels sc))"
  by (rule ran_map_upd) (simp add: Labels_def object_label_defs DashboardLabel_def)

lemma Labels_values_ok:
  assumes "dns_word (sc_Name sc)" "length (sc_Name sc) \<le> name_limit" "dns1123_label (sc_Namespace sc)"
    "label_value (spec_Owner (sc_Spec sc))" "labels \<in> {Labels sc, (Labels sc)(DashboardLabel \<mapsto> dashboardLabelValue)}"
  shows "\<forall>v \<in> ran labels. label_value v"
proof -
  have "label_value (sc_Name sc)" "label_value (sc_Namespace sc)"
    using assms by (simp_all add: dns1123_label_value dns1123_label_def name_limit)
  moreover have "label_value ManagedBy" "label_value dashboardLabelValue" by code_simp+
  ultimately show ?thesis using assms(4,5) by (auto simp: label_values label_values_dashboard)
qed

lemma set_identities:
  assumes "Build sc storage = Inr obs"
  shows "set (claim_identities sc storage) = identity ` set obs"
  using Build_identities [OF assms] by (metis set_map)

lemma nameable_acceptable:
  assumes "nameable sc" "dns1123_label (sc_Namespace sc)" "label_value (spec_Owner (sc_Spec sc))"
    "Build sc storage = Inr obs"
  shows "list_all acceptable obs"
proof -
  have names: "list_all (\<lambda>ob. object_name_ok (o_Kind ob) (o_Name ob) \<and> (o_Namespace ob = [] \<or> dns1123_label (o_Namespace ob))) obs"
    using claim_names_ok [OF assms(1), of storage]
    unfolding list_all_iff set_identities [OF assms(4)] by (simp add: identity_def)
  have "\<forall>v \<in> ran (o_Labels ob). label_value v" if "ob \<in> set obs" for ob
    by (rule Labels_values_ok [OF _ _ assms(2,3) Build_label_cases [OF assms(4) that]])
      (use assms(1) in \<open>simp_all add: nameable_def\<close>)
  with names show ?thesis by (simp add: list_all_iff acceptable_def)
qed

text \<open>One acceptable object is enough for the owner to be the value of a label and the namespace's name to be a label.\<close>

lemma acceptable_object:
  assumes "Build sc storage = Inr obs" "ob \<in> set obs" "acceptable ob"
  shows "label_value (spec_Owner (sc_Spec sc)) \<and> dns1123_label (NamespaceName sc)"
proof
  have "spec_Owner (sc_Spec sc) \<in> ran (o_Labels ob)"
    using Build_label_cases [OF assms(1,2)] by (auto simp: label_values label_values_dashboard)
  with assms(3) show "label_value (spec_Owner (sc_Spec sc))" by (simp add: acceptable_def)
next
  have "list_all (\<lambda>(api, kind, namespace, name). object_name_ok kind name \<and> (namespace = [] \<or> dns1123_label namespace) \<longrightarrow>
      dns1123_label (NamespaceName sc)) (claim_identities sc storage)"
    by (simp add: claim_identities_def Let_def object_name_ok_def NamespaceName_def namespacePrefix_def)
  then have "object_name_ok (o_Kind ob) (o_Name ob) \<and> (o_Namespace ob = [] \<or> dns1123_label (o_Namespace ob)) \<longrightarrow>
      dns1123_label (NamespaceName sc)"
    using assms(2) unfolding list_all_iff set_identities [OF assms(1)] by (auto simp: identity_def)
  with assms(3) show "dns1123_label (NamespaceName sc)" by (simp add: acceptable_def)
qed

lemma acceptable_service:
  assumes "Build sc storage = Inr obs" "list_all acceptable obs" "HasAutoscaling sc"
  shows "lower_alpha (hd (sc_Name sc))"
proof -
  have "(''v1'', ''Service'', NamespaceName sc, sc_Name sc) \<in> set (claim_identities sc storage)"
    using assms(3) by (simp add: claim_identities_def Let_def)
  then obtain ob where "ob \<in> set obs" "o_Kind ob = ''Service''" "o_Name ob = sc_Name sc"
    unfolding set_identities [OF assms(1)] by (auto simp: identity_def)
  with assms(2) have "object_name_ok ''Service'' (sc_Name sc)" by (auto simp: list_all_iff acceptable_def)
  then show ?thesis by (simp add: object_name_ok_def dns1035_label_def)
qed

lemma acceptable_nameable:
  assumes "dns1123_subdomain (sc_Name sc)" "Build sc storage = Inr obs" "list_all acceptable obs"
  shows "nameable sc \<and> label_value (spec_Owner (sc_Spec sc))"
proof -
  have "hd obs \<in> set obs" using conjunct1 [OF bs.nonempty [OF assms(2)]] by (rule hd_in_set)
  with acceptable_object [OF assms(2)] assms(3)
  have "label_value (spec_Owner (sc_Spec sc))" "dns1123_label (NamespaceName sc)" by (auto simp: list_all_iff)
  with acceptable_service [OF assms(2,3)] namespace_label [OF assms(1)] show ?thesis by (simp add: nameable_def)
qed

text \<open>
  C13: the objects of a claim have names and labels the API server takes exactly when the claim's name is a label of at
  most 59 characters, one that starts with a letter if the claim has a Service, and its owner is the value of a label.
\<close>

theorem objects_acceptable_iff:
  assumes "dns1123_subdomain (sc_Name sc)" and "dns1123_label (sc_Namespace sc)" and "Build sc storage = Inr obs"
  shows "list_all acceptable obs \<longleftrightarrow> nameable sc \<and> label_value (spec_Owner (sc_Spec sc))"
  using acceptable_nameable [OF assms(1,3)] nameable_acceptable [OF _ assms(2) _ assms(3)] by blast

lemma example_names: "dns1123_subdomain ''shortlink''" "dns1123_label ''default''" "dns_word ''shortlink''" "label_value ''payments''"
  "lower_alpha CHR ''s''"
  by code_simp+

theorem objects_acceptable_iff_witness:
  "\<exists>obs. Build example_claim None = Inr obs \<and> list_all acceptable obs"
proof -
  obtain obs where b: "Build example_claim None = Inr obs" using example_Build [of None] unfolding succeeds_iff by blast
  from objects_acceptable_iff [OF _ _ b] have "list_all acceptable obs"
    by (simp add: example_claim_def example_names nameable_def name_limit)
  with b show ?thesis by blast
qed

section \<open>Claims that never reconcile\<close>

text \<open>A history in which the API server takes no object it does not accept.\<close>

definition api_validates :: "event list \<Rightarrow> bool" where
  "api_validates es \<longleftrightarrow> list_all acceptable (applied_in es)"

lemma applied_in_subset: "set (applied_in es) \<subseteq> set (attempted es)"
  by (induction es rule: applied_in.induct) auto

lemma live_applied_built:
  assumes "reconcile_protocol r req (GetClaim req (Inr claim) # rest)" "sc_DeletionTimestamp claim = None"
    "Build claim (rc_Storage r) = Inr obs"
  shows "set (applied_in rest) \<subseteq> set obs"
proof -
  have "set (attempted rest) \<subseteq> set obs"
    using assms by (cases rule: reconcile_protocol.cases) (auto simp: finalizer_guard_def dest: set_mono_prefix)
  with applied_in_subset show ?thesis by blast
qed

lemma live_success_applied:
  assumes "run_state (Reconcile w r req) tr = (Inr d, tr @ GetClaim req (Inr claim) # rest)"
    "sc_DeletionTimestamp claim = None" "Build claim (rc_Storage r) = Inr obs"
  shows "applied_in rest = obs"
proof -
  have "live_events r claim (Inr d) rest"
    using appends_run [OF Reconcile_live_events assms(1)] assms(2) by blast
  with assms(3) show ?thesis by (simp add: live_events_def)
qed

text \<open>
  C12: a claim whose name or owner the API server does not take in its objects fails every time it is reconciled,
  whatever else goes on, though the schema of ServiceClaims admits it. Only where the name of the
  Service is what is wrong is anything of it created.
\<close>

theorem unacceptable_claim_fails:
  assumes "run_state (Reconcile w r req) tr = (res, tr @ GetClaim req (Inr claim) # rest)"
    and "sc_DeletionTimestamp claim = None" and "Build claim (rc_Storage r) = Inr obs" and "api_validates rest"
    and "dns1123_subdomain (sc_Name claim)" and "\<not> (nameable claim \<and> label_value (spec_Owner (sc_Spec claim)))"
  shows "isl res \<and>
     (applied_in rest \<noteq> [] \<longrightarrow> label_value (spec_Owner (sc_Spec claim)) \<and> dns_word (sc_Name claim) \<and>
        length (sc_Name claim) \<le> name_limit \<and> HasAutoscaling claim \<and> is_digit (hd (sc_Name claim)))"
proof (rule conjI)
  have valid: "list_all acceptable (applied_in rest)" using assms(4) by (simp add: api_validates_def)
  show "isl res"
  proof (cases res)
    case (Inr d)
    from live_success_applied [OF assms(1) [unfolded Inr] assms(2,3)] valid acceptable_nameable [OF assms(5,3)] assms(6)
    show ?thesis by simp
  qed simp
  show "applied_in rest \<noteq> [] \<longrightarrow> label_value (spec_Owner (sc_Spec claim)) \<and> dns_word (sc_Name claim) \<and>
      length (sc_Name claim) \<le> name_limit \<and> HasAutoscaling claim \<and> is_digit (hd (sc_Name claim))"
  proof
    assume "applied_in rest \<noteq> []"
    then have "hd (applied_in rest) \<in> set (applied_in rest)" by (rule hd_in_set)
    moreover from this have "hd (applied_in rest) \<in> set obs"
      using live_applied_built [OF appends_run [OF Reconcile_appends assms(1)] assms(2,3)] by blast
    ultimately have ok: "label_value (spec_Owner (sc_Spec claim)) \<and> dns1123_label (NamespaceName claim)"
      using acceptable_object [OF assms(3)] valid by (simp add: list_all_iff)
    with namespace_label [OF assms(5)] have "dns_word (sc_Name claim) \<and> length (sc_Name claim) \<le> name_limit" by simp
    moreover from this ok assms(6) have "HasAutoscaling claim" "\<not> lower_alpha (hd (sc_Name claim))" by (auto simp: nameable_def)
    ultimately show "label_value (spec_Owner (sc_Spec claim)) \<and> dns_word (sc_Name claim) \<and>
        length (sc_Name claim) \<le> name_limit \<and> HasAutoscaling claim \<and> is_digit (hd (sc_Name claim))"
      using ok by (auto simp: dns_word_def lower_alnum_def)
  qed
qed

text \<open>A claim that the schema takes, owned by a team with a space in its name, and an API server that takes none of its objects.\<close>

definition spaced_claim :: ServiceClaim where
  "spaced_claim = example_claim\<lparr>sc_Spec := (sc_Spec example_claim)\<lparr>spec_Owner := ''Team Growth''\<rparr>, sc_Finalizers := [Finalizer]\<rparr>"

definition rejecting_world :: world where
  "rejecting_world = (granting_world spaced_claim (Inr example_namespace))\<lparr>w_applyObject := \<lambda>tr ob u. Inl (Errorf ''invalid label'')\<rparr>"

lemma spaced_simps [simp]:
  "sc_DeletionTimestamp spaced_claim = None" "sc_Finalizers spaced_claim = [Finalizer]" "\<not> spec_Storage (sc_Spec spaced_claim)"
  "spec_Owner (sc_Spec spaced_claim) = ''Team Growth''" "sc_Name spaced_claim = ''shortlink''"
  "status_Conditions (sc_Status spaced_claim) = []"
  by (simp_all add: spaced_claim_def example_claim_def)

lemma spaced_valid: "valid_claim spaced_claim" by code_simp

lemma spaced_Build: "succeeds (Build spaced_claim storage)"
proof -
  have "ErrorBudget (slo_Objective (sc_SLO spaced_claim)) = Inr (1 / 200)" "SLOWindow (slo_Window (sc_SLO spaced_claim)) = Inr 2419200000000000"
    using example_budget example_window by (simp_all add: spaced_claim_def)
  then have "succeeds (BuildPrometheusRule spaced_claim) \<and> succeeds (BuildDashboard spaced_claim) \<and> succeeds (BuildRunbook spaced_claim)"
    unfolding BuildPrometheusRule_usable BuildDashboard_usable BuildRunbook_usable usable_SLO_def
    by (simp add: usable_SLI_def spaced_claim_def example_claim_def sli_types)
  then show ?thesis unfolding succeeds_iff by (auto simp: Build_def and_then_Inr_iff)
qed

lemma rejected_apply:
  "obs \<noteq> [] \<Longrightarrow> \<exists>e u a. run_state (applyObjects rejecting_world example_reconciler obs) tr =
     ((0, [], Some e), tr @ [ApplyObject (hd obs) u (Inl a)])"
  by (cases obs) (simp_all add: applyObjects_def run_defs toApplyObject_def liveOwnership_def example_reconciler_def
    rejecting_world_def granting_world_def)

lemma rejected_status:
  "run_state (applyStatus rejecting_world example_reconciler c managed report storage conds) tr =
     (None, tr @ [ApplyStatus (claim_key c) (status_patch c managed report storage ''2026-01-01T00:00:00Z''
        (foldl set_condition (status_Conditions (sc_Status c)) conds)) None])"
proof -
  have "traverse (\<lambda>c. map_error (f c) (Inr c)) cs = Inr cs" for f :: "condition \<Rightarrow> error \<Rightarrow> error" and cs
    using traverse_total [of cs "\<lambda>c. map_error (f c) (Inr c)" id] by simp
  then show ?thesis
    by (simp add: applyStatus_def run_defs example_reconciler_def rejecting_world_def granting_world_def apimachinery_def)
qed

lemma rejected_objects:
  assumes "obs \<noteq> []"
  shows "\<exists>e new. run_state (reconcile_objects rejecting_world example_reconciler spaced_claim obs) tr = (Inl e, tr @ new) \<and>
    applied_in new = []"
proof -
  let ?w = "rejecting_world" and ?r = example_reconciler
  have sync: "\<not> inSyncAtGeneration (rc_Meta ?r) spaced_claim"
    by (simp add: inSyncAtGeneration_def example_reconciler_def apimachinery_def find_condition_def)
  from rejected_apply [OF assms, of tr] obtain e u a where
    objects: "run_state (applyObjects ?w ?r obs) tr = ((0, [], Some e), tr @ [ApplyObject (hd obs) u (Inl a)])" by blast
  have storage: "run_state (evaluateStorage ?w ?r spaced_claim) h = (\<lparr>sr_condition = None, sr_status = None\<rparr>, h)" for h
    by (simp add: evaluateStorage_def run_return)
  have rollout: "run_state (read_rollout ?w ?r spaced_claim (Some e)) h = ((zero_rollout, None), h)" for h
    by (simp add: read_rollout_def run_return)
  obtain e' where "errors_Join [Some e, None] = Some e'"
    by (cases "errors_Join [Some e, None]") (simp_all add: errors_Join_None)
  then show ?thesis
    unfolding reconcile_objects_def Let_def
    by (simp add: State_Monad.bind_def objects sync run_return run_ask storage rollout rejected_status)
qed

lemma rejected_reconcile:
  obtains obs e rest where "Build spaced_claim None = Inr obs" "applied_in rest = []"
    "run_state (Reconcile rejecting_world example_reconciler (''default'', ''shortlink'')) [] =
       (Inl e, [] @ GetClaim (''default'', ''shortlink'') (Inr spaced_claim) # rest)"
proof -
  obtain obs where b: "Build spaced_claim None = Inr obs" using spaced_Build [of None] unfolding succeeds_iff by blast
  have get: "w_getClaim rejecting_world tr k = Inr spaced_claim" for tr k
    by (simp add: rejecting_world_def granting_world_def)
  have none: "rc_Storage example_reconciler = None" by (simp add: example_reconciler_def)
  from rejected_objects [OF conjunct1 [OF bs.nonempty [OF b]], of "[GetClaim (''default'', ''shortlink'') (Inr spaced_claim)]"]
  obtain e new where "applied_in new = []" "run_state (Reconcile rejecting_world example_reconciler (''default'', ''shortlink'')) [] =
       (Inl e, [] @ GetClaim (''default'', ''shortlink'') (Inr spaced_claim) # new)"
    by (auto simp: Reconcile_def reconcile_live_def run_defs get none b)
  with b show thesis by (intro that)
qed

theorem unacceptable_claim_fails_witness:
  "valid_claim spaced_claim \<and>
   (\<exists>res rest. run_state (Reconcile rejecting_world example_reconciler (''default'', ''shortlink'')) [] =
      (res, [] @ GetClaim (''default'', ''shortlink'') (Inr spaced_claim) # rest) \<and> isl res \<and> applied_in rest = [])"
proof (rule rejected_reconcile)
  fix obs e rest
  assume b: "Build spaced_claim None = Inr obs" and none: "applied_in rest = []"
    and run: "run_state (Reconcile rejecting_world example_reconciler (''default'', ''shortlink'')) [] =
       (Inl e, [] @ GetClaim (''default'', ''shortlink'') (Inr spaced_claim) # rest)"
  have owner: "\<not> label_value ''Team Growth''" by code_simp
  have "Build spaced_claim (rc_Storage example_reconciler) = Inr obs" using b by (simp add: example_reconciler_def)
  from unacceptable_claim_fails [OF run _ this] none owner example_names(1)
  have "isl (Inl e :: int result) \<and> \<not> applied_in rest \<noteq> []" by (simp add: api_validates_def)
  with run spaced_valid none show ?thesis by blast
qed

end
