(* ===== verification/Go_Flag.thy ===== *)
theory Go_Flag
  imports Go_Strconv
begin

text \<open>
  Package \<open>flag\<close> of the standard library, as the three programs use it: a flag set of boolean, integer and string flags
  over a record of variables, parsed from the command line with \<open>ExitOnError\<close>. What cannot be parsed ends the
  process with code 2, a request for help with code 0.
\<close>

section \<open>strconv.ParseBool and ParseInt\<close>

definition ParseBool :: "string \<Rightarrow> bool option" where
  "ParseBool s =
     (if s \<in> {''1'', ''t'', ''T'', ''true'', ''TRUE'', ''True''} then Some True
      else if s \<in> {''0'', ''f'', ''F'', ''false'', ''FALSE'', ''False''} then Some False
      else None)"

text \<open>\<open>ParseInt(s, 0, 64)\<close>: the base is read off the prefix, and underscores may stand between digits.\<close>

definition int_base :: "string \<Rightarrow> int \<times> string" where
  "int_base s =
     (if hd s \<noteq> CHR ''0'' then (10, s)
      else if 3 \<le> length s \<and> lower (s ! 1) = CHR ''b'' then (2, drop 2 s)
      else if 3 \<le> length s \<and> lower (s ! 1) = CHR ''o'' then (8, drop 2 s)
      else if 3 \<le> length s \<and> lower (s ! 1) = CHR ''x'' then (16, drop 2 s)
      else (8, drop 1 s))"

fun int_digits :: "int \<Rightarrow> int \<Rightarrow> string \<Rightarrow> int option" where
  "int_digits base n [] = Some n"
| "int_digits base n (c # s) =
     (if c = CHR ''_'' then int_digits base n s
      else case base_digit base c of
        None \<Rightarrow> None
      | Some d \<Rightarrow> if base \<le> d then None else int_digits base (n * base + d) s)"

text \<open>\<open>underscoreOK\<close> on the text without its sign; a base prefix counts as a digit.\<close>

definition int_underscores_ok :: "string \<Rightarrow> bool" where
  "int_underscores_ok s =
     (let prefixed = (2 \<le> length s \<and> hd s = CHR ''0'' \<and> lower (s ! 1) \<in> {CHR ''b'', CHR ''o'', CHR ''x''})
      in if prefixed then underscores_ok (lower (s ! 1) = CHR ''x'') CHR ''0'' (drop 2 s)
         else underscores_ok False CHR ''^'' s)"

definition ParseInt :: "string \<Rightarrow> int option" where
  "ParseInt s =
     (let (neg, u) = float_sign s
      in if u = [] then None
         else let (base, digits) = int_base u
              in case int_digits base 0 digits of
                   None \<Rightarrow> None
                 | Some n \<Rightarrow>
                     if CHR ''_'' \<in> set u \<and> \<not> int_underscores_ok u then None
                     else if (if neg then n \<le> 2 ^ 63 else n < 2 ^ 63) then Some (if neg then - n else n) else None)"

section \<open>Parsing the command line\<close>

text \<open>
  A flag by how its value is read and stored. \<open>OtherFlag\<close> is a flag whose variable is not looked at, with the
  values it takes, and whether it can stand without one.
\<close>

datatype 'f flag =
    BoolFlag "bool \<Rightarrow> 'f \<Rightarrow> 'f"
  | IntFlag "int \<Rightarrow> 'f \<Rightarrow> 'f"
  | StringFlag "string \<Rightarrow> 'f \<Rightarrow> 'f"
  | OtherFlag bool "string \<Rightarrow> bool"

type_synonym 'f flag_set = "(string \<times> 'f flag) list"

fun is_bool_flag :: "'f flag \<Rightarrow> bool" where
  "is_bool_flag (BoolFlag put) = True"
| "is_bool_flag (OtherFlag is_bool takes) = is_bool"
| "is_bool_flag _ = False"

fun set_flag :: "'f flag \<Rightarrow> string \<Rightarrow> 'f \<Rightarrow> 'f option" where
  "set_flag (BoolFlag put) v f = map_option (\<lambda>b. put b f) (ParseBool v)"
| "set_flag (IntFlag put) v f = map_option (\<lambda>i. put i f) (ParseInt v)"
| "set_flag (StringFlag put) v f = Some (put v f)"
| "set_flag (OtherFlag is_bool takes) v f = (if takes v then Some f else None)"

text \<open>The name of a flag and the value after the first equals sign.\<close>

definition split_flag :: "string \<Rightarrow> string \<times> string option" where
  "split_flag s =
     (let name = takeWhile (\<lambda>c. c \<noteq> CHR ''='') s
      in (name, if length name < length s then Some (drop (Suc (length name)) s) else None))"

definition flag_exit :: int where "flag_exit = 2"

fun parse_flags :: "'f flag_set \<Rightarrow> string list \<Rightarrow> 'f \<Rightarrow> int + 'f" where
  "parse_flags flags [] f = Inr f"
| "parse_flags flags (s # args) f =
     (if length s < 2 \<or> hd s \<noteq> CHR ''-'' \<or> s = ''--'' then Inr f
      else let body = (if s ! 1 = CHR ''-'' then drop 2 s else drop 1 s)
           in if hd body \<in> {CHR ''-'', CHR ''=''} then Inl flag_exit
              else let (name, v) = split_flag body
                   in case map_of flags name of
                        None \<Rightarrow> Inl (if name \<in> {''help'', ''h''} then 0 else flag_exit)
                      | Some fl \<Rightarrow>
                          (case v of
                             Some w \<Rightarrow>
                               (case set_flag fl w f of None \<Rightarrow> Inl flag_exit | Some g \<Rightarrow> parse_flags flags args g)
                           | None \<Rightarrow>
                               if is_bool_flag fl then
                                 (case set_flag fl ''true'' f of None \<Rightarrow> Inl flag_exit | Some g \<Rightarrow> parse_flags flags args g)
                               else (case args of
                                       [] \<Rightarrow> Inl flag_exit
                                     | w # rest \<Rightarrow>
                                         (case set_flag fl w f of None \<Rightarrow> Inl flag_exit | Some g \<Rightarrow> parse_flags flags rest g))))"

section \<open>Reading back\<close>

lemma utoa_hd: "0 < n \<Longrightarrow> hd (utoa n) \<noteq> CHR ''0''"
proof (induction n rule: utoa.induct)
  case (1 n)
  show ?case
  proof (cases "n < 10")
    case True
    with 1 have "byte (hd (utoa n)) = 48 + nat n" by (subst utoa.simps) simp
    with 1 show ?thesis by auto
  next
    case False
    with 1 have "hd (utoa (n div 10)) \<noteq> CHR ''0''" by simp
    with False show ?thesis by (subst utoa.simps) (simp add: hd_append)
  qed
qed

lemma is_digit_simps:
  assumes "is_digit c"
  shows "c \<noteq> CHR ''_''" "c \<noteq> CHR ''-''" "c \<noteq> CHR ''+''" "base_digit base c = Some (digit_val c)"
  using assms by (auto simp: is_digit_def base_digit_def)

lemma int_digits_decimal:
  "list_all is_digit s \<Longrightarrow> int_digits 10 n s = Some (n * 10 ^ length s + digits_val s)"
proof (induction s arbitrary: n)
  case (Cons c s)
  then have c: "is_digit c" and s: "list_all is_digit s" by simp_all
  have "digits_val (c # s) = digit_val c * 10 ^ length s + digits_val s"
    using digits_val_append [of "[c]" s] by simp
  with Cons.IH [OF s] is_digit_simps(1,4) [OF c] digit_val_bound [OF c] show ?case by (simp add: algebra_simps)
qed simp

lemma digits_no_underscore: "list_all is_digit s \<Longrightarrow> CHR ''_'' \<notin> set s"
  using is_digit_simps(1) by (auto simp: list_all_iff)

text \<open>What \<open>Itoa\<close> writes is read back, within 64 bits.\<close>

lemma int_read_utoa:
  assumes "0 \<le> n"
  shows "case_prod (\<lambda>base digits. int_digits base 0 digits) (int_base (utoa n)) = Some n"
proof (cases "n = 0")
  case True
  have "char_of (48 :: nat) = CHR ''0''" by code_simp
  then have "utoa 0 = ''0''" by (subst utoa.simps) (simp add: digit_char_def)
  with True show ?thesis by (simp add: int_base_def)
next
  case False
  with assms utoa_hd [of n] show ?thesis by (simp add: int_base_def int_digits_decimal utoa_digits)
qed

lemma float_sign_itoa: "float_sign (itoa n) = (n < 0, utoa \<bar>n\<bar>)"
proof -
  obtain c s where u: "utoa n = c # s" by (cases "utoa n") simp_all
  with utoa_digits [of n] is_digit_simps [of c] show ?thesis by (simp add: float_sign_def itoa_def)
qed

lemma ParseInt_itoa:
  assumes "- (2 ^ 63) \<le> n" "n < 2 ^ 63"
  shows "ParseInt (itoa n) = Some n"
proof -
  have "CHR ''_'' \<notin> set (utoa \<bar>n\<bar>)" by (rule digits_no_underscore [OF utoa_digits])
  with int_read_utoa [of "\<bar>n\<bar>"] assms show ?thesis
    by (auto simp: ParseInt_def float_sign_itoa split: prod.splits)
qed

definition bool_text :: "bool \<Rightarrow> string" where
  "bool_text b = (if b then ''true'' else ''false'')"

lemma ParseBool_text: "ParseBool (bool_text b) = Some b"
  by (simp add: ParseBool_def bool_text_def)

text \<open>A flag written as \<open>--name=value\<close>.\<close>

definition flag_arg :: "string \<Rightarrow> string \<Rightarrow> string" where
  "flag_arg name v = ''--'' @ name @ ''='' @ v"

lemma split_flag_value: "CHR ''='' \<notin> set name \<Longrightarrow> split_flag (name @ ''='' @ v) = (name, Some v)"
proof -
  assume "CHR ''='' \<notin> set name"
  then have "takeWhile (\<lambda>c. c \<noteq> CHR ''='') (name @ ''='' @ v) = name"
    by (subst takeWhile_append2) auto
  then show ?thesis by (simp add: split_flag_def)
qed

lemma parse_flag_arg:
  assumes "name \<noteq> []" "hd name \<noteq> CHR ''-''" "CHR ''='' \<notin> set name" "map_of flags name \<noteq> None"
  shows "parse_flags flags (flag_arg name v # args) f =
     (case set_flag (the (map_of flags name)) v f of None \<Rightarrow> Inl flag_exit | Some g \<Rightarrow> parse_flags flags args g)"
proof -
  have "flag_arg name v \<noteq> ''--''" "\<not> length (flag_arg name v) < 2" "hd (flag_arg name v) = CHR ''-''"
    "flag_arg name v ! 1 = CHR ''-''" "drop 2 (flag_arg name v) = name @ ''='' @ v"
    by (simp_all add: flag_arg_def)
  moreover have "hd (name @ ''='' @ v) \<notin> {CHR ''-'', CHR ''=''}" using assms(1-3) by (cases name) auto
  ultimately show ?thesis
    using assms(4) split_flag_value [OF assms(3), of v] by auto
qed

end
