(* ===== verification/Cmd_Main.thy ===== *)
theory Cmd_Main
  imports Ctl_Reconcile Webhook Go_Flag
begin

text \<open>
  \<open>cmd/main.go\<close>: how the manager is put together from its flags, its environment and the cluster it
  runs in. Every call that can fail is an argument; \<open>main\<close> either exits with the message it logs or hands
  a configuration to the manager and runs it.
\<close>

section \<open>Definitions\<close>

text \<open>The functions that register the API types, by their outcome.\<close>

record scheme_api =
  ClientGo_AddToScheme :: "error option"
  Platform_AddToScheme :: "error option"
  Rollouts_AddToScheme :: "error option"
  Monitoring_AddToScheme :: "error option"

fun first_failure :: "error option list \<Rightarrow> error option" where
  "first_failure [] = None"
| "first_failure (None # errs) = first_failure errs"
| "first_failure (Some e # errs) = Some e"

definition addToScheme :: "scheme_api \<Rightarrow> error option" where
  "addToScheme api =
     first_failure [ClientGo_AddToScheme api, Platform_AddToScheme api, Rollouts_AddToScheme api, Monitoring_AddToScheme api]"

text \<open>The kinds the cache filters, each with its label selector.\<close>

definition managedObjectCache :: "bool \<Rightarrow> ((string \<times> string) \<times> labels) list" where
  "managedObjectCache storage =
     (let managed = [LabelManagedBy \<mapsto> ManagedBy];
          kinds = ManagedTypes @ (if storage then StorageTypes else [])
      in map (\<lambda>kind. (kind, managed)) kinds)"

text \<open>What \<open>storageForCluster\<close> asks: the environment, a client for the cluster and its REST mapper.\<close>

record cluster_api =
  Getenv :: "string \<Rightarrow> string"
  NewClient :: "error option"
  RESTMapping :: "string \<times> string \<Rightarrow> error option"
  GVKText :: "string \<times> string \<Rightarrow> string"
  IsNoMatchError :: "error \<Rightarrow> bool"

definition storageForCluster :: "cluster_api \<Rightarrow> StorageConfig option result" where
  "storageForCluster api =
     (case StorageConfigFromEnv (Getenv api) of
        Inl e \<Rightarrow> Inl e
      | Inr None \<Rightarrow> Inr None
      | Inr (Some storage) \<Rightarrow>
      (case NewClient api of
        Some e \<Rightarrow> Inl (wrap_error ''creating a client to look for the ACK CRDs: '' e [])
      | None \<Rightarrow>
      (case ServesStorageKinds (RESTMapping api) (GVKText api) of
        Some e \<Rightarrow> if \<not> IsNoMatchError api e then Inl e else Inr None
      | None \<Rightarrow> Inr (Some storage))))"

record flags =
  metricsAddr :: string
  metricsCertPath :: string
  metricsCertName :: string
  metricsCertKey :: string
  webhookCertPath :: string
  webhookCertName :: string
  webhookCertKey :: string
  webhookPort :: int
  enableLeaderElection :: bool
  probeAddr :: string
  secureMetrics :: bool
  enableHTTP2 :: bool
  prometheusURL :: string

definition default_flags :: flags where
  "default_flags =
     \<lparr>metricsAddr = ''0'', metricsCertPath = [], metricsCertName = ''tls.crt'', metricsCertKey = ''tls.key'',
      webhookCertPath = [], webhookCertName = ''tls.crt'', webhookCertKey = ''tls.key'', webhookPort = 9443,
      enableLeaderElection = False, probeAddr = '':8081'', secureMetrics = True, enableHTTP2 = False,
      prometheusURL = DefaultPrometheusURL\<rparr>"

text \<open>
  The flags \<open>main\<close> binds to its variables, and those that the logger binds: a name with whether it is boolean and the
  values it takes. None of them has the name of another flag, or \<open>flag\<close> would panic.
\<close>

definition manager_flags :: "flags flag_set" where
  "manager_flags =
     [(''metrics-bind-address'', StringFlag (\<lambda>v f. f\<lparr>metricsAddr := v\<rparr>)),
      (''health-probe-bind-address'', StringFlag (\<lambda>v f. f\<lparr>probeAddr := v\<rparr>)),
      (''leader-elect'', BoolFlag (\<lambda>b f. f\<lparr>enableLeaderElection := b\<rparr>)),
      (''metrics-secure'', BoolFlag (\<lambda>b f. f\<lparr>secureMetrics := b\<rparr>)),
      (''webhook-cert-path'', StringFlag (\<lambda>v f. f\<lparr>webhookCertPath := v\<rparr>)),
      (''webhook-cert-name'', StringFlag (\<lambda>v f. f\<lparr>webhookCertName := v\<rparr>)),
      (''webhook-cert-key'', StringFlag (\<lambda>v f. f\<lparr>webhookCertKey := v\<rparr>)),
      (''webhook-port'', IntFlag (\<lambda>i f. f\<lparr>webhookPort := i\<rparr>)),
      (''metrics-cert-path'', StringFlag (\<lambda>v f. f\<lparr>metricsCertPath := v\<rparr>)),
      (''metrics-cert-name'', StringFlag (\<lambda>v f. f\<lparr>metricsCertName := v\<rparr>)),
      (''metrics-cert-key'', StringFlag (\<lambda>v f. f\<lparr>metricsCertKey := v\<rparr>)),
      (''enable-http2'', BoolFlag (\<lambda>b f. f\<lparr>enableHTTP2 := b\<rparr>)),
      (''prometheus-url'', StringFlag (\<lambda>v f. f\<lparr>prometheusURL := v\<rparr>))]"

type_synonym logger_flags = "(string \<times> bool \<times> (string \<Rightarrow> bool)) list"

definition manager_parse :: "logger_flags \<Rightarrow> string list \<Rightarrow> int + flags" where
  "manager_parse logger args =
     parse_flags (manager_flags @ map (\<lambda>(name, is_bool, takes). (name, OtherFlag is_bool takes)) logger) args default_flags"

text \<open>A TLS configuration by the protocols it offers, \<open>None\<close> for the library's default; certificates from a directory.\<close>

record tls_config =
  NextProtos :: "string list option"

definition disableHTTP2 :: "tls_config \<Rightarrow> tls_config" where
  "disableHTTP2 c = c\<lparr>NextProtos := Some [''http/1.1'']\<rparr>"

definition tlsOpts :: "flags \<Rightarrow> (tls_config \<Rightarrow> tls_config) list" where
  "tlsOpts f = (if \<not> enableHTTP2 f then [disableHTTP2] else [])"

text \<open>The protocols of a server that starts from the default configuration and applies the options.\<close>

definition offered :: "(tls_config \<Rightarrow> tls_config) list \<Rightarrow> string list option" where
  "offered opts = NextProtos (fold (\<lambda>opt. opt) opts \<lparr>NextProtos = None\<rparr>)"

record server_options =
  so_TLSOpts :: "(tls_config \<Rightarrow> tls_config) list"
  so_Cert :: "(string \<times> string \<times> string) option"

record webhook_options = server_options +
  wo_Port :: int

record metrics_options = server_options +
  mo_BindAddress :: string
  mo_SecureServing :: bool
  mo_Authenticates :: bool

definition webhookServerOptions :: "flags \<Rightarrow> webhook_options" where
  "webhookServerOptions f =
     \<lparr>so_TLSOpts = tlsOpts f,
      so_Cert = (if webhookCertPath f \<noteq> [] then Some (webhookCertPath f, webhookCertName f, webhookCertKey f) else None),
      wo_Port = webhookPort f\<rparr>"

definition metricsServerOptions :: "flags \<Rightarrow> metrics_options" where
  "metricsServerOptions f =
     \<lparr>so_TLSOpts = tlsOpts f,
      so_Cert = (if metricsCertPath f \<noteq> [] then Some (metricsCertPath f, metricsCertName f, metricsCertKey f) else None),
      mo_BindAddress = metricsAddr f, mo_SecureServing = secureMetrics f, mo_Authenticates = secureMetrics f\<rparr>"

record manager_options =
  mg_Cache :: "((string \<times> string) \<times> labels) list"
  mg_Metrics :: metrics_options
  mg_Webhook :: webhook_options
  mg_HealthProbeBindAddress :: string
  mg_LeaderElection :: bool
  mg_LeaderElectionID :: string

definition manager_options_for :: "flags \<Rightarrow> StorageConfig option \<Rightarrow> manager_options" where
  "manager_options_for f storage =
     \<lparr>mg_Cache = managedObjectCache (storage \<noteq> None), mg_Metrics = metricsServerOptions f, mg_Webhook = webhookServerOptions f,
      mg_HealthProbeBindAddress = probeAddr f, mg_LeaderElection = enableLeaderElection f,
      mg_LeaderElectionID = ''4ff88f17.paved.dev''\<rparr>"

text \<open>
  The outcomes of what \<open>main\<close> calls, and the libraries its reconciler uses. \<open>GetConfigOrDie\<close> logs a
  message of its own when it ends the process.
\<close>

record boot =
  b_Scheme :: scheme_api
  b_GetConfig :: "(string \<times> error) option"
  b_Cluster :: cluster_api
  b_NewManager :: "manager_options \<Rightarrow> error option"
  b_NewPromClient :: "string \<Rightarrow> int \<Rightarrow> (int \<Rightarrow> string \<Rightarrow> prom_answer) result"
  b_SetupController :: "ServiceClaimReconciler \<Rightarrow> error option"
  b_SetupWebhook :: "ServiceClaimValidator \<Rightarrow> error option"
  b_AddHealthzCheck :: "error option"
  b_AddReadyzCheck :: "error option"
  b_Start :: "error option"
  b_Meta :: meta_api
  b_Ack :: ack_api
  b_Convert :: converter

text \<open>The manager gives a client, a reader past the cache and a recorder.\<close>

definition reconciler_for :: "boot \<Rightarrow> StorageConfig option \<Rightarrow> ServiceClaimReconciler" where
  "reconciler_for b storage =
     \<lparr>rc_HasPrometheus = True, rc_HasAPIReader = True, rc_HasRecorder = True, rc_Storage = storage,
      rc_Meta = b_Meta b, rc_Ack = b_Ack b, rc_Convert = b_Convert b\<rparr>"

text \<open>What the running manager consists of.\<close>

record running =
  run_Manager :: manager_options
  run_Reconciler :: ServiceClaimReconciler
  run_Prometheus :: PrometheusClient
  run_Webhook :: bool

text \<open>\<open>main\<close> up to the start of the manager: the message and error it exits with, or the manager.\<close>

definition check_step :: "string \<Rightarrow> error option \<Rightarrow> (string \<times> error) + unit" where
  "check_step message err = (case err of Some e \<Rightarrow> Inl (message, e) | None \<Rightarrow> Inr ())"

fun next_step :: "'e + 'a \<Rightarrow> ('a \<Rightarrow> 'e + 'b) \<Rightarrow> 'e + 'b" where
  "next_step (Inl e) f = Inl e"
| "next_step (Inr x) f = f x"

definition main_setup :: "flags \<Rightarrow> boot \<Rightarrow> (string \<times> error) + running" where
  "main_setup f b =
     next_step (check_step ''Failed to register API types'' (addToScheme (b_Scheme b))) (\<lambda>_.
     next_step (case b_GetConfig b of Some failure \<Rightarrow> Inl failure | None \<Rightarrow> Inr ()) (\<lambda>_.
     next_step (case storageForCluster (b_Cluster b) of
         Inl e \<Rightarrow> Inl (''Failed to read the AWS storage settings'', e) | Inr storage \<Rightarrow> Inr storage) (\<lambda>storage.
     let options = manager_options_for f storage in
     next_step (check_step ''Failed to start manager'' (b_NewManager b options)) (\<lambda>_.
     next_step (case NewPrometheusClient (b_NewPromClient b) (prometheusURL f) of
         Inl e \<Rightarrow> Inl (''Failed to create Prometheus client'', e) | Inr client \<Rightarrow> Inr client) (\<lambda>client.
     let reconciler = reconciler_for b storage; webhooks = (Getenv (b_Cluster b) ''ENABLE_WEBHOOKS'' \<noteq> ''false'') in
     next_step (check_step ''Failed to create controller'' (b_SetupController b reconciler)) (\<lambda>_.
     next_step (if webhooks then check_step ''Failed to create webhook'' (SetupServiceClaimWebhookWithManager (b_SetupWebhook b)) else Inr ()) (\<lambda>_.
     next_step (check_step ''Failed to set up health check'' (b_AddHealthzCheck b)) (\<lambda>_.
     next_step (check_step ''Failed to set up ready check'' (b_AddReadyzCheck b)) (\<lambda>_.
       Inr \<lparr>run_Manager = options, run_Reconciler = reconciler, run_Prometheus = client, run_Webhook = webhooks\<rparr>)))))))))"

text \<open>The exit code: 0 once the manager has stopped without an error.\<close>

definition main :: "flags \<Rightarrow> boot \<Rightarrow> int" where
  "main f b =
     (case next_step (main_setup f b) (\<lambda>_. check_step ''Failed to run manager'' (b_Start b)) of Inl e \<Rightarrow> 1 | Inr _ \<Rightarrow> 0)"

text \<open>The process from its arguments on: what cannot be parsed ends it before anything else happens.\<close>

definition main_process :: "logger_flags \<Rightarrow> string list \<Rightarrow> boot \<Rightarrow> int" where
  "main_process logger args b = (case manager_parse logger args of Inl code \<Rightarrow> code | Inr f \<Rightarrow> main f b)"

section \<open>The command line\<close>

text \<open>Flags as arguments, each of them written out.\<close>

definition flag_args :: "flags \<Rightarrow> string list" where
  "flag_args f =
     [flag_arg ''metrics-bind-address'' (metricsAddr f), flag_arg ''health-probe-bind-address'' (probeAddr f),
      flag_arg ''leader-elect'' (bool_text (enableLeaderElection f)), flag_arg ''metrics-secure'' (bool_text (secureMetrics f)),
      flag_arg ''webhook-cert-path'' (webhookCertPath f), flag_arg ''webhook-cert-name'' (webhookCertName f),
      flag_arg ''webhook-cert-key'' (webhookCertKey f), flag_arg ''webhook-port'' (itoa (webhookPort f)),
      flag_arg ''metrics-cert-path'' (metricsCertPath f), flag_arg ''metrics-cert-name'' (metricsCertName f),
      flag_arg ''metrics-cert-key'' (metricsCertKey f), flag_arg ''enable-http2'' (bool_text (enableHTTP2 f)),
      flag_arg ''prometheus-url'' (prometheusURL f)]"

text \<open>
  Every configuration can be given on the command line. With each flag written out as \<open>--name=value\<close>, whatever
  flags the logger has, exactly these values are what the manager runs with, for a port within 64 bits; and without
  arguments it runs with the defaults.
\<close>

lemma flags_read_back:
  assumes "- (2 ^ 63) \<le> webhookPort f" and "webhookPort f < 2 ^ 63"
  shows "manager_parse logger (flag_args f) = Inr f \<and> main_process logger (flag_args f) b = main f b \<and>
         manager_parse logger [] = Inr default_flags"
proof -
  let ?flags = "manager_flags @ map (\<lambda>(name, is_bool, takes). (name, OtherFlag is_bool takes)) logger"
  have "parse_flags ?flags (flag_args f) g = Inr f" for g
    by (cases f, cases g)
      (use assms in \<open>simp add: flag_args_def parse_flag_arg manager_flags_def ParseBool_text ParseInt_itoa del: parse_flags.simps(2)\<close>)
  then have "manager_parse logger (flag_args f) = Inr f" by (simp add: manager_parse_def)
  then show ?thesis by (simp add: main_process_def) (simp add: manager_parse_def)
qed

text \<open>The arguments the Deployment in \<open>config/default\<close> starts the manager with, and ones that end it.\<close>

lemma deployed_args:
  "manager_parse logger [''--metrics-bind-address=:8443'', ''--leader-elect'', ''--health-probe-bind-address=:8081'',
     ''--webhook-cert-path=/tmp/k8s-webhook-server/serving-certs'', ''--webhook-port=9443''] =
   Inr (default_flags\<lparr>metricsAddr := '':8443'', enableLeaderElection := True,
     webhookCertPath := ''/tmp/k8s-webhook-server/serving-certs''\<rparr>)"
  "manager_parse logger [''-leader-elect=maybe''] = Inl 2" "manager_parse logger [''--webhook-port''] = Inl 2"
  "manager_parse logger [''--webhook-port'', ''0x24e3'', ''--leader-elect'', ''no'', ''--leader-elect=false''] =
     Inr (default_flags\<lparr>webhookPort := 9443, enableLeaderElection := True\<rparr>)"
  by (simp_all add: manager_parse_def manager_flags_def split_flag_def ParseBool_def ParseInt_def float_sign_def int_base_def
      base_digit_def digit_val_def is_digit_def lower_def default_flags_def flag_exit_def)

section \<open>Storage\<close>

lemma first_unserved_None: "first_unserved rest_mapping gvk_text ks = None \<longleftrightarrow> (\<forall>k \<in> set ks. rest_mapping k = None)"
  by (induction ks) (auto split: option.splits)

lemma next_step_Inr_iff: "next_step m f = Inr y \<longleftrightarrow> (\<exists>x. m = Inr x \<and> f x = Inr y)"
  by (cases m) simp_all

lemma check_step_Inr_iff: "check_step message err = Inr u \<longleftrightarrow> err = None"
  by (simp add: check_step_def split: option.splits)

text \<open>
  Storage is on exactly when the environment holds valid AWS settings, a client can be made and the
  API server serves both ACK kinds; it is off without settings, or when the API server says it has no such
  kind; anything else keeps the manager from starting.
\<close>

lemma storageForCluster_spec:
  "(storageForCluster api = Inr (Some storage) \<longleftrightarrow>
      StorageConfigFromEnv (Getenv api) = Inr (Some storage) \<and> NewClient api = None \<and>
      RESTMapping api RoleGVK = None \<and> RESTMapping api BucketGVK = None) \<and>
   (storageForCluster api = Inr None \<longleftrightarrow>
      StorageConfigFromEnv (Getenv api) = Inr None \<or>
      succeeds (StorageConfigFromEnv (Getenv api)) \<and> NewClient api = None \<and>
        (\<exists>e. ServesStorageKinds (RESTMapping api) (GVKText api) = Some e \<and> IsNoMatchError api e))"
proof -
  have served: "ServesStorageKinds (RESTMapping api) (GVKText api) = None \<longleftrightarrow>
      RESTMapping api RoleGVK = None \<and> RESTMapping api BucketGVK = None"
    unfolding ServesStorageKinds_def first_unserved_None StorageTypes_def by simp
  show ?thesis
    unfolding storageForCluster_def served [symmetric]
    by (auto split: sum.splits option.splits if_splits)
qed

section \<open>The manager\<close>

lemma main_setup_Inr:
  assumes "main_setup f b = Inr r"
  obtains storage where "storageForCluster (b_Cluster b) = Inr storage" "run_Manager r = manager_options_for f storage"
    "run_Reconciler r = reconciler_for b storage" "b_SetupController b (reconciler_for b storage) = None"
    "NewPrometheusClient (b_NewPromClient b) (prometheusURL f) = Inr (run_Prometheus r)"
    "run_Webhook r \<longleftrightarrow> Getenv (b_Cluster b) ''ENABLE_WEBHOOKS'' \<noteq> ''false''"
    "run_Webhook r \<Longrightarrow> b_SetupWebhook b registered_validator = None"
  using assms
  by (auto simp: main_setup_def Let_def next_step_Inr_iff check_step_Inr_iff SetupServiceClaimWebhookWithManager_def
      split: sum.splits option.splits if_splits)

text \<open>
  C23: the parts of the manager fit together. The cache filters exactly the kinds the controller watches,
  and every object the controller builds for a claim is of a cached kind and has the label the cache selects,
  so the reads of the controller see it.
\<close>

theorem manager_sees_its_objects:
  assumes "main_setup f b = Inr r"
  shows "map fst (mg_Cache (run_Manager r)) = watched_types (run_Reconciler r) \<and>
         (\<forall>claim obs ob. Build claim (rc_Storage (run_Reconciler r)) = Inr obs \<and> ob \<in> set obs \<longrightarrow>
            (\<exists>sel. ((o_APIVersion ob, o_Kind ob), sel) \<in> set (mg_Cache (run_Manager r)) \<and> selects sel (o_Labels ob)))"
proof (rule main_setup_Inr [OF assms])
  fix storage
  assume r: "run_Manager r = manager_options_for f storage" "run_Reconciler r = reconciler_for b storage"
  have cache: "mg_Cache (run_Manager r) = map (\<lambda>k. (k, [LabelManagedBy \<mapsto> ManagedBy])) (watched_types (run_Reconciler r))"
    by (simp add: r manager_options_for_def managedObjectCache_def reconciler_for_def watched_types_def Let_def)
  have sees: "\<exists>sel. ((o_APIVersion ob, o_Kind ob), sel) \<in> set (mg_Cache (run_Manager r)) \<and> selects sel (o_Labels ob)"
    if b: "Build claim (rc_Storage (run_Reconciler r)) = Inr obs" "ob \<in> set obs" for claim obs ob
  proof -
    have "(o_APIVersion ob, o_Kind ob) \<in> set (watched_types (run_Reconciler r))"
      using Build_kinds_watched [OF b] by (auto simp: watched_types_def HasStorage_def)
    moreover have "selects [LabelManagedBy \<mapsto> ManagedBy] (o_Labels ob)"
      using bs.carries_labels [OF b] by (auto simp: selects_def map_le_def Labels_def object_label_defs)
    ultimately show ?thesis unfolding cache by auto
  qed
  have "map fst (mg_Cache (run_Manager r)) = watched_types (run_Reconciler r)" by (simp add: cache comp_def)
  with sees show ?thesis by blast
qed

text \<open>
  What every running manager has, whatever the flags: HTTP/2 is off on both servers unless the flag
  asks for it, metrics served over TLS are authenticated, every query to Prometheus is bounded by five
  seconds, and the reconciler has its optional parts.
\<close>

lemma manager_hardened:
  assumes "main_setup f b = Inr r"
  shows "offered (so_TLSOpts (mg_Webhook (run_Manager r))) = (if enableHTTP2 f then None else Some [''http/1.1'']) \<and>
         offered (so_TLSOpts (mg_Metrics (run_Manager r))) = (if enableHTTP2 f then None else Some [''http/1.1'']) \<and>
         mo_Authenticates (mg_Metrics (run_Manager r)) = mo_SecureServing (mg_Metrics (run_Manager r)) \<and>
         pc_timeout (run_Prometheus r) = 5 * Second \<and>
         rc_HasPrometheus (run_Reconciler r) \<and> rc_HasAPIReader (run_Reconciler r) \<and> rc_HasRecorder (run_Reconciler r)"
proof (rule main_setup_Inr [OF assms])
  fix storage
  assume r: "run_Manager r = manager_options_for f storage" "run_Reconciler r = reconciler_for b storage"
    and c: "NewPrometheusClient (b_NewPromClient b) (prometheusURL f) = Inr (run_Prometheus r)"
  have "pc_timeout (run_Prometheus r) = 5 * Second"
    using NewPrometheusClient_timeout [OF c] by (simp add: QueryTimeout_def)
  then show ?thesis
    by (simp add: r manager_options_for_def webhookServerOptions_def metricsServerOptions_def offered_def tlsOpts_def
        disableHTTP2_def reconciler_for_def)
qed

section \<open>A manager that starts\<close>

definition example_cluster :: cluster_api where
  "example_cluster =
     \<lparr>Getenv = (\<lambda>name. []), NewClient = None, RESTMapping = (\<lambda>gvk. None), GVKText = snd, IsNoMatchError = is_not_found\<rparr>"

definition example_boot :: boot where
  "example_boot =
     \<lparr>b_Scheme = \<lparr>ClientGo_AddToScheme = None, Platform_AddToScheme = None, Rollouts_AddToScheme = None,
        Monitoring_AddToScheme = None\<rparr>,
      b_GetConfig = None, b_Cluster = example_cluster, b_NewManager = (\<lambda>options. None), b_NewPromClient = (\<lambda>address timeout. Inr (\<lambda>t q. Inr (Vector [], []))),
      b_SetupController = (\<lambda>r. None), b_SetupWebhook = (\<lambda>v. None), b_AddHealthzCheck = None, b_AddReadyzCheck = None,
      b_Start = None, b_Meta = apimachinery, b_Ack = rc_Ack example_reconciler, b_Convert = rc_Convert example_reconciler\<rparr>"

lemma example_setup: "\<exists>r. main_setup default_flags example_boot = Inr r"
  by (simp add: main_setup_def SetupServiceClaimWebhookWithManager_def example_boot_def example_cluster_def check_step_def addToScheme_def storageForCluster_def
      StorageConfigFromEnv_def NewPrometheusClient_def newPrometheusClient_def Let_def)

theorem manager_sees_its_objects_witness:
  "\<exists>r. main_setup default_flags example_boot = Inr r \<and> map fst (mg_Cache (run_Manager r)) = watched_types (run_Reconciler r)"
  using example_setup manager_sees_its_objects by blast

end
