(* ===== verification/Api_Register.thy ===== *)
theory Api_Register
  imports Cmd_Main
begin

text \<open>
  \<open>api/v1alpha1/groupversion_info.go\<close> and the \<open>init\<close> of \<open>serviceclaim_types.go\<close>: how the kinds of the API get into a
  scheme. The functions of \<open>k8s.io/apimachinery\<close> that they call are arguments, with their documented behaviour as a locale.
\<close>

section \<open>The scheme library\<close>

record GroupVersion =
  gv_Group :: string
  gv_Version :: string

text \<open>\<open>GroupVersion.String\<close>, for a group that is not empty.\<close>

definition GroupVersion_String :: "GroupVersion \<Rightarrow> string" where
  "GroupVersion_String gv = gv_Group gv @ ''/'' @ gv_Version gv"

text \<open>A function that adds to a scheme, and the library by the types of its schemes and of its builders.\<close>

type_synonym 's adder = "'s \<Rightarrow> error option \<times> 's"

record ('s, 'b) scheme_library =
  AddToGroupVersion :: "GroupVersion \<Rightarrow> 's \<Rightarrow> 's"
  AddKnownTypes :: "GroupVersion \<Rightarrow> string list \<Rightarrow> 's \<Rightarrow> 's"
  NewSchemeBuilder :: "'s adder list \<Rightarrow> 'b"
  Register :: "'s adder \<Rightarrow> 'b \<Rightarrow> 'b"
  Builder_AddToScheme :: "'b \<Rightarrow> 's adder"

section \<open>Registration of the API\<close>

definition SchemeGroupVersion :: GroupVersion where
  "SchemeGroupVersion = \<lparr>gv_Group = ''platform.paved.dev'', gv_Version = ''v1alpha1''\<rparr>"

text \<open>The kind, and the kind of a list, are the names of the Go types; \<open>claimKind\<close> is what the controller applies.\<close>

definition claimKind :: string where "claimKind = ''ServiceClaim''"
definition listKind :: string where "listKind = ''ServiceClaimList''"

text \<open>The variable \<open>SchemeBuilder\<close> as it is initialized, and after \<open>init\<close>.\<close>

definition SchemeBuilder :: "('s, 'b) scheme_library \<Rightarrow> 'b" where
  "SchemeBuilder lib = NewSchemeBuilder lib [\<lambda>scheme. (None, AddToGroupVersion lib SchemeGroupVersion scheme)]"

definition register_types :: "('s, 'b) scheme_library \<Rightarrow> 'b \<Rightarrow> 'b" where
  "register_types lib = Register lib (\<lambda>s. (None, AddKnownTypes lib SchemeGroupVersion [claimKind, listKind] s))"

text \<open>\<open>AddToScheme\<close> is a method of the variable, so it runs what has been registered by the time it is called.\<close>

definition AddToScheme :: "('s, 'b) scheme_library \<Rightarrow> 's adder" where
  "AddToScheme lib = Builder_AddToScheme lib (register_types lib (SchemeBuilder lib))"

text \<open>What the controller names in every write of a claim.\<close>

definition claim_typemeta :: "string \<times> string" where
  "claim_typemeta = (GroupVersion_String SchemeGroupVersion, claimKind)"

section \<open>What the library promises\<close>

fun run_adders :: "'s adder list \<Rightarrow> 's adder" where
  "run_adders [] s = (None, s)"
| "run_adders (f # fs) s = (case f s of (None, s') \<Rightarrow> run_adders fs s' | (Some e, s') \<Rightarrow> (Some e, s'))"

text \<open>
  A builder runs its functions in the order they were added and stops at the first error; known types stay known, and
  adding types adds their kinds under the group and version.
\<close>

locale scheme_laws =
  fixes lib :: "('s, 'b) scheme_library" and adders :: "'b \<Rightarrow> 's adder list" and kinds :: "'s \<Rightarrow> (string \<times> string) set"
  assumes fresh: "adders (NewSchemeBuilder lib fs) = fs"
    and registered: "adders (Register lib f b) = adders b @ [f]"
    and runs: "Builder_AddToScheme lib b = run_adders (adders b)"
    and known: "kinds (AddKnownTypes lib gv names s) = kinds s \<union> {(GroupVersion_String gv, name) |name. name \<in> set names}"
    and kept: "kinds s \<subseteq> kinds (AddToGroupVersion lib gv s)"
begin

lemma AddToScheme_runs:
  "AddToScheme lib s = (None, AddKnownTypes lib SchemeGroupVersion [claimKind, listKind] (AddToGroupVersion lib SchemeGroupVersion s))"
  by (simp add: AddToScheme_def register_types_def SchemeBuilder_def runs registered fresh)

lemma AddToScheme_kinds:
  "fst (AddToScheme lib s) = None"
  "insert claim_typemeta (kinds s) \<subseteq> kinds (snd (AddToScheme lib s))"
  "(GroupVersion_String SchemeGroupVersion, listKind) \<in> kinds (snd (AddToScheme lib s))"
  using kept [of s SchemeGroupVersion] by (auto simp: AddToScheme_runs known claim_typemeta_def)

text \<open>Without the \<open>init\<close> the claim would be unknown.\<close>

lemma unregistered: "snd (Builder_AddToScheme lib (SchemeBuilder lib) s) = AddToGroupVersion lib SchemeGroupVersion s"
  by (simp add: SchemeBuilder_def runs fresh)

end

section \<open>A library of lists\<close>

definition listed_schemes :: "((string \<times> string) set, (string \<times> string) set adder list) scheme_library" where
  "listed_schemes =
     \<lparr>AddToGroupVersion = (\<lambda>gv s. insert (GroupVersion_String gv, ''WatchEvent'') s),
      AddKnownTypes = (\<lambda>gv names s. s \<union> Pair (GroupVersion_String gv) ` set names),
      NewSchemeBuilder = id, Register = (\<lambda>f b. b @ [f]), Builder_AddToScheme = run_adders\<rparr>"

interpretation ls: scheme_laws listed_schemes id id
  by unfold_locales (auto simp: listed_schemes_def)

text \<open>
  The platform's part of \<open>addToScheme\<close>: it never fails, the scheme knows claims and lists of claims afterwards, under
  the kind and the version of every write the controller makes of a claim, and forgets nothing.
\<close>

lemma platform_types_known:
  assumes "scheme_laws lib adders kinds"
  shows "fst (AddToScheme lib s) = None \<and> claim_typemeta \<in> kinds (snd (AddToScheme lib s)) \<and> kinds s \<subseteq> kinds (snd (AddToScheme lib s))"
  using scheme_laws.AddToScheme_kinds(1,2) [OF assms] by auto

lemma claim_typemeta_text: "claim_typemeta = (''platform.paved.dev/v1alpha1'', ''ServiceClaim'')"
  by (simp add: claim_typemeta_def claimKind_def GroupVersion_String_def SchemeGroupVersion_def)

end
