(* ===== verification/Svc_Contract.thy ===== *)
theory Svc_Contract
  imports Go_Json
begin

text \<open>
  What the two example services use of \<open>net/http\<close> and of the Prometheus client, and the part of the
  platform's service contract that both implement: requests to the application are counted by status
  code and method, and the series they are counted in exist before the first request, because
  \<open>rate()\<close> cannot see the increase that creates a series.
\<close>

section \<open>Requests and responses\<close>

text \<open>
  The path of a request by its segments, unescaped, where a trailing slash is the segment ''/''. A path
  that is not clean is redirected by the mux before any handler sees it. A response without a
  \<open>Location\<close> header has \<open>None\<close>.
\<close>

record http_request =
  rq_Method :: string
  rq_Segments :: "string list"
  rq_Body :: string

record http_response =
  rs_Status :: int
  rs_Location :: "string option"
  rs_ContentType :: string
  rs_Body :: string

definition http_Error :: "string \<Rightarrow> int \<Rightarrow> http_response" where
  "http_Error text code =
     \<lparr>rs_Status = code, rs_Location = None, rs_ContentType = ''text/plain; charset=utf-8'', rs_Body = text @ newline\<rparr>"

definition http_NotFound :: http_response where
  "http_NotFound = http_Error ''404 page not found'' 404"

definition method_not_allowed :: http_response where
  "method_not_allowed = http_Error ''Method Not Allowed'' 405"

text \<open>\<open>http.Redirect\<close> to a URL that has a scheme, for a response without a content type yet.\<close>

definition hexEscapeNonASCII :: "string \<Rightarrow> string" where
  "hexEscapeNonASCII s = concat (map (\<lambda>c. if byte c < 128 then [c] else CHR ''%'' # hex_byte (byte c)) s)"

definition html_escape_char :: "char \<Rightarrow> string" where
  "html_escape_char c =
     (if c = CHR ''&'' then ''&amp;'' else if c = CHR ''<'' then ''&lt;'' else if c = CHR ''>'' then ''&gt;''
      else if byte c = 34 then ''&#34;'' else if byte c = 39 then ''&#39;'' else [c])"

definition redirect_found :: "http_request \<Rightarrow> string \<Rightarrow> http_response" where
  "redirect_found rq url =
     \<lparr>rs_Status = 302, rs_Location = Some (hexEscapeNonASCII url),
      rs_ContentType = (if rq_Method rq \<in> {''GET'', ''HEAD''} then ''text/html; charset=utf-8'' else []),
      rs_Body = (if rq_Method rq = ''GET''
        then ''<a href='' @ [CHR 0x22] @ concat (map html_escape_char url) @ [CHR 0x22] @ ''>Found</a>.'' @ newline @ newline
        else [])\<rparr>"

section \<open>Metrics\<close>

text \<open>A series is named by its labels code and method; a histogram is kept by its number of observations.\<close>

type_synonym series = "string \<times> string"

record metrics =
  mx_requests :: "series \<rightharpoonup> nat"
  mx_latency :: "series \<rightharpoonup> nat"

text \<open>
  The Prometheus client: registration of a collector and creation of a series may fail, each by the
  metric's name; the label values of a status code and a method; the text of the metrics.
\<close>

record prom_client =
  Register :: "string \<Rightarrow> error option"
  GetMetric :: "string \<Rightarrow> series \<Rightarrow> error option"
  CodeLabel :: "int \<Rightarrow> string"
  MethodLabel :: "string \<Rightarrow> string"
  Expose :: "metrics \<Rightarrow> string"

definition no_metrics :: metrics where
  "no_metrics = \<lparr>mx_requests = Map.empty, mx_latency = Map.empty\<rparr>"

definition touch :: "(series \<rightharpoonup> nat) \<Rightarrow> series \<Rightarrow> (series \<rightharpoonup> nat)" where
  "touch m k = (case m k of None \<Rightarrow> m(k \<mapsto> 0) | Some n \<Rightarrow> m)"

definition increment :: "(series \<rightharpoonup> nat) \<Rightarrow> series \<Rightarrow> (series \<rightharpoonup> nat)" where
  "increment m k = m(k \<mapsto> (case m k of None \<Rightarrow> 1 | Some n \<Rightarrow> Suc n))"

text \<open>A loop that threads a state and stops at the first error.\<close>

fun fold_result :: "('a \<Rightarrow> 's \<Rightarrow> 's result) \<Rightarrow> 'a list \<Rightarrow> 's \<Rightarrow> 's result" where
  "fold_result f [] s = Inr s"
| "fold_result f (x # xs) s = and_then (f x s) (fold_result f xs)"

definition register_metrics :: "prom_client \<Rightarrow> string list \<Rightarrow> unit result" where
  "register_metrics prom names =
     fold_result (\<lambda>name _. case Register prom name of
         None \<Rightarrow> Inr () | Some e \<Rightarrow> Inl (wrap_error ''registering metrics: '' e []))
       names ()"

text \<open>One round of the loop that creates series of a counter and a histogram; \<open>describe\<close> is how its errors name the series.\<close>

definition create_series ::
  "prom_client \<Rightarrow> string \<Rightarrow> string \<Rightarrow> (series \<Rightarrow> string) \<Rightarrow> series \<Rightarrow> metrics \<Rightarrow> metrics result" where
  "create_series prom requests latency describe k m =
     (case GetMetric prom requests k of
        Some e \<Rightarrow> Inl (wrap_error (''creating the '' @ describe k @ '' request series: '') e [])
      | None \<Rightarrow>
          (case GetMetric prom latency k of
             Some e \<Rightarrow> Inl (wrap_error (''creating the '' @ describe k @ '' latency series: '') e [])
           | None \<Rightarrow> Inr \<lparr>mx_requests = touch (mx_requests m) k, mx_latency = touch (mx_latency m) k\<rparr>))"

section \<open>Serving\<close>

text \<open>An instrumented handler may change the service's state and is counted; a plain one is not.\<close>

datatype 's route =
    Instrumented "http_request \<Rightarrow> 's \<Rightarrow> http_response \<times> 's"
  | Plain "metrics \<Rightarrow> http_response"

definition observed_as :: "prom_client \<Rightarrow> http_request \<Rightarrow> http_response \<Rightarrow> series" where
  "observed_as prom rq rs = (CodeLabel prom (rs_Status rs), MethodLabel prom (rq_Method rq))"

definition ServeHTTP ::
  "prom_client \<Rightarrow> (http_request \<Rightarrow> 's route) \<Rightarrow> http_request \<Rightarrow> 's \<times> metrics \<Rightarrow> http_response \<times> 's \<times> metrics" where
  "ServeHTTP prom mux rq sm =
     (case mux rq of
        Plain h \<Rightarrow> (h (snd sm), sm)
      | Instrumented h \<Rightarrow>
          (case h rq (fst sm) of
             (rs, s') \<Rightarrow>
               (rs, s', \<lparr>mx_requests = increment (mx_requests (snd sm)) (observed_as prom rq rs),
                         mx_latency = increment (mx_latency (snd sm)) (observed_as prom rq rs)\<rparr>)))"

fun serve_all ::
  "prom_client \<Rightarrow> (http_request \<Rightarrow> 's route) \<Rightarrow> http_request list \<Rightarrow> 's \<times> metrics \<Rightarrow> http_response list \<times> 's \<times> metrics" where
  "serve_all prom mux [] sm = ([], sm)"
| "serve_all prom mux (rq # rqs) sm =
     (case ServeHTTP prom mux rq sm of
        (rs, sm') \<Rightarrow> (case serve_all prom mux rqs sm' of (rss, sm'') \<Rightarrow> (rs # rss, sm'')))"

text \<open>
  How serving ends: the server fails by itself, or a signal comes first and it is shut down, with the result of
  the shutdown and the error that serving ended with, \<open>None\<close> for \<open>http.ErrServerClosed\<close>.
\<close>

datatype serving =
    Failed error
  | Signalled "error option" "error option"

definition is_instrumented :: "'s route \<Rightarrow> bool" where
  "is_instrumented r \<longleftrightarrow> (case r of Instrumented h \<Rightarrow> True | Plain h \<Rightarrow> False)"

section \<open>Series created at zero\<close>

lemma touch_dom [simp]: "dom (touch m k) = insert k (dom m)"
  by (auto simp: touch_def split: option.splits)

lemma increment_dom [simp]: "dom (increment m k) = insert k (dom m)"
  by (auto simp: increment_def)

lemma fold_result_append: "fold_result f (xs @ ys) s = and_then (fold_result f xs s) (fold_result f ys)"
  by (induction xs arbitrary: s) (simp_all, metis and_then.simps obj_sumE)

text \<open>All counters of a set of series at zero, and nothing else.\<close>

definition zeros :: "series set \<Rightarrow> (series \<rightharpoonup> nat)" where
  "zeros ks = (\<lambda>k. if k \<in> ks then Some 0 else None)"

definition zero_on :: "series set \<Rightarrow> metrics \<Rightarrow> bool" where
  "zero_on ks m \<longleftrightarrow> m = \<lparr>mx_requests = zeros ks, mx_latency = zeros ks\<rparr>"

lemma dom_zeros [simp]: "dom (zeros ks) = ks"
  by (auto simp: zeros_def dom_def)

lemma touch_zeros [simp]: "touch (zeros ks) k = zeros (insert k ks)"
  by (auto simp: touch_def zeros_def)

lemma zero_on_empty: "zero_on {} no_metrics"
  by (simp add: zero_on_def no_metrics_def zeros_def)

lemma create_series_zero:
  "create_series prom requests latency describe k m = Inr m' \<Longrightarrow> zero_on ks m \<Longrightarrow> zero_on (insert k ks) m'"
  by (auto simp: create_series_def zero_on_def split: option.splits)

lemma fold_create_series_zero:
  "fold_result (create_series prom requests latency describe) xs m = Inr m' \<Longrightarrow> zero_on ks m \<Longrightarrow> zero_on (set xs \<union> ks) m'"
proof (induction xs arbitrary: m ks)
  case (Cons x xs)
  then obtain m1 where m1: "create_series prom requests latency describe x m = Inr m1"
    "fold_result (create_series prom requests latency describe) xs m1 = Inr m'" by (auto simp: result_iff)
  from Cons.IH [OF m1(2) create_series_zero [OF m1(1) Cons.prems(2)]] show ?case by simp
qed simp

section \<open>Counting\<close>

text \<open>The requests counted so far, over a finite set of series.\<close>

definition counted :: "(series \<rightharpoonup> nat) \<Rightarrow> nat" where
  "counted m = (\<Sum>k \<in> dom m. the (m k))"

lemma counted_increment:
  assumes "finite (dom m)" "k \<in> dom m"
  shows "counted (increment m k) = Suc (counted m)"
proof -
  have d: "dom (increment m k) = dom m" using assms(2) by auto
  have "counted (increment m k) = the (increment m k k) + (\<Sum>j \<in> dom m - {k}. the (increment m k j))"
    unfolding counted_def d using assms by (simp add: sum.remove)
  also have "\<dots> = Suc (the (m k)) + (\<Sum>j \<in> dom m - {k}. the (m j))"
    using assms(2) by (auto simp: increment_def intro!: sum.cong)
  also have "\<dots> = Suc (counted m)" unfolding counted_def using assms by (simp add: sum.remove)
  finally show ?thesis .
qed

lemma counted_zeros: "counted (zeros ks) = 0"
  unfolding counted_def dom_zeros by (simp add: zeros_def)

text \<open>
  The contract: a request the service promises to count is answered with a code and method whose
  series exists from the start.
\<close>

locale counted_service =
  fixes prom :: prom_client and mux :: "http_request \<Rightarrow> 's route" and series :: "series set"
    and promised :: "http_request \<Rightarrow> bool"
  assumes finite_series: "finite series"
    and answers_in_series: "mux rq = Instrumented h \<Longrightarrow> promised rq \<Longrightarrow> h rq s = (rs, s') \<Longrightarrow> observed_as prom rq rs \<in> series"
begin

lemma serve_keeps_series:
  assumes "promised rq" "ServeHTTP prom mux rq (s, m) = (rs, s', m')" "dom (mx_requests m) = series" "dom (mx_latency m) = series"
  shows "dom (mx_requests m') = series \<and> dom (mx_latency m') = series \<and>
    counted (mx_requests m') = counted (mx_requests m) + of_bool (is_instrumented (mux rq)) \<and>
    counted (mx_latency m') = counted (mx_latency m) + of_bool (is_instrumented (mux rq))"
proof (cases "mux rq")
  case (Plain h)
  with assms show ?thesis by (simp add: ServeHTTP_def is_instrumented_def)
next
  case (Instrumented h)
  then have "observed_as prom rq rs \<in> series"
    using assms(1,2) answers_in_series by (auto simp: ServeHTTP_def split: prod.splits)
  moreover have "m' = \<lparr>mx_requests = increment (mx_requests m) (observed_as prom rq rs),
      mx_latency = increment (mx_latency m) (observed_as prom rq rs)\<rparr>"
    using Instrumented assms(2) by (auto simp: ServeHTTP_def split: prod.splits)
  ultimately show ?thesis
    using Instrumented assms(3,4) finite_series
    by (simp add: is_instrumented_def counted_increment insert_absorb)
qed

lemma serve_all_counts:
  assumes "list_all promised rqs" "serve_all prom mux rqs (s, m) = (rss, s', m')"
    and "dom (mx_requests m) = series" "dom (mx_latency m) = series"
  shows "dom (mx_requests m') = series \<and> dom (mx_latency m') = series \<and>
    counted (mx_requests m') = counted (mx_requests m) + length (filter (\<lambda>rq. is_instrumented (mux rq)) rqs) \<and>
    counted (mx_latency m') = counted (mx_latency m) + length (filter (\<lambda>rq. is_instrumented (mux rq)) rqs)"
  using assms
proof (induction rqs arbitrary: s m rss)
  case (Cons rq rqs)
  obtain rs s1 m1 where one: "ServeHTTP prom mux rq (s, m) = (rs, s1, m1)" by (metis surj_pair)
  obtain rss' where all: "serve_all prom mux rqs (s1, m1) = (rss', s', m')"
    using Cons.prems(2) one by (auto split: prod.splits)
  note step = serve_keeps_series [OF _ one Cons.prems(3,4)]
  show ?case using Cons.IH [OF _ all] step Cons.prems(1) by simp
qed simp

lemma zero_start_counts:
  assumes "zero_on series m" "list_all promised rqs" "serve_all prom mux rqs (s, m) = (rss, s', m')"
  shows "dom (mx_requests m') = series \<and> counted (mx_requests m') = length (filter (\<lambda>rq. is_instrumented (mux rq)) rqs) \<and>
         dom (mx_latency m') = series \<and> counted (mx_latency m') = length (filter (\<lambda>rq. is_instrumented (mux rq)) rqs)"
proof -
  have "counted (mx_requests m) = 0" "counted (mx_latency m) = 0"
    using assms(1) counted_zeros by (simp_all add: zero_on_def)
  with serve_all_counts [OF assms(2,3)] assms(1) show ?thesis by (simp add: zero_on_def)
qed

end

section \<open>The labels of the Prometheus client\<close>

text \<open>What the services rely on: a status code's label is its number, a method's its lower-case name.\<close>

locale prom_labels =
  fixes prom :: prom_client
  assumes code_label: "CodeLabel prom code = itoa code"
    and get_label: "MethodLabel prom ''GET'' = ''get''"
    and head_label: "MethodLabel prom ''HEAD'' = ''head''"
    and post_label: "MethodLabel prom ''POST'' = ''post''"
begin

lemma observed_get: "rq_Method rq = ''GET'' \<Longrightarrow> observed_as prom rq rs = (itoa (rs_Status rs), ''get'')"
  by (simp add: observed_as_def code_label get_label)

lemma observed_head: "rq_Method rq = ''HEAD'' \<Longrightarrow> observed_as prom rq rs = (itoa (rs_Status rs), ''head'')"
  by (simp add: observed_as_def code_label head_label)

lemma observed_post: "rq_Method rq = ''POST'' \<Longrightarrow> observed_as prom rq rs = (itoa (rs_Status rs), ''post'')"
  by (simp add: observed_as_def code_label post_label)

end

definition promhttp :: prom_client where
  "promhttp =
     \<lparr>Register = (\<lambda>name. None), GetMetric = (\<lambda>name k. None), CodeLabel = itoa,
      MethodLabel = (\<lambda>m. if m = ''GET'' then ''get'' else if m = ''HEAD'' then ''head''
        else if m = ''POST'' then ''post'' else if m = ''PUT'' then ''put'' else if m = ''DELETE'' then ''delete''
        else if m = ''CONNECT'' then ''connect'' else if m = ''OPTIONS'' then ''options''
        else if m = ''TRACE'' then ''trace'' else if m = ''PATCH'' then ''patch'' else ''unknown''),
      Expose = (\<lambda>m. [])\<rparr>"

interpretation ph: prom_labels promhttp
  by unfold_locales (simp_all add: promhttp_def)

end
