(* ===== verification/Shortlink_Store.thy ===== *)
theory Shortlink_Store
  imports Go_Strings "HOL-Library.Word"
begin

text \<open>
  \<open>services/shortlink/store.go\<close>: links in memory, under random codes. \<open>add\<close> runs once as a function and,
  for concurrent requests, as a thread whose steps are what it does between two acquisitions of the
  store's lock. The random bytes are an argument: the answer of each call of \<open>rand.Read\<close>, in order.
\<close>

section \<open>Definitions\<close>

definition codeLength :: nat where "codeLength = 7"
definition codeAlphabet :: string where
  "codeAlphabet = ''abcdefghijkmnopqrstuvwxyzABCDEFGHJKLMNPQRSTUVWXYZ23456789''"
definition codeAttempts :: nat where "codeAttempts = 5"

record store =
  links :: "string \<rightharpoonup> string"

definition newStore :: store where
  "newStore = \<lparr>links = Map.empty\<rparr>"

type_synonym byte8 = "8 word"

text \<open>\<open>rand.Read\<close> either fails or fills the whole buffer of \<open>codeLength\<close> bytes.\<close>

definition full_read :: "byte8 list result \<Rightarrow> bool" where
  "full_read read \<longleftrightarrow> (case read of Inl e \<Rightarrow> True | Inr buf \<Rightarrow> length buf = codeLength)"

definition randomCode :: "byte8 list result \<Rightarrow> string result" where
  "randomCode read =
     (case read of
        Inl e \<Rightarrow> Inl (wrap_error ''reading random bytes: '' e [])
      | Inr buf \<Rightarrow> Inr (map (\<lambda>b. codeAlphabet ! (unat b mod length codeAlphabet)) buf))"

text \<open>The critical section of an attempt: whether the code was free, and the store after it.\<close>

definition put_if_free :: "store \<Rightarrow> string \<Rightarrow> string \<Rightarrow> bool \<times> store" where
  "put_if_free s code target =
     (case links s code of
        None \<Rightarrow> (True, s\<lparr>links := (links s)(code \<mapsto> target)\<rparr>)
      | Some _ \<Rightarrow> (False, s))"

definition errNoCode :: error where
  "errNoCode = Errorf ''no unused code found''"

fun add_loop :: "nat \<Rightarrow> (nat \<Rightarrow> byte8 list result) \<Rightarrow> store \<Rightarrow> string \<Rightarrow> string result \<times> store" where
  "add_loop 0 reads s target = (Inl errNoCode, s)"
| "add_loop (Suc n) reads s target =
     (case randomCode (reads 0) of
        Inl e \<Rightarrow> (Inl e, s)
      | Inr code \<Rightarrow>
          (case put_if_free s code target of
             (True, s') \<Rightarrow> (Inr code, s')
           | (False, s') \<Rightarrow> add_loop n (\<lambda>i. reads (Suc i)) s' target))"

definition add :: "(nat \<Rightarrow> byte8 list result) \<Rightarrow> store \<Rightarrow> string \<Rightarrow> string result \<times> store" where
  "add reads s target = add_loop codeAttempts reads s target"

definition get :: "store \<Rightarrow> string \<Rightarrow> string option" where
  "get s code = links s code"

section \<open>The interface\<close>

text \<open>
  What the handlers rely on: a link is added under a code that was free, and nothing else changes; when
  adding fails nothing changes at all; a lookup finds what was added.
\<close>

locale link_store =
  fixes content :: "'s \<Rightarrow> string \<rightharpoonup> string"
    and add_link :: "'r \<Rightarrow> 's \<Rightarrow> string \<Rightarrow> string result \<times> 's"
    and get_link :: "'s \<Rightarrow> string \<Rightarrow> string option"
  assumes get_content: "get_link s code = content s code"
    and add_fresh: "add_link r s target = (Inr code, s') \<Longrightarrow>
          content s code = None \<and> content s' = (content s)(code \<mapsto> target)"
    and add_fails: "add_link r s target = (Inl e, s') \<Longrightarrow> content s' = content s"
begin

lemma add_keeps: "add_link r s target = (res, s') \<Longrightarrow> content s \<subseteq>\<^sub>m content s'"
  by (cases res) (simp add: add_fails, force simp: map_le_def dest: add_fresh)

lemma add_targets: "add_link r s target = (res, s') \<Longrightarrow> ran (content s') \<subseteq> insert target (ran (content s))"
  by (cases res) (auto simp: add_fails ran_def dest!: add_fresh split: if_splits)

lemma get_after_add: "add_link r s target = (Inr code, s') \<Longrightarrow> get_link s' code = Some target"
  by (auto simp: get_content dest: add_fresh)

lemma get_after_other: "add_link r s target = (res, s') \<Longrightarrow> get_link s code = Some t \<Longrightarrow> get_link s' code = Some t"
  unfolding get_content using add_keeps by (metis domI map_le_def)

end

lemma put_if_free_simps [simp]:
  "put_if_free s code target = (True, s') \<longleftrightarrow>
     links s code = None \<and> s' = s\<lparr>links := (links s)(code \<mapsto> target)\<rparr>"
  "put_if_free s code target = (False, s') \<longleftrightarrow> links s code \<noteq> None \<and> s' = s"
  by (auto simp: put_if_free_def split: option.splits)

lemma add_loop_Inr:
  "add_loop n reads s target = (Inr code, s') \<Longrightarrow>
     links s code = None \<and> s' = s\<lparr>links := (links s)(code \<mapsto> target)\<rparr> \<and> (\<exists>i < n. randomCode (reads i) = Inr code)"
proof (induction n arbitrary: reads)
  case (Suc n)
  then obtain c where c: "randomCode (reads 0) = Inr c" by (auto split: sum.splits)
  show ?case
  proof (cases "links s c")
    case None
    with Suc.prems c show ?thesis by (auto simp: put_if_free_def fun_upd_def)
  next
    case (Some t)
    with Suc c have "links s code = None \<and> s' = s\<lparr>links := (links s)(code \<mapsto> target)\<rparr> \<and>
        (\<exists>i < n. randomCode (reads (Suc i)) = Inr code)"
      by (simp add: put_if_free_def fun_upd_def)
    then show ?thesis by (metis Suc_less_eq)
  qed
qed simp

lemma add_loop_Inl: "add_loop n reads s target = (Inl e, s') \<Longrightarrow> s' = s"
  by (induction n arbitrary: reads) (auto split: sum.splits prod.splits bool.splits)

interpretation sl: link_store links add get
  by unfold_locales (auto simp: add_def get_def dest: add_loop_Inr add_loop_Inl)

section \<open>Codes\<close>

definition code_ok :: "string \<Rightarrow> bool" where
  "code_ok code \<longleftrightarrow> length code = codeLength \<and> list_all (\<lambda>c. c \<in> set codeAlphabet) code"

lemma codeAlphabet_length [simp]: "length codeAlphabet = 57"
  by (simp add: codeAlphabet_def)

lemma randomCode_ok: "randomCode read = Inr code \<Longrightarrow> full_read read \<Longrightarrow> code_ok code"
  by (auto simp: randomCode_def full_read_def code_ok_def list_all_iff intro!: nth_mem split: sum.splits)

text \<open>Every code can come up: each character of the alphabet is some byte's.\<close>

lemma codeAlphabet_reached:
  assumes "c \<in> set codeAlphabet"
  shows "\<exists>b :: byte8. codeAlphabet ! (unat b mod length codeAlphabet) = c"
proof -
  from assms obtain i where i: "i < 57" "c = codeAlphabet ! i" by (auto simp: in_set_conv_nth)
  then have "unat (word_of_nat i :: byte8) = i" by (simp add: unat_of_nat)
  with i show ?thesis by (intro exI [of _ "word_of_nat i"]) simp
qed

section \<open>Concurrent requests\<close>

text \<open>
  A thread runs \<open>add\<close>: it draws a code outside the lock, then tries it inside, until a code was free, the
  attempts are used up or the random source fails. Between two of its steps any other thread may run.
\<close>

datatype phase =
    Drawing nat
  | Drawn nat string
  | Returned "string result"

record thread =
  th_target :: string
  th_phase :: phase

text \<open>The threads, by number, and the store they share.\<close>

record system =
  sys_store :: store
  sys_threads :: "nat \<rightharpoonup> thread"

definition enter_add :: "string \<Rightarrow> thread" where
  "enter_add target = \<lparr>th_target = target, th_phase = Drawing codeAttempts\<rparr>"

text \<open>One step of a thread, with the answer of \<open>rand.Read\<close> in case it draws.\<close>

fun thread_step :: "byte8 list result \<Rightarrow> store \<Rightarrow> thread \<Rightarrow> store \<times> thread" where
  "thread_step read s \<lparr>th_target = target, th_phase = Drawing 0\<rparr> =
     (s, \<lparr>th_target = target, th_phase = Returned (Inl errNoCode)\<rparr>)"
| "thread_step read s \<lparr>th_target = target, th_phase = Drawing (Suc n)\<rparr> =
     (case randomCode read of
        Inl e \<Rightarrow> (s, \<lparr>th_target = target, th_phase = Returned (Inl e)\<rparr>)
      | Inr code \<Rightarrow> (s, \<lparr>th_target = target, th_phase = Drawn n code\<rparr>))"
| "thread_step read s \<lparr>th_target = target, th_phase = Drawn n code\<rparr> =
     (case put_if_free s code target of
        (True, s') \<Rightarrow> (s', \<lparr>th_target = target, th_phase = Returned (Inr code)\<rparr>)
      | (False, s') \<Rightarrow> (s', \<lparr>th_target = target, th_phase = Drawing n\<rparr>))"
| "thread_step read s \<lparr>th_target = target, th_phase = Returned res\<rparr> =
     (s, \<lparr>th_target = target, th_phase = Returned res\<rparr>)"

fun returned :: "phase \<Rightarrow> bool" where
  "returned (Returned res) = True"
| "returned _ = False"

text \<open>A thread that has not returned takes a step, or a new request starts one.\<close>

inductive system_run :: "system \<Rightarrow> system \<Rightarrow> bool" where
  run: "sys_threads y i = Some t \<Longrightarrow> \<not> returned (th_phase t) \<Longrightarrow> full_read read \<Longrightarrow>
    thread_step read (sys_store y) t = (s', t') \<Longrightarrow>
    system_run y \<lparr>sys_store = s', sys_threads = (sys_threads y)(i \<mapsto> t')\<rparr>"

inductive system_step :: "system \<Rightarrow> system \<Rightarrow> bool" where
  start: "sys_threads y i = None \<Longrightarrow>
    system_step y (y\<lparr>sys_threads := (sys_threads y)(i \<mapsto> enter_add target)\<rparr>)"
| work: "system_run y y' \<Longrightarrow> system_step y y'"

inductive_cases system_runE: "system_run y y'"
inductive_cases system_stepE: "system_step y y'"

definition idle_system :: system where
  "idle_system = \<lparr>sys_store = newStore, sys_threads = Map.empty\<rparr>"

abbreviation system_steps :: "system \<Rightarrow> system \<Rightarrow> bool" where
  "system_steps \<equiv> system_step\<^sup>*\<^sup>*"

subsection \<open>What a thread's step does\<close>

lemma thread_cases [case_names exhausted drawing drawn returned]:
  assumes "\<And>target. t = \<lparr>th_target = target, th_phase = Drawing 0\<rparr> \<Longrightarrow> P"
    and "\<And>target n. t = \<lparr>th_target = target, th_phase = Drawing (Suc n)\<rparr> \<Longrightarrow> P"
    and "\<And>target n code. t = \<lparr>th_target = target, th_phase = Drawn n code\<rparr> \<Longrightarrow> P"
    and "\<And>target res. t = \<lparr>th_target = target, th_phase = Returned res\<rparr> \<Longrightarrow> P"
  shows P
proof (cases t)
  case (fields target ph)
  with assms show ?thesis by (cases ph; simp) (metis nat.exhaust)
qed

text \<open>The steps a thread can still take.\<close>

fun steps_left :: "phase \<Rightarrow> nat" where
  "steps_left (Drawing n) = 2 * n + 1"
| "steps_left (Drawn n code) = 2 * n + 2"
| "steps_left (Returned res) = 0"

text \<open>A drawn code has the right form, and a code that was returned leads to the thread's target.\<close>

fun thread_ok :: "store \<Rightarrow> thread \<Rightarrow> bool" where
  "thread_ok s t =
     (case th_phase t of
        Drawing n \<Rightarrow> True
      | Drawn n code \<Rightarrow> code_ok code
      | Returned (Inl e) \<Rightarrow> True
      | Returned (Inr code) \<Rightarrow> code_ok code \<and> links s code = Some (th_target t))"

lemma thread_step_spec:
  assumes "thread_step read s t = (s', t')" "thread_ok s t" "full_read read"
  shows "th_target t' = th_target t" "thread_ok s' t'" "links s \<subseteq>\<^sub>m links s'"
    "\<not> returned (th_phase t) \<Longrightarrow> steps_left (th_phase t') < steps_left (th_phase t)"
    "\<not> returned (th_phase t) \<Longrightarrow> th_phase t' = Returned (Inr code) \<Longrightarrow> links s code = None"
proof -
  have code: "code_ok c" if "randomCode read = Inr c" for c
    using that assms(3) by (rule randomCode_ok)
  show "th_target t' = th_target t" "thread_ok s' t'" "links s \<subseteq>\<^sub>m links s'"
    "\<not> returned (th_phase t) \<Longrightarrow> steps_left (th_phase t') < steps_left (th_phase t)"
    "\<not> returned (th_phase t) \<Longrightarrow> th_phase t' = Returned (Inr code) \<Longrightarrow> links s code = None"
    using assms(1,2) code
    by (cases t rule: thread_cases;
        auto simp: put_if_free_def map_le_def split: sum.splits option.splits prod.splits bool.splits)+
qed

subsection \<open>The system's invariant\<close>

definition system_ok :: "system \<Rightarrow> bool" where
  "system_ok y \<longleftrightarrow>
     (\<forall>i t. sys_threads y i = Some t \<longrightarrow> thread_ok (sys_store y) t) \<and>
     (\<forall>i j t u code. sys_threads y i = Some t \<and> sys_threads y j = Some u \<and> i \<noteq> j \<longrightarrow>
        \<not> (th_phase t = Returned (Inr code) \<and> th_phase u = Returned (Inr code)))"

lemma thread_ok_mono: "thread_ok s t \<Longrightarrow> links s \<subseteq>\<^sub>m links s' \<Longrightarrow> thread_ok s' t"
  by (force simp: map_le_def dom_def split: phase.splits sum.splits)

lemma system_run_ok:
  assumes "system_run y y'" "system_ok y"
  shows "system_ok y'"
proof -
  from assms(1) obtain i t read s' t' where i: "sys_threads y i = Some t" and step: "thread_step read (sys_store y) t = (s', t')"
    and len: "full_read read" and live: "\<not> returned (th_phase t)"
    and y': "y' = \<lparr>sys_store = s', sys_threads = (sys_threads y)(i \<mapsto> t')\<rparr>" by (elim system_runE) blast
  from assms(2) i have ok: "thread_ok (sys_store y) t" by (auto simp: system_ok_def)
  note spec = thread_step_spec [OF step ok len]
  have others: "thread_ok s' u" if "sys_threads y j = Some u" for j u
    using assms(2) that spec(3) by (auto simp: system_ok_def intro: thread_ok_mono simp del: thread_ok.simps)
  have fresh: "th_phase u \<noteq> Returned (Inr code)"
    if "th_phase t' = Returned (Inr code)" "sys_threads y j = Some u" for j u code
  proof
    assume "th_phase u = Returned (Inr code)"
    moreover have "thread_ok (sys_store y) u" using assms(2) that(2) by (auto simp: system_ok_def simp del: thread_ok.simps)
    ultimately show False using spec(5) [OF live that(1)] by simp
  qed
  show "system_ok y'"
    unfolding system_ok_def y' system.select_convs
  proof (intro conjI allI impI)
    fix j u assume "((sys_threads y)(i \<mapsto> t')) j = Some u"
    then show "thread_ok s' u" using spec(2) others by (auto split: if_splits simp del: thread_ok.simps)
  next
    fix j k u v code
    assume a: "((sys_threads y)(i \<mapsto> t')) j = Some u \<and> ((sys_threads y)(i \<mapsto> t')) k = Some v \<and> j \<noteq> k"
    show "\<not> (th_phase u = Returned (Inr code) \<and> th_phase v = Returned (Inr code))"
    proof (cases "j = i \<or> k = i")
      case True
      then show ?thesis using a fresh by auto
    next
      case False
      then show ?thesis using a assms(2) unfolding system_ok_def by auto
    qed
  qed
qed

lemma system_step_ok:
  assumes "system_step y y'" "system_ok y"
  shows "system_ok y'"
  using assms(1)
proof cases
  case (start i target)
  then show ?thesis using assms(2) by (auto simp: system_ok_def enter_add_def split: if_splits)
qed (use assms(2) system_run_ok in blast)

lemma system_steps_ok:
  assumes "system_steps y y'" "system_ok y"
  shows "system_ok y'"
  using assms by (induction rule: rtranclp_induct) (auto intro: system_step_ok)

lemma idle_system_ok: "system_ok idle_system"
  by (simp add: system_ok_def idle_system_def)

lemma system_steps_threads:
  "system_steps y y' \<Longrightarrow> sys_threads y i = Some t \<Longrightarrow> returned (th_phase t) \<Longrightarrow> sys_threads y' i = Some t"
  by (induction rule: rtranclp_induct) (auto elim!: system_stepE system_runE split: if_splits)

section \<open>Theorems\<close>

text \<open>
  The store that concurrent requests should see: requests come and are each settled in one step, by putting the
  request's own URL under a code that is free at that moment and answering with the code, or by an error that leaves the
  links alone. Of a request it keeps the URL and, once it is settled, the answer.
\<close>

type_synonym request = "string \<times> string result option"

record atomic_store =
  at_Links :: "string \<rightharpoonup> string"
  at_Requests :: "nat \<rightharpoonup> request"

definition add_error :: "error \<Rightarrow> bool" where
  "add_error e \<longleftrightarrow> e = errNoCode \<or> (\<exists>cause. e = wrap_error ''reading random bytes: '' cause [])"

inductive atomic_step :: "atomic_store \<Rightarrow> atomic_store \<Rightarrow> bool" where
  comes: "at_Requests a i = None \<Longrightarrow>
    atomic_step a (a\<lparr>at_Requests := (at_Requests a)(i \<mapsto> (target, None))\<rparr>)"
| inserts: "at_Requests a i = Some (target, None) \<Longrightarrow> at_Links a code = None \<Longrightarrow> code_ok code \<Longrightarrow>
    atomic_step a \<lparr>at_Links = (at_Links a)(code \<mapsto> target), at_Requests = (at_Requests a)(i \<mapsto> (target, Some (Inr code)))\<rparr>"
| gives_up: "at_Requests a i = Some (target, None) \<Longrightarrow> add_error e \<Longrightarrow>
    atomic_step a (a\<lparr>at_Requests := (at_Requests a)(i \<mapsto> (target, Some (Inl e)))\<rparr>)"

text \<open>What of the system the atomic store keeps.\<close>

definition request_of :: "thread \<Rightarrow> request" where
  "request_of t = (th_target t, case th_phase t of Returned res \<Rightarrow> Some res | _ \<Rightarrow> None)"

definition atomic_view :: "system \<Rightarrow> atomic_store" where
  "atomic_view y = \<lparr>at_Links = links (sys_store y), at_Requests = map_option request_of \<circ> sys_threads y\<rparr>"

lemma randomCode_error: "randomCode read = Inl e \<Longrightarrow> add_error e"
  by (auto simp: randomCode_def add_error_def split: sum.splits)

lemma request_of_iff:
  "request_of t = (target, Some res) \<longleftrightarrow> th_target t = target \<and> th_phase t = Returned res"
  by (cases "th_phase t") (auto simp: request_of_def)

text \<open>A step of a thread leaves its request open and the links alone, or settles the request.\<close>

lemma thread_step_view:
  assumes "thread_step read s t = (s', t')" "\<not> returned (th_phase t)"
  obtains (silent) "s' = s" "request_of t' = request_of t"
  | (inserted) code where "request_of t = (th_target t, None)" "links s code = None"
      "links s' = (links s)(code \<mapsto> th_target t)" "request_of t' = (th_target t, Some (Inr code))"
  | (failed) e where "request_of t = (th_target t, None)" "s' = s" "add_error e" "request_of t' = (th_target t, Some (Inl e))"
proof (cases t rule: thread_cases)
  case (exhausted target)
  with assms(1) show thesis by (intro failed [of errNoCode]) (auto simp: request_of_def add_error_def)
next
  case (drawing target n)
  with assms(1) show thesis
    by (cases "randomCode read") (auto simp: request_of_def intro: failed silent dest: randomCode_error)
next
  case (drawn target n code)
  with assms(1) show thesis
    by (cases "links s code") (auto simp: request_of_def put_if_free_def intro: inserted silent)
qed (use assms(2) in simp)

lemma run_refines:
  assumes "system_run y y'" "system_ok y"
  shows "atomic_step\<^sup>=\<^sup>= (atomic_view y) (atomic_view y')"
proof -
  from assms(1) obtain i t read s' t' where i: "sys_threads y i = Some t" and step: "thread_step read (sys_store y) t = (s', t')"
    and live: "\<not> returned (th_phase t)"
    and y': "y' = \<lparr>sys_store = s', sys_threads = (sys_threads y)(i \<mapsto> t')\<rparr>" by (elim system_runE) blast
  have after: "atomic_view y' = \<lparr>at_Links = links s', at_Requests = (at_Requests (atomic_view y))(i \<mapsto> request_of t')\<rparr>"
    unfolding y' atomic_view_def by (auto simp: fun_eq_iff)
  have before: "at_Requests (atomic_view y) i = Some (request_of t)" "at_Links (atomic_view y) = links (sys_store y)"
    using i by (simp_all add: atomic_view_def)
  from assms(1,2) have "system_ok y'" by (rule system_run_ok)
  moreover have "sys_threads y' i = Some t'" "sys_store y' = s'" using y' by simp_all
  ultimately have ok: "thread_ok s' t'" unfolding system_ok_def by metis
  from step live show ?thesis
  proof (cases rule: thread_step_view)
    case silent
    have "(at_Requests (atomic_view y))(i \<mapsto> request_of t) = at_Requests (atomic_view y)"
      using before(1) by (rule map_upd_triv)
    with silent before(2) have "atomic_view y' = atomic_view y" unfolding after by (cases "atomic_view y") simp
    then show ?thesis by simp
  next
    case (inserted code)
    from inserted(4) ok have "code_ok code" by (simp add: request_of_iff)
    with inserted before atomic_step.inserts [of "atomic_view y" i "th_target t" code] show ?thesis unfolding after by simp
  next
    case (failed e)
    with before atomic_step.gives_up [of "atomic_view y" i "th_target t" e] show ?thesis
      unfolding after by (cases "atomic_view y") simp
  qed
qed

lemma step_refines:
  assumes "system_step y y'" "system_ok y"
  shows "atomic_step\<^sup>=\<^sup>= (atomic_view y) (atomic_view y')"
  using assms(1)
proof cases
  case (start i target)
  have "atomic_view y' = (atomic_view y)\<lparr>at_Requests := (at_Requests (atomic_view y))(i \<mapsto> (target, None))\<rparr>"
    unfolding start atomic_view_def by (auto simp: fun_eq_iff request_of_def enter_add_def)
  moreover have "at_Requests (atomic_view y) i = None" using start by (simp add: atomic_view_def)
  ultimately show ?thesis using atomic_step.comes [of "atomic_view y" i target] by simp
qed (use run_refines assms(2) in blast)

lemma r_into_rtranclp_reflcl: "r\<^sup>=\<^sup>= \<le> r\<^sup>*\<^sup>*" for r :: "'a \<Rightarrow> 'a \<Rightarrow> bool"
  by auto

lemma steps_refine:
  assumes "system_steps y y'" "system_ok y"
  shows "atomic_step\<^sup>*\<^sup>* (atomic_view y) (atomic_view y')"
  using assms
proof (induction rule: rtranclp_induct)
  case (step y' y'')
  from step_refines [OF step(2) system_steps_ok [OF step(1,4)]]
  have "atomic_step\<^sup>*\<^sup>* (atomic_view y') (atomic_view y'')" by (rule predicate2D [OF r_into_rtranclp_reflcl])
  with step(3) [OF step(4)] show ?case by (rule rtranclp_trans)
qed simp

text \<open>In the atomic store the links are those of the answers.\<close>

definition answered :: "atomic_store \<Rightarrow> bool" where
  "answered a \<longleftrightarrow> (\<forall>code target. at_Links a code = Some target \<longleftrightarrow> (\<exists>i. at_Requests a i = Some (target, Some (Inr code))))"

lemma atomic_step_answered: "atomic_step a a' \<Longrightarrow> answered a \<Longrightarrow> answered a'"
proof (induction rule: atomic_step.induct)
  case (comes a i target)
  have "((at_Requests a)(i \<mapsto> (target, None))) j = Some (u, Some (Inr code)) \<longleftrightarrow> at_Requests a j = Some (u, Some (Inr code))" for j u code
    using comes(1) by simp
  with comes(2) show ?case by (simp add: answered_def)
next
  case (inserts a i target code)
  have old: "at_Links a c = Some u \<longleftrightarrow> (\<exists>j. at_Requests a j = Some (u, Some (Inr c)))" for c u
    using inserts(4) by (simp add: answered_def)
  have "((at_Links a)(code \<mapsto> target)) c = Some u \<longleftrightarrow>
      (\<exists>j. ((at_Requests a)(i \<mapsto> (target, Some (Inr code)))) j = Some (u, Some (Inr c)))" for c u
  proof (cases "c = code")
    case True
    with old [of code u] inserts(2) show ?thesis by auto
  next
    case False
    then have "((at_Requests a)(i \<mapsto> (target, Some (Inr code)))) j = Some (u, Some (Inr c)) \<longleftrightarrow>
        at_Requests a j = Some (u, Some (Inr c))" for j
      using inserts(1) by simp
    then show ?thesis using False old by simp
  qed
  then show ?case by (simp add: answered_def)
next
  case (gives_up a i target e)
  have "((at_Requests a)(i \<mapsto> (target, Some (Inl e)))) j = Some (u, Some (Inr c)) \<longleftrightarrow> at_Requests a j = Some (u, Some (Inr c))" for j u c
    using gives_up(1) by simp
  with gives_up(3) show ?case by (simp add: answered_def)
qed

lemma atomic_steps_answered: "atomic_step\<^sup>*\<^sup>* a a' \<Longrightarrow> answered a \<Longrightarrow> answered a'"
  by (induction rule: rtranclp_induct) (auto intro: atomic_step_answered)

text \<open>
  C19: concurrent adds refine an atomic store. From any state that requests can lead to, whatever the schedule and the
  random bytes, the atomic store goes from what it keeps of the one state to what it keeps of the other by its own steps: the
  same requests come and get the same answers, each settled in one step in the meantime. And the links held are
  exactly those that were answered, each with the URL of its request.
\<close>

theorem adds_linearize:
  assumes "system_steps idle_system y" and "system_steps y y'"
  shows "atomic_step\<^sup>*\<^sup>* (atomic_view y) (atomic_view y') \<and>
         (\<forall>code target. get (sys_store y') code = Some target \<longleftrightarrow>
            (\<exists>i t. sys_threads y' i = Some t \<and> th_target t = target \<and> th_phase t = Returned (Inr code)))"
proof
  note ok = system_steps_ok [OF assms(1) idle_system_ok]
  from steps_refine [OF assms(2) ok] show "atomic_step\<^sup>*\<^sup>* (atomic_view y) (atomic_view y')" .
  have "atomic_step\<^sup>*\<^sup>* (atomic_view idle_system) (atomic_view y')"
    using steps_refine [OF rtranclp_trans [OF assms] idle_system_ok] .
  moreover have "answered (atomic_view idle_system)"
    by (simp add: answered_def atomic_view_def idle_system_def newStore_def)
  ultimately have "answered (atomic_view y')" by (rule atomic_steps_answered)
  moreover have "at_Requests (atomic_view y') i = Some (target, Some (Inr code)) \<longleftrightarrow>
      (\<exists>t. sys_threads y' i = Some t \<and> th_target t = target \<and> th_phase t = Returned (Inr code))" for i target code
    by (auto simp: atomic_view_def request_of_iff)
  ultimately show "\<forall>code target. get (sys_store y') code = Some target \<longleftrightarrow>
      (\<exists>i t. sys_threads y' i = Some t \<and> th_target t = target \<and> th_phase t = Returned (Inr code))"
    by (simp add: answered_def get_def) (simp add: atomic_view_def)
qed

text \<open>
  C25: a code that \<open>add\<close> returned is seven characters of the alphabet, leads to the URL it was returned
  for from then on, and is never returned for another request, however the requests interleave.
\<close>

theorem add_code_kept:
  assumes "system_steps idle_system y" and "sys_threads y i = Some t" and "th_phase t = Returned (Inr code)"
    and "system_steps y y'"
  shows "code_ok code \<and> get (sys_store y') code = Some (th_target t) \<and>
         (\<forall>j u. sys_threads y' j = Some u \<and> j \<noteq> i \<longrightarrow> th_phase u \<noteq> Returned (Inr code))"
proof -
  have ok: "system_ok y'"
    using system_steps_ok [OF rtranclp_trans [OF assms(1,4)] idle_system_ok] .
  have t: "sys_threads y' i = Some t" using system_steps_threads [OF assms(4,2)] assms(3) by simp
  with ok assms(3) have "thread_ok (sys_store y') t" by (auto simp: system_ok_def simp del: thread_ok.simps)
  with assms(3) have "code_ok code \<and> links (sys_store y') code = Some (th_target t)" by simp
  then show ?thesis using ok t assms(3) unfolding system_ok_def get_def by metis
qed

text \<open>The steps left to all threads.\<close>

definition work_left :: "system \<Rightarrow> nat" where
  "work_left y = (\<Sum>i \<in> dom (sys_threads y). steps_left (th_phase (the (sys_threads y i))))"

lemma thread_step_less:
  assumes "thread_step read s t = (s', t')" "\<not> returned (th_phase t)"
  shows "steps_left (th_phase t') < steps_left (th_phase t)"
  using assms
  by (cases t rule: thread_cases; auto simp: put_if_free_def split: sum.splits option.splits)

lemma system_run_work:
  assumes "system_run y y'" "finite (dom (sys_threads y))"
  shows "work_left y' < work_left y" "finite (dom (sys_threads y'))"
proof -
  from assms(1) obtain i t read s' t' where i: "sys_threads y i = Some t" and step: "thread_step read (sys_store y) t = (s', t')"
    and live: "\<not> returned (th_phase t)"
    and y': "y' = \<lparr>sys_store = s', sys_threads = (sys_threads y)(i \<mapsto> t')\<rparr>" by (elim system_runE) blast
  have d: "dom (sys_threads y') = dom (sys_threads y)" using i y' by auto
  then show "finite (dom (sys_threads y'))" using assms(2) by simp
  show "work_left y' < work_left y"
    unfolding work_left_def d using assms(2)
  proof (rule sum_strict_mono_ex1)
    show "\<forall>j \<in> dom (sys_threads y).
        steps_left (th_phase (the (sys_threads y' j))) \<le> steps_left (th_phase (the (sys_threads y j)))"
      using thread_step_less [OF step live] i y' by auto
    show "\<exists>j \<in> dom (sys_threads y).
        steps_left (th_phase (the (sys_threads y' j))) < steps_left (th_phase (the (sys_threads y j)))"
      using thread_step_less [OF step live] i y' by (intro bexI [of _ i]) auto
  qed
qed

lemma system_run_enabled:
  "(\<exists>y'. system_run y y') \<longleftrightarrow> (\<exists>i t. sys_threads y i = Some t \<and> \<not> returned (th_phase t))"
proof
  assume "\<exists>i t. sys_threads y i = Some t \<and> \<not> returned (th_phase t)"
  then obtain i t where t: "sys_threads y i = Some t" "\<not> returned (th_phase t)" by blast
  have "full_read (Inl (Errorf []))" by (simp add: full_read_def)
  with t show "\<exists>y'. system_run y y'" by (metis system_run.run surj_pair)
qed (elim exE system_runE, blast)

text \<open>
  C26: every add returns. Without new requests a system takes no more steps than the threads have left,
  eleven for each that has just started, and it can always take one until all threads have returned.
\<close>

theorem adds_return:
  assumes "finite (dom (sys_threads y))" and "(system_run ^^ k) y y'"
  shows "k + work_left y' \<le> work_left y \<and>
         ((\<exists>y''. system_run y' y'') \<longleftrightarrow> (\<exists>i t. sys_threads y' i = Some t \<and> \<not> returned (th_phase t)))"
proof -
  from assms(2) have "k + work_left y' \<le> work_left y \<and> finite (dom (sys_threads y'))"
  proof (induction k arbitrary: y')
    case 0
    then show ?case using assms(1) by simp
  next
    case (Suc k)
    then obtain z where z: "(system_run ^^ k) y z" "system_run z y'" by auto
    with Suc.IH [OF z(1)] system_run_work [OF z(2)] show ?case by simp
  qed
  then show ?thesis using system_run_enabled by simp
qed

text \<open>A thread that runs alone, with the answers of \<open>rand.Read\<close> in order.\<close>

fun run_alone :: "nat \<Rightarrow> (nat \<Rightarrow> byte8 list result) \<Rightarrow> store \<times> thread \<Rightarrow> store \<times> thread" where
  "run_alone 0 reads (s, t) = (s, t)"
| "run_alone (Suc k) reads (s, t) =
     run_alone k (case th_phase t of Drawing n \<Rightarrow> (\<lambda>i. reads (Suc i)) | _ \<Rightarrow> reads) (thread_step (reads 0) s t)"

lemma run_alone_returned:
  "run_alone k reads (s, \<lparr>th_target = target, th_phase = Returned res\<rparr>) = (s, \<lparr>th_target = target, th_phase = Returned res\<rparr>)"
  by (induction k) simp_all

lemma run_alone_loop:
  "run_alone (2 * n + 1) reads (s, \<lparr>th_target = target, th_phase = Drawing n\<rparr>) =
     (case add_loop n reads s target of (res, s') \<Rightarrow> (s', \<lparr>th_target = target, th_phase = Returned res\<rparr>))"
proof (induction n arbitrary: reads)
  case (Suc n)
  have "2 * Suc n + 1 = Suc (Suc (2 * n + 1))" by simp
  then show ?case
    using Suc.IH [of "\<lambda>i. reads (Suc i)"]
    by (simp only: run_alone.simps)
      (simp add: put_if_free_def run_alone_returned split: sum.splits option.splits)
qed simp

text \<open>
  A thread that is not disturbed computes what \<open>add\<close> computes as a function, in eleven steps.
\<close>

lemma add_alone:
  "run_alone 11 reads (s, enter_add target) =
     (case add reads s target of (res, s') \<Rightarrow> (s', \<lparr>th_target = target, th_phase = Returned res\<rparr>))"
  using run_alone_loop [of 5 reads s target] by (simp add: enter_add_def add_def codeAttempts_def)

subsection \<open>A request\<close>

definition one_link :: system where
  "one_link =
     \<lparr>sys_store = \<lparr>links = [''aaaaaaa'' \<mapsto> ''https://go.dev'']\<rparr>,
      sys_threads = [0 \<mapsto> \<lparr>th_target = ''https://go.dev'', th_phase = Returned (Inr ''aaaaaaa'')\<rparr>]\<rparr>"

definition one_request :: system where
  "one_request = \<lparr>sys_store = newStore, sys_threads = [0 \<mapsto> enter_add ''https://go.dev'']\<rparr>"

lemma zero_code: "randomCode (Inr [0, 0, 0, 0, 0, 0, 0]) = Inr ''aaaaaaa''"
  by (simp add: randomCode_def) (simp add: codeAlphabet_def)

lemma codeAttempts_Suc: "codeAttempts = Suc 4"
  by (simp add: codeAttempts_def)

lemma one_request_runs: "(system_run ^^ 2) one_request one_link"
proof -
  let ?mid = "\<lparr>sys_store = newStore, sys_threads = [0 \<mapsto> \<lparr>th_target = ''https://go.dev'', th_phase = Drawn 4 ''aaaaaaa''\<rparr>]\<rparr>"
  have "thread_step (Inr [0, 0, 0, 0, 0, 0, 0]) newStore (enter_add ''https://go.dev'') =
      (newStore, \<lparr>th_target = ''https://go.dev'', th_phase = Drawn 4 ''aaaaaaa''\<rparr>)"
    unfolding enter_add_def codeAttempts_Suc thread_step.simps zero_code by simp
  then have "system_run one_request ?mid"
    using system_run.run [of one_request 0 "enter_add ''https://go.dev''" "Inr [0, 0, 0, 0, 0, 0, 0]"]
    by (simp add: one_request_def full_read_def codeLength_def enter_add_def)
  moreover have "system_run ?mid one_link"
    using system_run.run [of ?mid 0 "\<lparr>th_target = ''https://go.dev'', th_phase = Drawn 4 ''aaaaaaa''\<rparr>" "Inr [0, 0, 0, 0, 0, 0, 0]"]
    by (simp add: one_link_def full_read_def codeLength_def newStore_def put_if_free_def)
  ultimately show ?thesis by (auto simp: numeral_2_eq_2)
qed

lemma one_link_reached: "system_steps idle_system one_link"
proof -
  have "system_step idle_system one_request"
    using system_step.start [of idle_system 0 "''https://go.dev''"] by (simp add: idle_system_def one_request_def)
  moreover have "system_steps one_request one_link"
    using one_request_runs relpowp_imp_rtranclp mono_rtranclp [of system_run system_step] system_step.work by metis
  ultimately show ?thesis by (rule converse_rtranclp_into_rtranclp)
qed

theorem adds_linearize_witness:
  "atomic_step\<^sup>*\<^sup>* \<lparr>at_Links = Map.empty, at_Requests = Map.empty\<rparr>
     \<lparr>at_Links = [''aaaaaaa'' \<mapsto> ''https://go.dev''], at_Requests = [0 \<mapsto> (''https://go.dev'', Some (Inr ''aaaaaaa''))]\<rparr>"
proof -
  have "atomic_view idle_system = \<lparr>at_Links = Map.empty, at_Requests = Map.empty\<rparr>"
    by (simp add: atomic_view_def idle_system_def newStore_def comp_def)
  moreover have "atomic_view one_link =
      \<lparr>at_Links = [''aaaaaaa'' \<mapsto> ''https://go.dev''], at_Requests = [0 \<mapsto> (''https://go.dev'', Some (Inr ''aaaaaaa''))]\<rparr>"
    by (simp add: atomic_view_def one_link_def request_of_def comp_def fun_eq_iff)
  ultimately show ?thesis using adds_linearize [OF rtranclp.rtrancl_refl one_link_reached] by simp
qed

theorem add_code_kept_witness: "code_ok ''aaaaaaa'' \<and> get (sys_store one_link) ''aaaaaaa'' = Some ''https://go.dev''"
proof -
  let ?t = "\<lparr>th_target = ''https://go.dev'', th_phase = Returned (Inr ''aaaaaaa'')\<rparr>"
  have "sys_threads one_link 0 = Some ?t" by (simp add: one_link_def)
  from add_code_kept [OF one_link_reached this _ rtranclp.rtrancl_refl] show ?thesis by simp
qed

theorem adds_return_witness: "2 + work_left one_link \<le> work_left one_request \<and> work_left one_request = 11"
proof -
  have "finite (dom (sys_threads one_request))" by (simp add: one_request_def)
  from adds_return [OF this one_request_runs] show ?thesis
    by (simp add: work_left_def one_request_def enter_add_def codeAttempts_def)
qed

end
