(* ===== verification/Go_Json_Decode.thy ===== *)
theory Go_Json_Decode
  imports Go_Json_Read
begin

text \<open>
  \<open>json.NewDecoder(...).Decode\<close>: the values \<open>encoding/json\<close> accepts, on bytes of any kind. Unlike the reader of
  \<open>Go_Json_Read\<close>, which is a specification of what others see, this follows the decoder: it replaces what is not
  UTF-8, joins surrogates, limits the nesting, and stops behind the first value of the stream.
\<close>

section \<open>Runes\<close>

definition between :: "nat \<Rightarrow> nat \<Rightarrow> char \<Rightarrow> bool" where
  "between lo hi c \<longleftrightarrow> lo \<le> byte c \<and> byte c \<le> hi"

text \<open>\<open>utf8.DecodeRune\<close>: the number of bytes of the rune in front, \<open>None\<close> where there is none.\<close>

fun rune_len :: "string \<Rightarrow> nat option" where
  "rune_len [] = None"
| "rune_len (c # s) =
     (if byte c < 128 then Some 1
      else if between 194 223 c then
        (case s of a # _ \<Rightarrow> if between 128 191 a then Some 2 else None | _ \<Rightarrow> None)
      else if between 224 239 c then
        (case s of
           a # b # _ \<Rightarrow>
             if between (if byte c = 224 then 160 else 128) (if byte c = 237 then 159 else 191) a \<and> between 128 191 b
             then Some 3 else None
         | _ \<Rightarrow> None)
      else if between 240 244 c then
        (case s of
           a # b # d # _ \<Rightarrow>
             if between (if byte c = 240 then 144 else 128) (if byte c = 244 then 143 else 191) a \<and>
                between 128 191 b \<and> between 128 191 d
             then Some 4 else None
         | _ \<Rightarrow> None)
      else None)"

lemma rune_len_pos: "rune_len s = Some n \<Longrightarrow> s \<noteq> [] \<and> 0 < n \<and> n \<le> length s"
  by (cases s) (auto split: list.splits if_splits)

function valid_utf8 :: "string \<Rightarrow> bool" where
  "valid_utf8 s = (s = [] \<or> (case rune_len s of None \<Rightarrow> False | Some n \<Rightarrow> valid_utf8 (drop n s)))"
  by pat_completeness auto
termination
  by (relation "measure length") (auto dest!: rune_len_pos)

declare valid_utf8.simps [simp del]

lemma ascii_utf8: "list_all (\<lambda>c. byte c < 128) s \<Longrightarrow> valid_utf8 s"
  by (induction s) (simp_all add: valid_utf8.simps)

definition replacement :: string where
  "replacement = [CHR 0xEF, CHR 0xBF, CHR 0xBD]"

text \<open>The bytes of a code point: of the basic plane without surrogates, or above.\<close>

definition EncodeRune :: "nat \<Rightarrow> string" where
  "EncodeRune n =
     (case utf8 n of
        None \<Rightarrow> replacement
      | Some s \<Rightarrow>
          if n < 65536 then s
          else [char_of (240 + n div 262144), char_of (128 + n div 4096 mod 64), char_of (128 + n div 64 mod 64), char_of (128 + n mod 64)])"

definition high_surrogate :: "nat \<Rightarrow> bool" where "high_surrogate n \<longleftrightarrow> 55296 \<le> n \<and> n < 56320"
definition low_surrogate :: "nat \<Rightarrow> bool" where "low_surrogate n \<longleftrightarrow> 56320 \<le> n \<and> n < 57344"

section \<open>Strings\<close>

text \<open>\<open>getu4\<close>: the code of an escape \<open>\uXXXX\<close> in front.\<close>

fun getu4 :: "string \<Rightarrow> nat option" where
  "getu4 (x # y # a # b # c # d # s) = (if x = CHR 0x5C \<and> y = CHR ''u'' then hex4 a b c d else None)"
| "getu4 _ = None"

text \<open>The raw text of a string up to its closing quote, as the scanner accepts it, and what follows.\<close>

fun scan_string :: "string \<Rightarrow> (string \<times> string) option" where
  "scan_string [] = None"
| "scan_string (c # s) =
     (if c = CHR 0x22 then Some ([], s)
      else if byte c < 32 then None
      else if c = CHR 0x5C then
        (case s of
           [] \<Rightarrow> None
         | e # s' \<Rightarrow>
             if e = CHR ''u'' then
               (case s' of
                  a # b # d # f # s'' \<Rightarrow>
                    if hex4 a b d f = None then None else prepend [c, e, a, b, d, f] (scan_string s'')
                | _ \<Rightarrow> None)
             else if simple_escape e = None then None
             else prepend [c, e] (scan_string s'))
      else prepend [c] (scan_string s))"

text \<open>
  \<open>unquote\<close>: escapes are replaced, a surrogate that is not followed by its partner and every byte that
  belongs to no rune become the replacement character.
\<close>

fun unquote :: "string \<Rightarrow> string" where
  "unquote [] = []"
| "unquote (c # s) =
     (if c = CHR 0x5C then
        (case getu4 (c # s) of
           Some n \<Rightarrow>
             (case getu4 (drop 5 s) of
                Some m \<Rightarrow>
                  if high_surrogate n \<and> low_surrogate m
                  then EncodeRune (65536 + (n - 55296) * 1024 + (m - 56320)) @ unquote (drop 11 s)
                  else EncodeRune n @ unquote (drop 5 s)
              | None \<Rightarrow> EncodeRune n @ unquote (drop 5 s))
         | None \<Rightarrow>
             (case s of
                [] \<Rightarrow> []
              | e # s' \<Rightarrow> (case simple_escape e of None \<Rightarrow> [] | Some x \<Rightarrow> x # unquote s')))
      else if byte c < 128 then c # unquote s
      else
        (case rune_len (c # s) of
           None \<Rightarrow> replacement @ unquote s
         | Some n \<Rightarrow> take n (c # s) @ unquote (drop (n - 1) s)))"

section \<open>Values\<close>

datatype jvalue =
    VNull
  | VBool bool
  | VNumber string
  | VString string
  | VArray "jvalue list"
  | VObject "(string \<times> jvalue) list"

definition digits1 :: "string \<Rightarrow> (string \<times> string) option" where
  "digits1 s = (if takeWhile is_digit s = [] then None else Some (takeWhile is_digit s, dropWhile is_digit s))"

definition scan_integer :: "string \<Rightarrow> (string \<times> string) option" where
  "scan_integer s = (if prefix ''0'' s then Some (''0'', tl s) else digits1 s)"

definition scan_fraction :: "string \<Rightarrow> (string \<times> string) option" where
  "scan_fraction s = (if prefix ''.'' s then prepend ''.'' (digits1 (tl s)) else Some ([], s))"

definition scan_exponent :: "string \<Rightarrow> (string \<times> string) option" where
  "scan_exponent s =
     (if prefix ''e'' s \<or> prefix ''E'' s then
        (let t = tl s; signed = (prefix ''+'' t \<or> prefix ''-'' t)
         in prepend (hd s # (if signed then [hd t] else [])) (digits1 (if signed then tl t else t)))
      else Some ([], s))"

definition scan_number :: "string \<Rightarrow> (string \<times> string) option" where
  "scan_number s =
     (let sign = (if prefix ''-'' s then ''-'' else [])
      in Option.bind (scan_integer (drop (length sign) s)) (\<lambda>(i, r).
           Option.bind (scan_fraction r) (\<lambda>(f, r').
             prepend (sign @ i @ f) (scan_exponent r'))))"

definition scan_literal :: "string \<Rightarrow> (jvalue \<times> string) option" where
  "scan_literal s =
     (if prefix ''null'' s then Some (VNull, drop 4 s)
      else if prefix ''true'' s then Some (VBool True, drop 4 s)
      else if prefix ''false'' s then Some (VBool False, drop 5 s)
      else map_option (\<lambda>(text, r). (VNumber text, r)) (scan_number s))"

text \<open>The name of a member, up to its colon.\<close>

definition scan_key :: "string \<Rightarrow> (string \<times> string) option" where
  "scan_key s =
     (case skip_space s of
        [] \<Rightarrow> None
      | q # s1 \<Rightarrow>
          if q \<noteq> CHR 0x22 then None
          else
          (case scan_string s1 of
             None \<Rightarrow> None
           | Some (raw, s2) \<Rightarrow> if prefix '':'' (skip_space s2) then Some (unquote raw, tl (skip_space s2)) else None))"

definition maxNestingDepth :: nat where "maxNestingDepth = 10000"

text \<open>
  A value at a nesting depth; the first argument bounds the recursion and is taken large enough by \<open>Decode\<close>.
\<close>

fun scan_value :: "nat \<Rightarrow> nat \<Rightarrow> string \<Rightarrow> (jvalue \<times> string) option"
  and scan_items :: "nat \<Rightarrow> nat \<Rightarrow> string \<Rightarrow> (jvalue list \<times> string) option"
  and scan_members :: "nat \<Rightarrow> nat \<Rightarrow> string \<Rightarrow> ((string \<times> jvalue) list \<times> string) option" where
  "scan_value 0 d s = None"
| "scan_value (Suc n) d s =
     (case skip_space s of
        [] \<Rightarrow> None
      | c # r \<Rightarrow>
          if c = CHR 0x22 then map_option (\<lambda>(raw, r'). (VString (unquote raw), r')) (scan_string r)
          else if c = CHR ''['' then
            (if maxNestingDepth \<le> d then None
             else if prefix '']'' (skip_space r) then Some (VArray [], tl (skip_space r))
             else map_option (\<lambda>(vs, r'). (VArray vs, r')) (scan_items n (Suc d) r))
          else if c = CHR ''{'' then
            (if maxNestingDepth \<le> d then None
             else if prefix ''}'' (skip_space r) then Some (VObject [], tl (skip_space r))
             else map_option (\<lambda>(kvs, r'). (VObject kvs, r')) (scan_members n (Suc d) r))
          else scan_literal (c # r))"
| "scan_items 0 d s = None"
| "scan_items (Suc n) d s =
     (case scan_value n d s of
        None \<Rightarrow> None
      | Some (v, r) \<Rightarrow>
          (case skip_space r of
             [] \<Rightarrow> None
           | c # r' \<Rightarrow>
               if c = CHR '']'' then Some ([v], r')
               else if c = CHR '','' then prepend [v] (scan_items n d r') else None))"
| "scan_members 0 d s = None"
| "scan_members (Suc n) d s =
     (case scan_key s of
        None \<Rightarrow> None
      | Some (k, s') \<Rightarrow>
          (case scan_value n d s' of
             None \<Rightarrow> None
           | Some (v, r) \<Rightarrow>
               (case skip_space r of
                  [] \<Rightarrow> None
                | c # r' \<Rightarrow>
                    if c = CHR ''}'' then Some ([(k, v)], r')
                    else if c = CHR '','' then prepend [(k, v)] (scan_members n d r') else None)))"

text \<open>
  Decoding the first value of a stream of which \<open>limit\<close> bytes can be read, after which a longer stream fails.
  An array or object ends with its bracket; where another value ends is seen from the next byte, or from the
  end of the stream.
\<close>

fun closed :: "jvalue \<Rightarrow> bool" where
  "closed (VArray vs) = True"
| "closed (VObject kvs) = True"
| "closed _ = False"

definition Decode :: "nat \<Rightarrow> string \<Rightarrow> jvalue option" where
  "Decode limit body =
     (let text = take limit body
      in case scan_value (Suc (2 * length text)) 0 text of
           None \<Rightarrow> None
         | Some (v, r) \<Rightarrow> if closed v \<or> r \<noteq> [] \<or> length body \<le> limit then Some v else None)"

lemma Decode_small:
  "length body \<le> limit \<Longrightarrow> Decode limit body = map_option fst (scan_value (Suc (2 * length body)) 0 body)"
  by (auto simp: Decode_def Let_def split: option.splits simp del: scan_value.simps)

section \<open>The bound of the recursion is enough\<close>

lemma skip_space_shorter: "skip_space s = c # r \<Longrightarrow> length r < length s"
  using length_dropWhile_le [of is_json_space s] by simp

lemma prepend_Some: "prepend xs x = Some (ys, r) \<longleftrightarrow> (\<exists>zs. x = Some (zs, r) \<and> ys = xs @ zs)"
  by (cases x) (auto simp: prepend_def)

lemma scan_string_shorter: "scan_string s = Some (raw, r) \<Longrightarrow> length r < length s"
  by (induction s arbitrary: raw rule: scan_string.induct)
    (fastforce simp: prepend_Some split: if_splits list.splits)+

lemma digits1_shorter: "digits1 s = Some (ds, r) \<Longrightarrow> length r < length s"
  by (cases s) (auto simp: digits1_def less_Suc_eq_le length_dropWhile_le split: if_splits)

lemma scan_integer_shorter: "scan_integer s = Some (i, r) \<Longrightarrow> length r < length s"
  by (cases s) (auto simp: scan_integer_def split: if_splits dest!: digits1_shorter)

lemma scan_fraction_shorter: "scan_fraction s = Some (f, r) \<Longrightarrow> length r \<le> length s"
  by (cases s) (auto simp: scan_fraction_def prepend_Some split: if_splits dest!: digits1_shorter)

lemma scan_exponent_shorter: "scan_exponent s = Some (e, r) \<Longrightarrow> length r \<le> length s"
  by (cases s) (auto simp: scan_exponent_def prepend_Some Let_def split: if_splits dest!: digits1_shorter)

lemma scan_number_shorter:
  assumes "scan_number s = Some (text, r)"
  shows "length r < length s"
proof -
  define sign :: string where "sign = (if prefix ''-'' s then ''-'' else [])"
  from assms obtain i r1 f r2 e where "scan_integer (drop (length sign) s) = Some (i, r1)" "scan_fraction r1 = Some (f, r2)"
    "scan_exponent r2 = Some (e, r)"
    unfolding scan_number_def Let_def sign_def [symmetric] by (auto simp: prepend_Some bind_eq_Some_conv)
  from scan_integer_shorter [OF this(1)] scan_fraction_shorter [OF this(2)] scan_exponent_shorter [OF this(3)] show ?thesis
    by simp
qed

lemma scan_literal_shorter: "scan_literal s = Some (v, r) \<Longrightarrow> length r < length s"
  by (auto simp: scan_literal_def split: if_splits dest: scan_number_shorter prefix_length_le)

lemma scan_key_shorter:
  assumes "scan_key s = Some (k, r)"
  shows "length r < length s"
proof -
  from assms obtain q s1 raw s2 where "skip_space s = q # s1" "scan_string s1 = Some (raw, s2)" "r = tl (skip_space s2)"
    by (auto simp: scan_key_def split: list.splits option.splits if_splits)
  then show ?thesis
    using skip_space_shorter [of s q s1] scan_string_shorter [of s1 raw s2] length_dropWhile_le [of is_json_space s2] by simp
qed

lemma scan_shorter:
  "scan_value n d s = Some (v, r) \<Longrightarrow> length r < length s"
  "scan_items n d s = Some (vs, r) \<Longrightarrow> length r < length s"
  "scan_members n d s = Some (kvs, r) \<Longrightarrow> length r < length s"
proof (induction n d s and n d s and n d s arbitrary: v r and vs r and kvs r
    rule: scan_value_scan_items_scan_members.induct)
  case (2 n d s)
  then obtain c t where t: "skip_space s = c # t" by (auto split: list.splits)
  note le = skip_space_shorter [OF t] length_dropWhile_le [of is_json_space t]
  consider (s) "c = CHR 0x22" | (a) "c = CHR ''[''" | (o) "c = CHR ''{''" | (l) "c \<noteq> CHR 0x22" "c \<noteq> CHR ''[''" "c \<noteq> CHR ''{''" by blast
  then show ?case
  proof cases
    case s
    with "2.prems" t le show ?thesis by (auto dest!: scan_string_shorter)
  next
    case a
    with 2 t le show ?thesis by (auto split: if_splits) (meson less_trans)
  next
    case o
    with 2 t le show ?thesis by (auto split: if_splits) (meson less_trans)
  next
    case l
    with "2.prems" t le show ?thesis by (auto dest!: scan_literal_shorter)
  qed
next
  case (4 n d s)
  then show ?case
    by (fastforce simp: prepend_Some split: option.splits list.splits if_splits prod.splits dest: skip_space_shorter)
next
  case (6 n d s)
  then show ?case
    by (fastforce simp: prepend_Some split: option.splits list.splits if_splits prod.splits
        dest: skip_space_shorter scan_key_shorter)
qed simp_all

text \<open>From twice the length of the text on, the bound changes nothing.\<close>

lemma scan_fuel:
  "2 * length s < n \<Longrightarrow> 2 * length s < m \<Longrightarrow> scan_value m d s = scan_value n d s"
  "2 * length s + 1 < n \<Longrightarrow> 2 * length s + 1 < m \<Longrightarrow> scan_items m d s = scan_items n d s"
  "2 * length s + 1 < n \<Longrightarrow> 2 * length s + 1 < m \<Longrightarrow> scan_members m d s = scan_members n d s"
proof (induction n d s and n d s and n d s arbitrary: m and m and m rule: scan_value_scan_items_scan_members.induct)
  case (2 n d s)
  from "2.prems" obtain k where k: "m = Suc k" by (cases m) auto
  show ?case
  proof (cases "skip_space s")
    case (Cons c r)
    with 2(3,4) k skip_space_shorter [OF Cons] have b: "2 * length r + 1 < n" "2 * length r + 1 < k" by simp_all
    from b have i: "scan_items k (Suc d) r = scan_items n (Suc d) r"
      if "c = CHR ''[''" "\<not> maxNestingDepth \<le> d" "\<not> prefix '']'' (skip_space r)"
      using that by (intro "2.IH"(1) [OF Cons]) simp_all
    from b have m: "scan_members k (Suc d) r = scan_members n (Suc d) r"
      if "c = CHR ''{''" "\<not> maxNestingDepth \<le> d" "\<not> prefix ''}'' (skip_space r)"
      using that by (intro "2.IH"(2) [OF Cons]) simp_all
    show ?thesis unfolding k scan_value.simps Cons list.case by (intro if_cong refl) (simp_all add: i m)
  next
    case Nil
    show ?thesis unfolding k scan_value.simps Nil by simp
  qed
next
  case (4 n d s)
  from "4.prems" obtain k where k: "m = Suc k" by (cases m) auto
  with "4.prems" have v: "scan_value k d s = scan_value n d s" by (intro "4.IH"(1)) simp_all
  show ?case
  proof (cases "scan_value n d s")
    case (Some vr)
    obtain w r where vr: "vr = (w, r)" by force
    show ?thesis
    proof (cases "skip_space r")
      case (Cons c t)
      from scan_shorter(1) [of n d s w r] Some vr skip_space_shorter [OF Cons] "4.prems" k
      have "2 * length t + 1 < n" "2 * length t + 1 < k" by simp_all
      then have "scan_items k d t = scan_items n d t" if "c \<noteq> CHR '']''" "c = CHR '',''"
        using that by (intro "4.IH"(2) [OF Some vr [symmetric] Cons]) simp_all
      then show ?thesis unfolding k scan_items.simps v Some vr option.case prod.case Cons list.case by (intro if_cong refl) simp_all
    next
      case Nil
      show ?thesis unfolding k scan_items.simps v Some vr option.case prod.case Nil list.case by (rule refl)
    qed
  next
    case None
    show ?thesis unfolding k scan_items.simps v None option.case by (rule refl)
  qed
next
  case (6 n d s)
  from "6.prems" obtain k where k: "m = Suc k" by (cases m) auto
  show ?case
  proof (cases "scan_key s")
    case (Some ks)
    obtain key s' where ks: "ks = (key, s')" by force
    note key = Some
    note le = scan_key_shorter [OF Some [unfolded ks]]
    with "6.prems" k have v: "scan_value k d s' = scan_value n d s'" by (intro "6.IH"(1) [OF Some ks [symmetric]]) simp_all
    show ?thesis
    proof (cases "scan_value n d s'")
      case (Some vr)
      obtain w r where vr: "vr = (w, r)" by force
      show ?thesis
      proof (cases "skip_space r")
        case (Cons c t)
        from scan_shorter(1) [of n d s' w r] Some vr skip_space_shorter [OF Cons] "6.prems" k le
        have "2 * length t + 1 < n" "2 * length t + 1 < k" by simp_all
        then have "scan_members k d t = scan_members n d t" if "c \<noteq> CHR ''}''" "c = CHR '',''"
          using that by (intro "6.IH"(2) [OF key ks [symmetric] Some vr [symmetric] Cons]) simp_all
        then show ?thesis unfolding k scan_members.simps key ks v Some vr option.case prod.case Cons list.case
          by (intro if_cong refl) simp_all
      next
        case Nil
        show ?thesis unfolding k scan_members.simps key ks v Some vr option.case prod.case Nil list.case by (rule refl)
      qed
    next
      case None
      show ?thesis unfolding k scan_members.simps key ks v None option.case prod.case by (rule refl)
    qed
  next
    case None
    show ?thesis unfolding k scan_members.simps None option.case by (rule refl)
  qed
qed simp_all

section \<open>Strings are decoded to what was encoded\<close>

lemma scan_json_char [simp]: "scan_string (json_char c @ s) = prepend (json_char c) (scan_string s)"
proof (cases c rule: json_char_cases)
  case (escape e)
  then show ?thesis by simp
next
  case unicode
  then show ?thesis by (simp add: hex_byte_def hex4_byte)
next
  case verbatim
  then show ?thesis by (subst verbatim(1), subst verbatim(1)) simp
qed

lemma scan_separators:
  "scan_string (CHR 0x5C # ''u2028'' @ s) = prepend (CHR 0x5C # ''u2028'') (scan_string s)"
  "scan_string (CHR 0x5C # ''u2029'' @ s) = prepend (CHR 0x5C # ''u2029'') (scan_string s)"
  by (simp_all add: hex4_def hex_val_def is_digit_def)

lemma scan_json_chars: "scan_string (json_chars s @ CHR 0x22 # r) = Some (json_chars s, r)"
proof (induction s rule: json_chars.induct)
  case (2 c s)
  then show ?case
    using scan_separators(1) [of "json_chars (drop 2 s) @ CHR 0x22 # r"] scan_separators(2) [of "json_chars (drop 2 s) @ CHR 0x22 # r"]
    by (simp del: scan_string.simps)
qed simp

text \<open>What the decoder makes of what stands in front.\<close>

lemma getu4_other: "e \<noteq> CHR ''u'' \<Longrightarrow> getu4 (c # e # s) = None"
  by (cases "(c # e # s)" rule: getu4.cases) simp_all

lemma unquote_plain: "byte c < 128 \<Longrightarrow> c \<noteq> CHR 0x5C \<Longrightarrow> unquote (c # s) = c # unquote s"
  by simp

lemma unquote_escape:
  "e \<noteq> CHR ''u'' \<Longrightarrow> simple_escape e = Some x \<Longrightarrow> unquote (CHR 0x5C # e # s) = x # unquote s"
  by (subst unquote.simps) (simp add: getu4_other del: unquote.simps getu4.simps)

lemma unquote_unicode:
  "hex4 a b c d = Some n \<Longrightarrow> \<not> high_surrogate n \<Longrightarrow> 
     unquote (CHR 0x5C # CHR ''u'' # a # b # c # d # s) = EncodeRune n @ unquote s"
  by (subst unquote.simps) (simp del: unquote.simps split: option.splits)

lemma unquote_rune:
  "128 \<le> byte c \<Longrightarrow> rune_len (c # s) = Some n \<Longrightarrow> unquote (c # s) = take n (c # s) @ unquote (drop (n - 1) s)"
  by (subst unquote.simps) (auto simp del: unquote.simps rune_len.simps)

declare unquote.simps [simp del]

lemma EncodeRune_byte: "n < 128 \<Longrightarrow> EncodeRune n = [char_of n]"
  by (simp add: EncodeRune_def utf8_def)

lemma unquote_json_char: "byte c < 128 \<Longrightarrow> unquote (json_char c @ s) = c # unquote s"
proof (cases c rule: json_char_cases)
  case (escape e)
  then show ?thesis by (simp add: unquote_escape)
next
  case unicode
  then show ?thesis by (simp add: hex_byte_def unquote_unicode [OF hex4_byte] high_surrogate_def EncodeRune_byte)
next
  case verbatim
  moreover assume "byte c < 128"
  ultimately show ?thesis by (subst verbatim(1)) (simp add: unquote_plain)
qed

lemma unquote_separators:
  "unquote (CHR 0x5C # ''u2028'' @ s) = [CHR 0xE2, CHR 0x80, CHR 0xA8] @ unquote s"
  "unquote (CHR 0x5C # ''u2029'' @ s) = [CHR 0xE2, CHR 0x80, CHR 0xA9] @ unquote s"
  using utf8_separators
  by (simp_all add: unquote_unicode [where n = 8232] unquote_unicode [where n = 8233] hex4_def hex_val_def is_digit_def
      high_surrogate_def EncodeRune_def)

lemma rune_len_append: "rune_len s = Some n \<Longrightarrow> rune_len (take n s @ t) = Some n"
  by (cases s) (auto split: list.splits if_splits)

lemma json_char_high: "128 \<le> byte c \<Longrightarrow> json_char c = [c]"
  by (cases c rule: json_char_cases) (auto simp: simple_escape_def split: if_splits)

lemma json_chars_high: "128 \<le> byte c \<Longrightarrow> c \<noteq> CHR 0xE2 \<Longrightarrow> json_chars (c # s) = c # json_chars s"
  by (simp add: json_char_high)

lemma rune_cases:
  assumes "rune_len (c # s) = Some n" "128 \<le> byte c"
  obtains a t where "n = 2" "s = a # t" "between 194 223 c" "between 128 191 a"
  | a b t where "n = 3" "s = a # b # t" "between 128 191 a" "between 128 191 b"
  | a b d t where "n = 4" "s = a # b # d # t" "between 240 244 c" "between 128 191 a" "between 128 191 b" "between 128 191 d"
proof -
  note [split] = list.splits if_splits
  consider "between 194 223 c" | "\<not> between 194 223 c" "between 224 239 c"
    | "\<not> between 194 223 c" "\<not> between 224 239 c" "between 240 244 c"
    using assms by (cases "between 194 223 c"; cases "between 224 239 c"; cases "between 240 244 c") simp_all
  then show thesis
  proof cases
    case 1
    with assms that(1) show thesis by auto
  next
    case 2
    with assms obtain a b t where "n = 3" "s = a # b # t"
      "between (if byte c = 224 then 160 else 128) (if byte c = 237 then 159 else 191) a" "between 128 191 b"
      by auto
    with that(2) [of a b t] show thesis by (auto simp: between_def)
  next
    case 3
    with assms obtain a b d t where "n = 4" "s = a # b # d # t"
      "between (if byte c = 240 then 144 else 128) (if byte c = 244 then 143 else 191) a" "between 128 191 b" "between 128 191 d"
      by auto
    with that(3) [of a b d t] 3 show thesis by (auto simp: between_def)
  qed
qed

lemma unquote_high_rune:
  assumes "rune_len (c # s) = Some n" "128 \<le> byte c"
  shows "unquote (json_chars (c # s)) = take n (c # s) @ unquote (json_chars (drop n (c # s)))"
proof -
  have high: "json_chars (x # t) = x # json_chars t" if "between 128 191 x \<or> between 194 223 x \<or> between 240 244 x" for x t
    using that by (intro json_chars_high) (auto simp: between_def)
  have plain: ?thesis if "json_chars (c # s) = take n (c # s) @ json_chars (drop n (c # s))"
  proof -
    from rune_len_pos [OF assms(1)] obtain m where m: "n = Suc m" by (cases n) simp_all
    have "rune_len (take n (c # s) @ json_chars (drop n (c # s))) = Some n" by (rule rune_len_append [OF assms(1)])
    then show ?thesis using that assms rune_len_pos [OF assms(1)]
      by (simp add: m unquote_rune del: json_chars.simps rune_len.simps)
  qed
  from assms show ?thesis
  proof (cases rule: rune_cases)
    case (1 a t)
    then show ?thesis by (intro plain) (simp add: high del: json_chars.simps)
  next
    case (2 a b t)
    show ?thesis
    proof (cases "c = CHR 0xE2 \<and> a = CHR 0x80 \<and> b \<in> {CHR 0xA8, CHR 0xA9}")
      case True
      then show ?thesis using 2 unquote_separators [of "json_chars t"] by auto
    next
      case False
      then have "json_chars (c # s) = json_char c @ json_chars s" using 2(2) by auto
      then show ?thesis using 2 assms(2) by (intro plain) (simp add: high json_char_high del: json_chars.simps)
    qed
  next
    case (3 a b d t)
    then show ?thesis by (intro plain) (simp add: high del: json_chars.simps)
  qed
qed

lemma unquote_json_chars: "valid_utf8 s \<Longrightarrow> unquote (json_chars s) = s"
proof (induction s rule: valid_utf8.induct)
  case (1 s)
  show ?case
  proof (cases s)
    case (Cons c t)
    with 1(2) obtain n where n: "rune_len (c # t) = Some n" "valid_utf8 (drop n s)"
      by (subst (asm) valid_utf8.simps) (auto split: option.splits)
    with 1(1) Cons have IH: "unquote (json_chars (drop n s)) = drop n s" by simp
    show ?thesis
    proof (cases "byte c < 128")
      case True
      then have "n = 1" "c \<noteq> CHR 0xE2" using n by auto
      with IH Cons True show ?thesis by (simp add: unquote_json_char)
    next
      case False
      then show ?thesis using unquote_high_rune [OF n(1)] IH Cons by (simp del: json_chars.simps)
    qed
  qed (simp add: unquote.simps)
qed

section \<open>An object of one string\<close>

lemma scan_json_string: "skip_space (json_string s @ r) = CHR 0x22 # json_chars s @ CHR 0x22 # r"
  by (simp add: json_string_def)

lemma scan_key_json: "valid_utf8 k \<Longrightarrow> scan_key (json_string k @ CHR '':'' # r) = Some (k, r)"
  by (simp add: scan_key_def scan_json_string scan_json_chars unquote_json_chars)

lemma scan_value_json: "valid_utf8 s \<Longrightarrow> scan_value (Suc n) d (json_string s @ r) = Some (VString s, r)"
  by (simp add: scan_json_string scan_json_chars unquote_json_chars)

lemma Decode_member:
  assumes "valid_utf8 k" "valid_utf8 s" and "length (Marshal (JObject [(k, JString s)]) @ r) \<le> limit"
  shows "Decode limit (Marshal (JObject [(k, JString s)]) @ r) = Some (VObject [(k, VString s)])"
proof -
  let ?text = "Marshal (JObject [(k, JString s)]) @ r"
  obtain n where n: "2 * length ?text = Suc (Suc n)" by (rule that [of "2 * length ?text - 2"]) simp
  have "scan_members (Suc (Suc n)) 1 (json_string k @ CHR '':'' # json_string s @ CHR ''}'' # r) = Some ([(k, VString s)], r)"
    using assms(1,2) by (simp add: scan_key_json scan_value_json del: scan_value.simps)
  moreover have "\<not> prefix ''}'' (skip_space (json_string k @ t))" for t by (simp add: scan_json_string)
  moreover have "?text = CHR ''{'' # json_string k @ CHR '':'' # json_string s @ CHR ''}'' # r" by simp
  ultimately have "scan_value (Suc (2 * length ?text)) 0 ?text = Some (VObject [(k, VString s)], r)"
    unfolding n by (simp add: maxNestingDepth_def del: scan_members.simps)
  then show ?thesis using assms(3) by (simp add: Decode_def Let_def del: scan_value.simps)
qed

end
