(* ===== verification/Go_Url.thy ===== *)
theory Go_Url
  imports Go_Strings
begin

text \<open>
  Package \<open>net/url\<close>, as \<open>services/shortlink\<close> uses it: \<open>Parse\<close>, the fields \<open>Scheme\<close> and \<open>Host\<close>, and \<open>String\<close>, in the
  version the module asks for, Go 1.26. The sources never look at the text of an error, so a failure is \<open>None\<close>.
  Whether what stands in brackets is an IPv6 address, which package \<open>net/netip\<close> decides, is an argument.
\<close>

section \<open>Escaping\<close>

datatype encoding = encodePath | encodeHost | encodeUserPassword | encodeFragment

definition is_alnum :: "char \<Rightarrow> bool" where
  "is_alnum c \<longleftrightarrow> is_digit c \<or> 65 \<le> byte c \<and> byte c \<le> 90 \<or> 97 \<le> byte c \<and> byte c \<le> 122"

definition shouldEscape :: "char \<Rightarrow> encoding \<Rightarrow> bool" where
  "shouldEscape c mode =
     (if is_alnum c then False
      else if mode = encodeHost \<and> c \<in> set ''!$&()*+,;=:[]<>'' \<union> {CHR 0x27, CHR 0x22} then False
      else if c \<in> set ''-_.~'' then False
      else if c \<in> set ''$&+,/:;=?@'' \<and> mode = encodePath then c = CHR ''?''
      else if c \<in> set ''$&+,/:;=?@'' \<and> mode = encodeUserPassword then c \<in> set ''@/?:''
      else if c \<in> set ''$&+,/:;=?@'' \<and> mode = encodeFragment then False
      else if mode = encodeFragment \<and> c \<in> set ''!()*'' then False
      else True)"

definition upperhex :: "nat \<Rightarrow> char" where
  "upperhex d = (if d < 10 then char_of (48 + d) else char_of (55 + d))"

definition escape_char :: "encoding \<Rightarrow> char \<Rightarrow> string" where
  "escape_char mode c =
     (if shouldEscape c mode then [CHR ''%'', upperhex (byte c div 16), upperhex (byte c mod 16)] else [c])"

definition escape :: "string \<Rightarrow> encoding \<Rightarrow> string" where
  "escape s mode = concat (map (escape_char mode) s)"

text \<open>
  A percent sign starts an escape of two hexadecimal digits. In a host, an escape stands for a byte outside
  ASCII or for the percent sign, and other ASCII bytes must not need one.
\<close>

fun unescape :: "string \<Rightarrow> encoding \<Rightarrow> string option" where
  "unescape [] mode = Some []"
| "unescape (c # s) mode =
     (if c = CHR ''%'' then
        (case s of
           a # b # s' \<Rightarrow>
             (case (hex_val a, hex_val b) of
                (Some i, Some j) \<Rightarrow>
                  if mode = encodeHost \<and> i < 8 \<and> \<not> (a = CHR ''2'' \<and> b = CHR ''5'') then None
                  else map_option ((#) (char_of (16 * i + j))) (unescape s' mode)
              | _ \<Rightarrow> None)
         | _ \<Rightarrow> None)
      else if mode = encodeHost \<and> byte c < 128 \<and> shouldEscape c mode then None
      else map_option ((#) c) (unescape s mode))"

definition validEncoded :: "string \<Rightarrow> encoding \<Rightarrow> bool" where
  "validEncoded s mode \<longleftrightarrow> list_all (\<lambda>c. c \<in> set ''!$&()*+,;=:@[]%'' \<union> {CHR 0x27} \<or> \<not> shouldEscape c mode) s"

section \<open>URLs\<close>

text \<open>A user, and a password when one is set.\<close>

record Userinfo =
  ui_Username :: string
  ui_Password :: "string option"

record URL =
  u_Scheme :: string
  u_Opaque :: string
  u_User :: "Userinfo option"
  u_Host :: string
  u_Path :: string
  u_RawPath :: string
  u_OmitHost :: bool
  u_ForceQuery :: bool
  u_RawQuery :: string
  u_Fragment :: string
  u_RawFragment :: string

definition empty_URL :: URL where
  "empty_URL = \<lparr>u_Scheme = [], u_Opaque = [], u_User = None, u_Host = [], u_Path = [], u_RawPath = [], u_OmitHost = False,
     u_ForceQuery = False, u_RawQuery = [], u_Fragment = [], u_RawFragment = []\<rparr>"

text \<open>\<open>strings.Cut\<close> at the first separator, and at the last one.\<close>

definition cut :: "char \<Rightarrow> string \<Rightarrow> string \<times> string" where
  "cut c s = (takeWhile (\<lambda>x. x \<noteq> c) s, drop 1 (dropWhile (\<lambda>x. x \<noteq> c) s))"

definition cut_last :: "char \<Rightarrow> string \<Rightarrow> string \<times> string" where
  "cut_last c s = (case cut c (rev s) of (right, left) \<Rightarrow> (rev left, rev right))"

text \<open>The scheme, and what follows its colon; \<open>None\<close> for a text that starts with the colon.\<close>

fun scheme_end :: "bool \<Rightarrow> string \<Rightarrow> nat option option" where
  "scheme_end first [] = Some None"
| "scheme_end first (c # s) =
     (if 65 \<le> byte c \<and> byte c \<le> 90 \<or> 97 \<le> byte c \<and> byte c \<le> 122 \<or> \<not> first \<and> (is_digit c \<or> c \<in> set ''+-.'')
      then map_option (map_option Suc) (scheme_end False s)
      else if c = CHR '':'' then (if first then None else Some (Some 0))
      else Some None)"

definition getScheme :: "string \<Rightarrow> (string \<times> string) option" where
  "getScheme rawURL =
     (case scheme_end True rawURL of
        None \<Rightarrow> None
      | Some None \<Rightarrow> Some ([], rawURL)
      | Some (Some i) \<Rightarrow> Some (take i rawURL, drop (Suc i) rawURL))"

definition lower :: "char \<Rightarrow> char" where
  "lower c = (if 65 \<le> byte c \<and> byte c \<le> 90 then char_of (byte c + 32) else c)"

definition ToLower :: "string \<Rightarrow> string" where
  "ToLower s = map lower s"

definition stringContainsCTLByte :: "string \<Rightarrow> bool" where
  "stringContainsCTLByte s \<longleftrightarrow> list_ex (\<lambda>c. byte c < 32 \<or> byte c = 127) s"

definition validOptionalPort :: "string \<Rightarrow> bool" where
  "validOptionalPort port \<longleftrightarrow> (case port of [] \<Rightarrow> True | c # digits \<Rightarrow> c = CHR '':'' \<and> list_all is_digit digits)"

text \<open>
  A host with a bracket is left to \<open>ip_literal\<close> if the bracket comes first; any other holds at most one colon,
  in front of its port.
\<close>

definition parseHost :: "(string \<Rightarrow> string option) \<Rightarrow> string \<Rightarrow> string option" where
  "parseHost ip_literal host =
     (if CHR ''['' \<in> set host then (if CHR ''['' \<in> set (tl host) then None else ip_literal host)
      else
        let port = dropWhile (\<lambda>x. x \<noteq> CHR '':'') host
        in if \<not> validOptionalPort port then None else unescape host encodeHost)"

definition validUserinfo :: "string \<Rightarrow> bool" where
  "validUserinfo s \<longleftrightarrow> list_all (\<lambda>c. is_alnum c \<or> c \<in> set ''-._:~!$&()*+,;=%@'' \<union> {CHR 0x27}) s"

definition parse_user :: "string \<Rightarrow> Userinfo option" where
  "parse_user userinfo =
     (if \<not> validUserinfo userinfo then None
      else if CHR '':'' \<notin> set userinfo then
        map_option (\<lambda>name. \<lparr>ui_Username = name, ui_Password = None\<rparr>) (unescape userinfo encodeUserPassword)
      else
        (case cut CHR '':'' userinfo of
           (username, password) \<Rightarrow>
             Option.bind (unescape username encodeUserPassword) (\<lambda>name.
               map_option (\<lambda>secret. \<lparr>ui_Username = name, ui_Password = Some secret\<rparr>) (unescape password encodeUserPassword))))"

definition parseAuthority :: "(string \<Rightarrow> string option) \<Rightarrow> string \<Rightarrow> (Userinfo option \<times> string) option" where
  "parseAuthority ip_literal authority =
     (if CHR ''@'' \<notin> set authority then map_option (Pair None) (parseHost ip_literal authority)
      else
        (case cut_last CHR ''@'' authority of
           (userinfo, host) \<Rightarrow>
             Option.bind (parseHost ip_literal host) (\<lambda>h. map_option (\<lambda>user. (Some user, h)) (parse_user userinfo))))"

definition setPath :: "URL \<Rightarrow> string \<Rightarrow> URL option" where
  "setPath u p =
     map_option (\<lambda>path. u\<lparr>u_Path := path, u_RawPath := (if p = escape path encodePath then [] else p)\<rparr>) (unescape p encodePath)"

definition setFragment :: "URL \<Rightarrow> string \<Rightarrow> URL option" where
  "setFragment u f =
     map_option (\<lambda>frag. u\<lparr>u_Fragment := frag, u_RawFragment := (if f = escape frag encodeFragment then [] else f)\<rparr>)
       (unescape f encodeFragment)"

text \<open>The rest after the scheme, without the query: an authority after two slashes, then the path.\<close>

definition parse_rest :: "(string \<Rightarrow> string option) \<Rightarrow> URL \<Rightarrow> string \<Rightarrow> URL option" where
  "parse_rest ip_literal u rest =
     (if \<not> prefix ''/'' rest \<and> u_Scheme u \<noteq> [] then Some (u\<lparr>u_Opaque := rest\<rparr>)
      else if \<not> prefix ''/'' rest \<and> CHR '':'' \<in> set (fst (cut CHR ''/'' rest)) then None
      else if (u_Scheme u \<noteq> [] \<or> \<not> prefix ''///'' rest) \<and> prefix ''//'' rest then
        (let authority = takeWhile (\<lambda>x. x \<noteq> CHR ''/'') (drop 2 rest); path = dropWhile (\<lambda>x. x \<noteq> CHR ''/'') (drop 2 rest)
         in Option.bind (parseAuthority ip_literal authority) (\<lambda>(user, host). setPath (u\<lparr>u_User := user, u_Host := host\<rparr>) path))
      else setPath (u\<lparr>u_OmitHost := (u_Scheme u \<noteq> [] \<and> prefix ''/'' rest)\<rparr>) rest)"

definition parse :: "(string \<Rightarrow> string option) \<Rightarrow> string \<Rightarrow> URL option" where
  "parse ip_literal rawURL =
     (if stringContainsCTLByte rawURL then None
      else if rawURL = ''*'' then Some (empty_URL\<lparr>u_Path := ''*''\<rparr>)
      else
        Option.bind (getScheme rawURL) (\<lambda>(scheme, rest).
          let u = empty_URL\<lparr>u_Scheme := ToLower scheme\<rparr>
          in if suffix ''?'' rest \<and> count_list rest CHR ''?'' = 1
             then parse_rest ip_literal (u\<lparr>u_ForceQuery := True\<rparr>) (butlast rest)
             else (case cut CHR ''?'' rest of (rest, query) \<Rightarrow> parse_rest ip_literal (u\<lparr>u_RawQuery := query\<rparr>) rest)))"

definition Parse :: "(string \<Rightarrow> string option) \<Rightarrow> string \<Rightarrow> URL option" where
  "Parse ip_literal rawURL =
     (case cut CHR ''#'' rawURL of
        (u, frag) \<Rightarrow>
          Option.bind (parse ip_literal u) (\<lambda>url. if frag = [] then Some url else setFragment url frag))"

section \<open>The text of a URL\<close>

definition EscapedPath :: "URL \<Rightarrow> string" where
  "EscapedPath u =
     (if u_RawPath u \<noteq> [] \<and> validEncoded (u_RawPath u) encodePath \<and> unescape (u_RawPath u) encodePath = Some (u_Path u)
      then u_RawPath u
      else if u_Path u = ''*'' then ''*'' else escape (u_Path u) encodePath)"

definition EscapedFragment :: "URL \<Rightarrow> string" where
  "EscapedFragment u =
     (if u_RawFragment u \<noteq> [] \<and> validEncoded (u_RawFragment u) encodeFragment \<and>
         unescape (u_RawFragment u) encodeFragment = Some (u_Fragment u)
      then u_RawFragment u else escape (u_Fragment u) encodeFragment)"

definition Userinfo_String :: "Userinfo \<Rightarrow> string" where
  "Userinfo_String ui =
     escape (ui_Username ui) encodeUserPassword
     @ (case ui_Password ui of None \<Rightarrow> [] | Some p \<Rightarrow> '':'' @ escape p encodeUserPassword)"

definition authority_text :: "URL \<Rightarrow> string" where
  "authority_text u =
     (if (u_Scheme u \<noteq> [] \<or> u_Host u \<noteq> [] \<or> u_User u \<noteq> None) \<and> \<not> (u_OmitHost u \<and> u_Host u = [] \<and> u_User u = None)
      then (if u_Host u \<noteq> [] \<or> u_Path u \<noteq> [] \<or> u_User u \<noteq> None then ''//'' else [])
           @ (case u_User u of None \<Rightarrow> [] | Some ui \<Rightarrow> Userinfo_String ui @ ''@'')
           @ (if u_Host u \<noteq> [] then escape (u_Host u) encodeHost else [])
      else [])"

definition hierarchy_text :: "URL \<Rightarrow> string" where
  "hierarchy_text u =
     (let front = (if u_Scheme u \<noteq> [] then u_Scheme u @ '':'' else []) @ authority_text u;
          path = EscapedPath u;
          slash = (if path \<noteq> [] \<and> hd path \<noteq> CHR ''/'' \<and> u_Host u \<noteq> [] then ''/'' else []);
          dot = (if front @ slash = [] \<and> CHR '':'' \<in> set (fst (cut CHR ''/'' path)) then ''./'' else [])
      in front @ slash @ dot @ path)"

definition URL_String :: "URL \<Rightarrow> string" where
  "URL_String u =
     (if u_Opaque u \<noteq> [] then (if u_Scheme u \<noteq> [] then u_Scheme u @ '':'' else []) @ u_Opaque u else hierarchy_text u)
     @ (if u_ForceQuery u \<or> u_RawQuery u \<noteq> [] then ''?'' @ u_RawQuery u else [])
     @ (if u_Fragment u \<noteq> [] then ''#'' @ EscapedFragment u else [])"

section \<open>What the text of a URL looks like\<close>

text \<open>A text without control bytes, which can stand in a header line.\<close>

definition header_safe :: "string \<Rightarrow> bool" where
  "header_safe s \<longleftrightarrow> list_all (\<lambda>c. 32 \<le> byte c \<and> byte c \<noteq> 127) s"

lemma header_safe_simps [simp]:
  "header_safe []" "header_safe (s @ t) \<longleftrightarrow> header_safe s \<and> header_safe t"
  "header_safe (c # s) \<longleftrightarrow> 32 \<le> byte c \<and> byte c \<noteq> 127 \<and> header_safe s"
  by (auto simp: header_safe_def)

lemma unescaped_chars:
  "\<not> shouldEscape c mode \<Longrightarrow> is_alnum c \<or> c \<in> set ''!$&()*+,;=:[]<>-_.~/?@'' \<union> {CHR 0x27, CHR 0x22}"
  by (rule ccontr) (simp add: shouldEscape_def)

lemma unescaped_safe: "\<not> shouldEscape c mode \<Longrightarrow> 32 < byte c \<and> byte c < 127"
  by (drule unescaped_chars, elim disjE) (simp add: is_alnum_def is_digit_def, linarith, auto)

lemma upperhex_safe: "d < 16 \<Longrightarrow> 32 \<le> byte (upperhex d) \<and> byte (upperhex d) \<noteq> 127"
  by (simp add: upperhex_def)

lemma escape_safe [simp]: "header_safe (escape s mode)"
proof -
  have "header_safe (escape_char mode c)" for c
    using unescaped_safe [of c mode] upperhex_safe [of "byte c div 16"] upperhex_safe [of "byte c mod 16"] of_char_mod_256 [of c]
    by (auto simp: escape_char_def div_less_iff_less_mult)
  then show ?thesis by (induction s) (simp_all add: escape_def)
qed

lemma validEncoded_safe: "validEncoded s mode \<Longrightarrow> header_safe s"
  unfolding validEncoded_def header_safe_def
  by (erule list.pred_mono_strong) (use unescaped_safe in fastforce)

lemma EscapedPath_safe [simp]: "header_safe (EscapedPath u)"
  by (auto simp: EscapedPath_def dest: validEncoded_safe)

lemma EscapedFragment_safe [simp]: "header_safe (EscapedFragment u)"
  by (auto simp: EscapedFragment_def dest: validEncoded_safe)

text \<open>What \<open>Parse\<close> promises of a URL with a host: it is not opaque, and its query is part of the text.\<close>

definition parsed_well :: "URL \<Rightarrow> bool" where
  "parsed_well u \<longleftrightarrow> (u_Host u \<noteq> [] \<longrightarrow> u_Opaque u = []) \<and> header_safe (u_RawQuery u)"

lemma parse_rest_well:
  assumes "parse_rest ip_literal u rest = Some v" and "parsed_well u" and "u_Host u = []" and "u_Opaque u = []"
  shows "parsed_well v \<and> u_Scheme v = u_Scheme u"
  using assms by (auto simp: parse_rest_def setPath_def parsed_well_def Let_def bind_eq_Some_conv split: if_splits)

lemma header_safe_cut: "header_safe s \<Longrightarrow> cut c s = (a, b) \<Longrightarrow> header_safe a \<and> header_safe b"
  by (auto simp: cut_def header_safe_def list_all_iff dest: set_takeWhileD set_dropWhileD in_set_dropD)

lemma not_ctl_safe: "\<not> stringContainsCTLByte s \<Longrightarrow> header_safe s"
  by (auto simp: stringContainsCTLByte_def header_safe_def list_all_iff list_ex_iff)

lemma parse_well:
  assumes "parse ip_literal t = Some u"
  shows "parsed_well u"
proof (cases "t = ''*''")
  case True
  with assms show ?thesis by (auto simp: parse_def parsed_well_def empty_URL_def split: if_splits)
next
  case False
  with assms obtain scheme rest where g: "getScheme t = Some (scheme, rest)" and safe: "header_safe t"
    by (auto simp: parse_def bind_eq_Some_conv dest!: not_ctl_safe split: if_splits)
  have "header_safe rest"
    using g safe by (auto simp: getScheme_def header_safe_def list_all_iff split: option.splits dest: in_set_dropD)
  then have "header_safe (snd (cut CHR ''?'' rest))" using header_safe_cut by (metis prod.collapse)
  then show ?thesis
    using assms False g
    by (auto simp: parse_def empty_URL_def Let_def split: if_splits prod.splits
        dest!: parse_rest_well) (auto simp: parsed_well_def)
qed

lemma Parse_well: "Parse ip_literal t = Some u \<Longrightarrow> parsed_well u"
  by (auto simp: Parse_def bind_eq_Some_conv setFragment_def split: prod.splits if_splits dest!: parse_well)
    (auto simp: parsed_well_def)

lemma Userinfo_String_safe [simp]: "header_safe (Userinfo_String ui)"
  by (auto simp: Userinfo_String_def split: option.splits)

lemma absolute_text:
  assumes "parsed_well u" and "u_Host u \<noteq> []" and "u_Scheme u \<noteq> []"
  shows "prefix (u_Scheme u @ ''://'') (URL_String u)"
    and "header_safe (u_Scheme u) \<Longrightarrow> header_safe (URL_String u)"
  using assms
  by (auto simp: URL_String_def hierarchy_text_def authority_text_def parsed_well_def Let_def split: option.splits)

text \<open>A text that starts with a web scheme is never read as a relative reference.\<close>

lemma parse_rest_scheme: "parse_rest ip_literal u rest = Some v \<Longrightarrow> u_Scheme v = u_Scheme u"
  by (auto simp: parse_rest_def setPath_def Let_def bind_eq_Some_conv split: if_splits)

lemma parse_scheme:
  "parse ip_literal t = Some u \<Longrightarrow> t \<noteq> ''*'' \<Longrightarrow> getScheme t = Some (scheme, rest) \<Longrightarrow> u_Scheme u = ToLower scheme"
  by (auto simp: parse_def Let_def split: if_splits prod.splits dest!: parse_rest_scheme)

lemma Parse_web_scheme:
  assumes "prefix ''http://'' s \<or> prefix ''https://'' s" and "Parse ip_literal s = Some u"
  shows "u_Scheme u \<noteq> []"
proof -
  from assms(1) obtain t where "s = ''http://'' @ t \<or> s = ''https://'' @ t" by (auto elim: prefixE)
  then have "fst (cut CHR ''#'' s) = ''http'' @ '':'' @ ''//'' @ takeWhile (\<lambda>x. x \<noteq> CHR ''#'') t \<or>
      fst (cut CHR ''#'' s) = ''https'' @ '':'' @ ''//'' @ takeWhile (\<lambda>x. x \<noteq> CHR ''#'') t"
    by (auto simp: cut_def)
  then obtain scheme r where s: "fst (cut CHR ''#'' s) = scheme @ '':'' @ r" "scheme = ''http'' \<or> scheme = ''https''" by blast
  then have g: "getScheme (fst (cut CHR ''#'' s)) = Some (scheme, r)"
    by (auto simp: getScheme_def is_digit_def)
  from assms(2) obtain v where v: "parse ip_literal (fst (cut CHR ''#'' s)) = Some v" "u_Scheme u = u_Scheme v"
    by (auto simp: Parse_def bind_eq_Some_conv setFragment_def split: prod.splits if_splits)
  from parse_scheme [OF v(1) _ g] v(2) s show ?thesis by (auto simp: ToLower_def)
qed

section \<open>Ordinary web URLs\<close>

text \<open>
  A host name with an optional port, a path, and an optional query behind a question mark, all of characters
  that need no escape. Such a URL is read, and written as it was.
\<close>

definition ordinary_host :: "string \<Rightarrow> bool" where
  "ordinary_host h \<longleftrightarrow>
     (let name = takeWhile (\<lambda>c. c \<noteq> CHR '':'') h
      in name \<noteq> [] \<and> list_all (\<lambda>c. is_alnum c \<or> c \<in> set ''-._'') name \<and> validOptionalPort (dropWhile (\<lambda>c. c \<noteq> CHR '':'') h))"

definition ordinary_path :: "string \<Rightarrow> bool" where
  "ordinary_path p \<longleftrightarrow> (p = [] \<or> prefix ''/'' p) \<and> list_all (\<lambda>c. is_alnum c \<or> c \<in> set ''-._~/'') p"

definition ordinary_query :: "string \<Rightarrow> bool" where
  "ordinary_query q \<longleftrightarrow> q = [] \<or> prefix ''?'' q \<and> 2 \<le> length q \<and> list_all (\<lambda>c. 32 \<le> byte c \<and> byte c \<noteq> 127 \<and> c \<noteq> CHR ''#'') q"

definition web_text :: "string \<Rightarrow> string \<Rightarrow> string \<Rightarrow> string \<Rightarrow> string" where
  "web_text scheme h p q = scheme @ ''://'' @ h @ p @ q"

definition web_URL :: "string \<Rightarrow> string \<Rightarrow> string \<Rightarrow> string \<Rightarrow> URL" where
  "web_URL scheme h p q = empty_URL\<lparr>u_Scheme := scheme, u_Host := h, u_Path := p, u_RawQuery := drop 1 q\<rparr>"

lemma unescape_plain:
  "list_all (\<lambda>c. c \<noteq> CHR ''%'' \<and> \<not> shouldEscape c mode) s \<Longrightarrow> unescape s mode = Some s"
  by (induction s) auto

lemma escape_plain: "list_all (\<lambda>c. \<not> shouldEscape c mode) s \<Longrightarrow> escape s mode = s"
  by (induction s) (simp_all add: escape_def escape_char_def)

lemma list_memE: "x \<in> set (y # ys) \<Longrightarrow> (x = y \<Longrightarrow> P) \<Longrightarrow> (x \<in> set ys \<Longrightarrow> P) \<Longrightarrow> P"
  by auto

lemma alnum_unescaped: "is_alnum c \<Longrightarrow> \<not> shouldEscape c mode"
  by (simp add: shouldEscape_def)

lemma alnum_char:
  assumes "is_alnum c"
  shows "c \<notin> set ''%/?#:@['' \<and> 32 < byte c \<and> byte c < 127"
proof -
  have "\<not> is_alnum x" if "x \<in> set ''%/?#:@[''" for x
    using that by (elim list_memE) (simp_all add: is_alnum_def is_digit_def)
  with assms have "c \<notin> set ''%/?#:@[''" by blast
  with assms show ?thesis by (simp add: is_alnum_def is_digit_def) linarith
qed

lemma ordinary_host_chars:
  assumes "ordinary_host h" "c \<in> set h"
  shows "\<not> shouldEscape c encodeHost \<and> c \<notin> set ''%/?#@['' \<and> 32 < byte c \<and> byte c < 127"
proof -
  have "c \<in> set (takeWhile (\<lambda>c. c \<noteq> CHR '':'') h) \<union> set (dropWhile (\<lambda>c. c \<noteq> CHR '':'') h)"
    using assms(2) by (metis set_append takeWhile_dropWhile_id)
  moreover have "c = CHR '':'' \<or> is_alnum c" if "c \<in> set (dropWhile (\<lambda>c. c \<noteq> CHR '':'') h)"
    using that assms(1) by (auto simp: ordinary_host_def Let_def validOptionalPort_def list_all_iff is_alnum_def split: list.splits)
  ultimately have "is_alnum c \<or> c \<in> set ''-._:''"
    using assms(1) by (auto simp: ordinary_host_def Let_def list_all_iff)
  then show ?thesis
  proof
    assume "is_alnum c"
    with alnum_char [of c] alnum_unescaped [of c] show ?thesis by simp
  next
    assume "c \<in> set ''-._:''"
    then show ?thesis by (elim list_memE) (simp_all add: shouldEscape_def is_alnum_def is_digit_def)
  qed
qed

lemma ordinary_path_chars:
  assumes "ordinary_path p" "c \<in> set p"
  shows "\<not> shouldEscape c encodePath \<and> c \<notin> set ''%?#'' \<and> 32 < byte c \<and> byte c < 127"
proof -
  from assms have "is_alnum c \<or> c \<in> set ''-._~/''" by (auto simp: ordinary_path_def list_all_iff)
  then show ?thesis
  proof
    assume "is_alnum c"
    with alnum_char [of c] alnum_unescaped [of c] show ?thesis by simp
  next
    assume "c \<in> set ''-._~/''"
    then show ?thesis by (elim list_memE) (simp_all add: shouldEscape_def is_alnum_def is_digit_def)
  qed
qed

lemma cut_absent: "c \<notin> set s \<Longrightarrow> cut c s = (s, [])"
  by (induction s) (auto simp: cut_def)

lemma cut_append: "c \<notin> set s \<Longrightarrow> cut c (s @ c # t) = (s, t)"
  by (induction s) (auto simp: cut_def)

lemma getScheme_web: "scheme \<in> {''http'', ''https''} \<Longrightarrow> getScheme (scheme @ '':'' @ r) = Some (scheme, r)"
  by (auto simp: getScheme_def is_digit_def)

lemma Parse_no_fragment: "CHR ''#'' \<notin> set t \<Longrightarrow> Parse ip_literal t = parse ip_literal t"
  by (cases "parse ip_literal t") (simp_all add: Parse_def cut_absent)

lemma parse_with_query:
  "\<not> stringContainsCTLByte t \<Longrightarrow> t \<noteq> ''*'' \<Longrightarrow> getScheme t = Some (scheme, rest) \<Longrightarrow>
     \<not> (suffix ''?'' rest \<and> count_list rest CHR ''?'' = 1) \<Longrightarrow> cut CHR ''?'' rest = (front, query) \<Longrightarrow>
     parse ip_literal t = parse_rest ip_literal (empty_URL\<lparr>u_Scheme := ToLower scheme, u_RawQuery := query\<rparr>) front"
  by (auto simp: parse_def Let_def)

lemma parse_ordinary:
  assumes scheme: "scheme \<in> {''http'', ''https''}" and h: "ordinary_host h" and p: "ordinary_path p" and q: "ordinary_query q"
  shows "Parse ip_literal (web_text scheme h p q) = Some (web_URL scheme h p q)"
proof -
  have host: "parseAuthority ip_literal h = Some (None, h)"
    using ordinary_host_chars [OF h] h
    by (auto simp: parseAuthority_def parseHost_def ordinary_host_def Let_def list_all_iff intro!: unescape_plain)
  have path: "setPath u p = Some (u\<lparr>u_Path := p, u_RawPath := []\<rparr>)" for u
    using ordinary_path_chars [OF p] by (simp add: setPath_def unescape_plain escape_plain list_all_iff)
  let ?front = "''//'' @ h @ p"
  have hp: "c \<notin> set ''?#'' \<and> 32 < byte c \<and> byte c < 127" if "c \<in> set h \<union> set p" for c
    using that ordinary_host_chars [OF h, of c] ordinary_path_chars [OF p, of c] by auto
  have qs: "c \<noteq> CHR ''#'' \<and> 32 \<le> byte c \<and> byte c \<noteq> 127" if "c \<in> set q" for c
    using that q by (auto simp: ordinary_query_def list_all_iff)
  have rest: "parse_rest ip_literal u ?front = Some (u\<lparr>u_User := None, u_Host := h, u_Path := p, u_RawPath := []\<rparr>)"
    if "u_Scheme u = scheme" for u
  proof -
    have "takeWhile (\<lambda>x. x \<noteq> CHR ''/'') (h @ p) = h" "dropWhile (\<lambda>x. x \<noteq> CHR ''/'') (h @ p) = p"
      using ordinary_host_chars [OF h] p by (force simp: ordinary_path_def prefix_def takeWhile_append dropWhile_append)+
    with that scheme show ?thesis by (auto simp: parse_rest_def host path Let_def)
  qed
  have query: "\<not> (suffix ''?'' (?front @ q) \<and> count_list (?front @ q) CHR ''?'' = 1)" "cut CHR ''?'' (?front @ q) = (?front, drop 1 q)"
  proof -
    have f: "CHR ''?'' \<notin> set ?front" using hp by auto
    show "cut CHR ''?'' (?front @ q) = (?front, drop 1 q)"
      using q f cut_absent [OF f] cut_append [OF f] by (auto simp: ordinary_query_def prefix_def)
    from f have "count_list ?front CHR ''?'' = 0" by (simp add: count_list_0_iff)
    moreover have "count_list q CHR ''?'' \<noteq> 1" if "suffix ''?'' (?front @ q)"
    proof (cases q rule: rev_cases)
      case Nil
      with that f show ?thesis by (auto simp: suffix_def)
    next
      case (snoc r c)
      with that have "c = CHR ''?''" by (auto simp: suffix_def)
      moreover from snoc q have "CHR ''?'' \<in> set r" by (cases r) (auto simp: ordinary_query_def)
      ultimately show ?thesis using snoc by (simp add: count_list_0_iff)
    qed
    ultimately show "\<not> (suffix ''?'' (?front @ q) \<and> count_list (?front @ q) CHR ''?'' = 1)" by simp
  qed
  have t: "CHR ''#'' \<notin> set (web_text scheme h p q)" "\<not> stringContainsCTLByte (web_text scheme h p q)"
  proof -
    have "c \<noteq> CHR ''#'' \<and> 32 \<le> byte c \<and> byte c \<noteq> 127" if "c \<in> set (web_text scheme h p q)" for c
    proof -
      from that have "c \<in> set scheme \<union> set ''://'' \<or> c \<in> set h \<union> set p \<or> c \<in> set q"
        unfolding web_text_def set_append by blast
      moreover have "\<forall>c \<in> set scheme \<union> set ''://''. c \<noteq> CHR ''#'' \<and> 32 \<le> byte c \<and> byte c \<noteq> 127"
        using scheme by (elim insertE) simp_all
      ultimately show ?thesis using hp [of c] qs [of c] by (elim disjE) (blast, simp, blast)
    qed
    then show "CHR ''#'' \<notin> set (web_text scheme h p q)" "\<not> stringContainsCTLByte (web_text scheme h p q)"
      unfolding stringContainsCTLByte_def list_ex_iff by (blast, fastforce)
  qed
  have g: "getScheme (web_text scheme h p q) = Some (scheme, ?front @ q)"
    using getScheme_web [OF scheme, of "?front @ q"] by (simp add: web_text_def)
  have s: "ToLower scheme = scheme" "web_text scheme h p q \<noteq> ''*''"
    using scheme by (auto simp: ToLower_def lower_def web_text_def)
  let ?u = "empty_URL\<lparr>u_Scheme := scheme, u_RawQuery := drop 1 q\<rparr>"
  have "Parse ip_literal (web_text scheme h p q) = parse_rest ip_literal ?u ?front"
    unfolding Parse_no_fragment [OF t(1)] parse_with_query [OF t(2) s(2) g query] s(1) ..
  also have "\<dots> = Some (?u\<lparr>u_User := None, u_Host := h, u_Path := p, u_RawPath := []\<rparr>)"
    by (rule rest) simp
  also have "\<dots> = Some (web_URL scheme h p q)"
    by (simp add: web_URL_def empty_URL_def)
  finally show ?thesis .
qed

lemma text_ordinary:
  assumes scheme: "scheme \<in> {''http'', ''https''}" and h: "ordinary_host h" and p: "ordinary_path p" and q: "ordinary_query q"
  shows "URL_String (web_URL scheme h p q) = web_text scheme h p q"
proof -
  have "escape h encodeHost = h" "escape p encodePath = p"
    using ordinary_host_chars [OF h] ordinary_path_chars [OF p] by (simp_all add: escape_plain list_all_iff)
  moreover have "p = [] \<or> hd p = CHR ''/''" "p \<noteq> ''*''" using p by (auto simp: ordinary_path_def prefix_def)
  moreover have "h \<noteq> []" using h by (auto simp: ordinary_host_def)
  ultimately show ?thesis using scheme q
    by (auto simp: URL_String_def web_URL_def web_text_def hierarchy_text_def authority_text_def EscapedPath_def empty_URL_def
        ordinary_query_def prefix_def Let_def)
qed

end
