(* ===== verification/Shortlink_Handler.thy ===== *)
theory Shortlink_Handler
  imports Svc_Contract Shortlink_Store Go_Json_Decode Go_Url
begin

text \<open>
  \<open>services/shortlink/handler.go\<close> and the shutdown logic of its \<open>main.go\<close>: the routes of the URL
  shortener, on the store of \<open>Shortlink_Store\<close> and with the metrics of \<open>Svc_Contract\<close>. A body is decoded
  by \<open>Go_Json_Decode\<close> and a URL parsed by \<open>Go_Url\<close>, whose reader of addresses in brackets stays an argument.
\<close>

section \<open>Definitions\<close>

definition maxBodyBytes :: nat where "maxBodyBytes = 2 ^ 16"

definition statuses :: "string \<rightharpoonup> string list" where
  "statuses = [''post'' \<mapsto> [''201'', ''400'', ''500''], ''get'' \<mapsto> [''302'', ''404'']]"

record createRequest =
  cr_URL :: string

record createResponse =
  cs_Code :: string
  cs_Short :: string
  cs_URL :: string

text \<open>The JSON a response is encoded to.\<close>

definition createResponse_json :: "createResponse \<Rightarrow> json" where
  "createResponse_json r =
     JObject [(''code'', JString (cs_Code r)), (''short'', JString (cs_Short r)), (''url'', JString (cs_URL r))]"

text \<open>
  \<open>Decode\<close> into a \<open>createRequest\<close>: members named url in any case set the field, the last one wins, null leaves
  it alone, and a value of another kind is an error, though the rest is decoded.
\<close>

fun set_fields :: "(string \<times> jvalue) list \<Rightarrow> createRequest \<Rightarrow> createRequest option" where
  "set_fields [] req = Some req"
| "set_fields ((k, v) # kvs) req =
     (if ToLower k \<noteq> ''url'' then set_fields kvs req
      else case v of
             VString u \<Rightarrow> set_fields kvs (req\<lparr>cr_URL := u\<rparr>)
           | VNull \<Rightarrow> set_fields kvs req
           | _ \<Rightarrow> None)"

definition decode_request :: "nat \<Rightarrow> string \<Rightarrow> createRequest option" where
  "decode_request limit body =
     (case Decode limit body of
        Some (VObject kvs) \<Rightarrow> set_fields kvs \<lparr>cr_URL = []\<rparr>
      | Some VNull \<Rightarrow> Some \<lparr>cr_URL = []\<rparr>
      | _ \<Rightarrow> None)"

text \<open>The store, and the answers of \<open>rand.Read\<close> during each add, by the number of adds before.\<close>

record shortlink =
  sh_links :: store
  sh_adds :: nat
  sh_rand :: "nat \<Rightarrow> nat \<Rightarrow> byte8 list result"

type_synonym ip_reader = "string \<Rightarrow> string option"

definition createLink :: "ip_reader \<Rightarrow> http_request \<Rightarrow> shortlink \<Rightarrow> http_response \<times> shortlink" where
  "createLink ip rq st =
     (case decode_request maxBodyBytes (rq_Body rq) of
        None \<Rightarrow>
          (http_Error (''the body must be JSON like {'' @ [CHR 0x22] @ ''url'' @ [CHR 0x22] @ '': '' @ [CHR 0x22]
             @ ''https://example.com'' @ [CHR 0x22] @ ''}'') 400, st)
      | Some req \<Rightarrow>
      (case Parse ip (cr_URL req) of
        None \<Rightarrow> (http_Error ''url must be an absolute http or https URL'' 400, st)
      | Some target \<Rightarrow>
          if u_Scheme target \<noteq> ''http'' \<and> u_Scheme target \<noteq> ''https'' \<or> u_Host target = []
          then (http_Error ''url must be an absolute http or https URL'' 400, st)
          else
          (case add (sh_rand st (sh_adds st)) (sh_links st) (URL_String target) of
             (res, links') \<Rightarrow>
               let st' = st\<lparr>sh_links := links', sh_adds := Suc (sh_adds st)\<rparr>
               in case res of
                    Inl e \<Rightarrow> (http_Error ''could not create a link'' 500, st')
                  | Inr code \<Rightarrow>
                      (\<lparr>rs_Status = 201, rs_Location = Some (''/'' @ code), rs_ContentType = ''application/json'',
                        rs_Body = Marshal (createResponse_json
                          \<lparr>cs_Code = code, cs_Short = ''/'' @ code, cs_URL = URL_String target\<rparr>) @ newline\<rparr>, st'))))"

text \<open>The target a body asks for: the text of an absolute web URL.\<close>

definition requested_target :: "ip_reader \<Rightarrow> string \<Rightarrow> string option" where
  "requested_target ip body =
     Option.bind (decode_request maxBodyBytes body) (\<lambda>req.
     Option.bind (Parse ip (cr_URL req)) (\<lambda>target.
       if (u_Scheme target = ''http'' \<or> u_Scheme target = ''https'') \<and> u_Host target \<noteq> []
       then Some (URL_String target) else None))"

text \<open>The path value of the pattern \<open>/{code}\<close> is the path's only segment.\<close>

definition followLink :: "http_request \<Rightarrow> shortlink \<Rightarrow> http_response \<times> shortlink" where
  "followLink rq st =
     (case get (sh_links st) (hd (rq_Segments rq)) of
        None \<Rightarrow> (http_NotFound, st)
      | Some target \<Rightarrow> (redirect_found rq target, st))"

definition ok :: http_response where
  "ok = \<lparr>rs_Status = 200, rs_Location = None, rs_ContentType = ''text/plain; charset=utf-8'', rs_Body = ''ok'' @ newline\<rparr>"

definition metrics_page :: "prom_client \<Rightarrow> metrics \<Rightarrow> http_response" where
  "metrics_page prom m =
     \<lparr>rs_Status = 200, rs_Location = None, rs_ContentType = ''text/plain; version=0.0.4; charset=utf-8'', rs_Body = Expose prom m\<rparr>"

definition requestsName :: string where "requestsName = ''http_requests_total''"
definition latencyName :: string where "latencyName = ''http_request_duration_seconds''"

text \<open>The upper bounds of the histogram's buckets, in seconds.\<close>

definition latencyBuckets :: "rat list" where
  "latencyBuckets = [1 / 20, 1 / 10, 1 / 4, 1 / 2, 1, 5 / 2]"

text \<open>
  The series, created for the methods in the order the map is ranged over.
\<close>

definition describe_series :: "series \<Rightarrow> string" where
  "describe_series k = snd k @ '' '' @ fst k"

definition newHandler :: "prom_client \<Rightarrow> string list \<Rightarrow> metrics result" where
  "newHandler prom order =
     and_then (register_metrics prom [requestsName, latencyName]) (\<lambda>_.
       fold_result (\<lambda>method. fold_result (\<lambda>code. create_series prom requestsName latencyName describe_series (code, method))
         (the (statuses method))) order no_metrics)"

text \<open>
  The mux: a pattern for GET also matches HEAD; a literal segment goes before the wildcard, which does
  not match a lone slash; every path of one segment matches \<open>GET /{code}\<close>, so another method on it is
  answered with 405.
\<close>

definition routes :: "prom_client \<Rightarrow> ip_reader \<Rightarrow> http_request \<Rightarrow> shortlink route" where
  "routes prom ip rq =
     (case rq_Segments rq of
        [segment] \<Rightarrow>
          if segment = ''/'' then Plain (\<lambda>m. http_NotFound)
          else if rq_Method rq = ''GET'' \<or> rq_Method rq = ''HEAD'' then
            (if segment = ''healthz'' \<or> segment = ''readyz'' then Plain (\<lambda>m. ok)
             else if segment = ''metrics'' then Plain (metrics_page prom)
             else Instrumented followLink)
          else if rq_Method rq = ''POST'' \<and> segment = ''links'' then Instrumented (createLink ip)
          else Plain (\<lambda>m. method_not_allowed)
      | _ \<Rightarrow> Plain (\<lambda>m. http_NotFound))"

text \<open>\<open>run\<close> in \<open>main.go\<close>, from the handler and how serving ended.\<close>

definition run :: "'h result \<Rightarrow> serving \<Rightarrow> error option" where
  "run handler outcome =
     (case handler of
        Inl e \<Rightarrow> Some e
      | Inr h \<Rightarrow>
      (case outcome of
         Failed e \<Rightarrow> Some (wrap_error ''serving: '' e [])
       | Signalled (Some e) served \<Rightarrow> Some (wrap_error ''shutting down: '' e [])
       | Signalled None (Some e) \<Rightarrow> Some (wrap_error ''serving: '' e [])
       | Signalled None None \<Rightarrow> None))"

section \<open>The service contract\<close>

definition shortlink_series :: "series set" where
  "shortlink_series = {(code, method) |code method. \<exists>codes. statuses method = Some codes \<and> code \<in> set codes}"

lemma shortlink_series_eq:
  "shortlink_series = {(''201'', ''post''), (''400'', ''post''), (''500'', ''post''), (''302'', ''get''), (''404'', ''get'')}"
  by (auto simp: shortlink_series_def statuses_def split: if_splits)

lemma fold_result_nested:
  "fold_result (\<lambda>x. fold_result (\<lambda>y. f (y, x)) (g x)) xs s =
     fold_result f (concat (map (\<lambda>x. map (\<lambda>y. (y, x)) (g x)) xs)) s"
proof (induction xs arbitrary: s)
  case (Cons x xs)
  have "fold_result (\<lambda>y. f (y, x)) ys s' = fold_result f (map (\<lambda>y. (y, x)) ys) s'" for ys s'
    by (induction ys arbitrary: s') (simp_all, metis (no_types) and_then.simps sum.exhaust)
  then show ?case by (simp add: fold_result_append Cons.IH [abs_def])
qed simp

text \<open>Whatever the order, the series are those of \<open>statuses\<close>, at zero.\<close>

lemma newHandler_zero:
  assumes "newHandler prom order = Inr m" "set order = dom statuses"
  shows "zero_on shortlink_series m"
proof -
  let ?ks = "concat (map (\<lambda>x. map (\<lambda>y. (y, x)) (the (statuses x))) order)"
  from assms(1) have "fold_result (create_series prom requestsName latencyName describe_series) ?ks no_metrics = Inr m"
    using fold_result_nested [of "create_series prom requestsName latencyName describe_series" "\<lambda>method. the (statuses method)" order no_metrics]
    by (auto simp: newHandler_def result_iff)
  from fold_create_series_zero [OF this zero_on_empty] have "zero_on (set ?ks) m" by simp
  moreover have "set ?ks = shortlink_series"
    using assms(2) by (auto simp: shortlink_series_def dom_def)
  ultimately show ?thesis by simp
qed

text \<open>The requests the service promises to count from the first on.\<close>

definition get_or_post :: "http_request \<Rightarrow> bool" where
  "get_or_post rq \<longleftrightarrow> rq_Method rq = ''GET'' \<or> rq_Method rq = ''POST''"

lemma createLink_rejects:
  "requested_target ip (rq_Body rq) = None \<Longrightarrow> \<exists>text. createLink ip rq st = (http_Error text 400, st)"
  by (auto simp: createLink_def requested_target_def split: option.splits if_splits)

definition created :: "string \<Rightarrow> string \<Rightarrow> http_response" where
  "created code target =
     \<lparr>rs_Status = 201, rs_Location = Some (''/'' @ code), rs_ContentType = ''application/json'',
      rs_Body = Marshal (createResponse_json \<lparr>cs_Code = code, cs_Short = ''/'' @ code, cs_URL = target\<rparr>) @ newline\<rparr>"

lemma createLink_accepts:
  assumes "requested_target ip (rq_Body rq) = Some target" and "add (sh_rand st (sh_adds st)) (sh_links st) target = (res, links')"
  shows "createLink ip rq st =
     (case res of Inl e \<Rightarrow> http_Error ''could not create a link'' 500 | Inr code \<Rightarrow> created code target,
      st\<lparr>sh_links := links', sh_adds := Suc (sh_adds st)\<rparr>)"
  using assms
  by (auto simp: createLink_def requested_target_def created_def bind_eq_Some_conv Let_def split: sum.splits if_splits)

text \<open>The two cases of a request.\<close>

lemma createLink_cases:
  assumes "createLink ip rq st = (rs, st')"
  obtains (rejected) reason where "requested_target ip (rq_Body rq) = None" "rs = http_Error reason 400" "st' = st"
  | (added) target res links' where "requested_target ip (rq_Body rq) = Some target"
      "add (sh_rand st (sh_adds st)) (sh_links st) target = (res, links')"
      "rs = (case res of Inl e \<Rightarrow> http_Error ''could not create a link'' 500 | Inr code \<Rightarrow> created code target)"
      "st' = st\<lparr>sh_links := links', sh_adds := Suc (sh_adds st)\<rparr>"
proof (cases "requested_target ip (rq_Body rq)")
  case None
  with createLink_rejects [OF None, of st] assms rejected show thesis by auto
next
  case (Some target)
  obtain res links' where "add (sh_rand st (sh_adds st)) (sh_links st) target = (res, links')" by force
  with createLink_accepts [OF Some this] Some assms added show thesis by simp
qed

lemma createLink_status: "createLink ip rq st = (rs, st') \<Longrightarrow> rs_Status rs \<in> {201, 400, 500}"
  by (erule createLink_cases) (simp_all add: http_Error_def created_def split: sum.splits)

lemma followLink_status: "followLink rq st = (rs, st') \<Longrightarrow> rs_Status rs \<in> {302, 404} \<and> st' = st"
  by (auto simp: followLink_def http_NotFound_def http_Error_def redirect_found_def split: option.splits)

lemma routes_instrumented:
  "routes prom ip rq = Instrumented h \<Longrightarrow>
     (rq_Method rq = ''POST'' \<and> rq_Segments rq = [''links''] \<and> h = createLink ip) \<or>
     ((rq_Method rq = ''GET'' \<or> rq_Method rq = ''HEAD'') \<and> h = followLink)"
  by (auto simp: routes_def split: list.splits if_splits)

lemma status_texts: "itoa 201 = ''201''" "itoa 400 = ''400''" "itoa 500 = ''500''" "itoa 302 = ''302''" "itoa 404 = ''404''" "itoa 200 = ''200''"
  by code_simp+

sublocale prom_labels \<subseteq> shortlink: counted_service prom "routes prom ip" shortlink_series get_or_post for ip
proof
  show "finite shortlink_series" by (simp add: shortlink_series_eq)
next
  fix rq h rs and s s' :: shortlink
  assume h: "routes prom ip rq = Instrumented h" "get_or_post rq" "h rq s = (rs, s')"
  from routes_instrumented [OF h(1)] show "observed_as prom rq rs \<in> shortlink_series"
  proof (elim disjE conjE)
    assume "rq_Method rq = ''POST''" "h = createLink ip"
    with createLink_status [of ip rq s rs s'] h(3) observed_post [of rq rs] show ?thesis
      by (auto simp: shortlink_series_eq status_texts)
  next
    assume "rq_Method rq = ''GET''" "h = followLink"
    with followLink_status [of rq s rs s'] h(3) observed_get [of rq rs] show ?thesis
      by (auto simp: shortlink_series_eq status_texts)
  qed (use h(2) in \<open>simp add: get_or_post_def\<close>)
qed

context prom_labels
begin

lemmas shortlink_zero_start = shortlink.zero_start_counts

end

text \<open>
  C27: no request to shortlink is lost to its SLO. In whatever order the series are created, after any
  GET and POST requests the series are the ones that existed at zero from the start, so none was created
  by a request, and both metrics have counted exactly the requests to the application.
\<close>

theorem shortlink_counts:
  assumes "prom_labels prom" and "newHandler prom order = Inr m" and "set order = dom statuses"
    and "list_all get_or_post rqs" and "serve_all prom (routes prom ip) rqs (st, m) = (rss, st', m')"
  shows "dom (mx_requests m') = dom (mx_requests m) \<and> dom (mx_latency m') = dom (mx_latency m) \<and>
         counted (mx_requests m') = length (filter (\<lambda>rq. is_instrumented (routes prom ip rq)) rqs) \<and>
         counted (mx_latency m') = length (filter (\<lambda>rq. is_instrumented (routes prom ip rq)) rqs)"
proof -
  note z = newHandler_zero [OF assms(2,3)]
  from z have "dom (mx_requests m) = shortlink_series" "dom (mx_latency m) = shortlink_series"
    by (simp_all add: zero_on_def)
  with prom_labels.shortlink_zero_start [OF assms(1) z assms(4,5)] show ?thesis by simp
qed

section \<open>Links\<close>

lemma createLink_links:
  "createLink ip rq st = (rs, st') \<Longrightarrow> links (sh_links st) \<subseteq>\<^sub>m links (sh_links st')"
  by (erule createLink_cases) (auto dest: sl.add_keeps)

lemma serve_links:
  "ServeHTTP prom (routes prom ip) rq (st, m) = (rs, st', m') \<Longrightarrow> links (sh_links st) \<subseteq>\<^sub>m links (sh_links st')"
  by (auto simp: ServeHTTP_def split: route.splits prod.splits dest!: routes_instrumented createLink_links followLink_status)

lemma serve_all_links:
  "serve_all prom (routes prom ip) rqs (st, m) = (rss, st', m') \<Longrightarrow> links (sh_links st) \<subseteq>\<^sub>m links (sh_links st')"
proof (induction rqs arbitrary: st m rss)
  case (Cons rq rqs)
  obtain rs s1 m1 where one: "ServeHTTP prom (routes prom ip) rq (st, m) = (rs, s1, m1)" by (metis surj_pair)
  obtain rss' where "serve_all prom (routes prom ip) rqs (s1, m1) = (rss', st', m')"
    using Cons.prems one by (auto split: prod.splits)
  from Cons.IH [OF this] serve_links [OF one] show ?case by (blast intro: map_le_trans)
qed simp

text \<open>A link that was created: its target and its code.\<close>

lemma createLink_created:
  assumes "createLink ip rq st = (rs, st')" "rs_Status rs = 201" "\<And>i j. full_read (sh_rand st i j)"
  obtains target code where "requested_target ip (rq_Body rq) = Some target" "rs = created code target"
    "code_ok code" "links (sh_links st') code = Some target"
  using assms(1)
proof (cases rule: createLink_cases)
  case (added target res links')
  with assms(2) obtain code where code: "res = Inr code" "rs = created code target"
    by (auto simp: http_Error_def split: sum.splits)
  note a = added(2) [unfolded code(1)]
  then obtain i where "randomCode (sh_rand st (sh_adds st) i) = Inr code"
    by (auto simp: add_def dest: add_loop_Inr)
  then have "code_ok code" using assms(3) by (rule randomCode_ok)
  with that [of target code] added(1,4) code(2) sl.get_after_add [OF a] show thesis by (simp add: get_def)
qed (use assms(2) in \<open>simp add: http_Error_def\<close>)

lemma created_body: 
  "read_json (rs_Body (created code target)) =
     Some (createResponse_json \<lparr>cs_Code = code, cs_Short = ''/'' @ code, cs_URL = target\<rparr>)"
  unfolding created_def by (simp del: Marshal.simps) (rule read_Marshal, simp add: is_json_space_def)

abbreviation follow :: "string \<Rightarrow> http_request" where
  "follow code \<equiv> \<lparr>rq_Method = ''GET'', rq_Segments = [code], rq_Body = []\<rparr>"

lemma code_ok_route:
  assumes "code_ok code" "code \<noteq> ''metrics''"
  shows "routes prom ip (follow code) = Instrumented followLink"
proof -
  have "code \<noteq> ''/''" "code \<noteq> ''readyz''" using assms(1) by (auto simp: code_ok_def codeLength_def)
  moreover have "code \<noteq> ''healthz''" using assms(1) by (auto simp: code_ok_def codeAlphabet_def)
  ultimately show ?thesis using assms(2) by (simp add: routes_def)
qed

text \<open>
  A link that was created can be followed. After a 201 whose Location is a code, which its body, read as
  JSON, names with the URL, and after any requests that follow it, a GET of that code redirects to the URL that was posted, as the URL package
  writes it; unless the code happens to be the word metrics.
\<close>

lemma create_then_follow:
  assumes "createLink ip rq st = (rs, st')" and "rs_Status rs = 201" and "\<And>i j. full_read (sh_rand st i j)"
    and "serve_all prom (routes prom ip) rqs (st', m) = (rss, st'', m')"
    and "rs_Location rs \<noteq> Some ''/metrics''"
  shows "\<exists>target code. requested_target ip (rq_Body rq) = Some target \<and> rs_Location rs = Some (''/'' @ code) \<and>
           read_json (rs_Body rs) =
             Some (createResponse_json \<lparr>cs_Code = code, cs_Short = ''/'' @ code, cs_URL = target\<rparr>) \<and>
           fst (ServeHTTP prom (routes prom ip) (follow code) (st'', m')) = redirect_found (follow code) target"
  using assms(1-3)
proof (rule createLink_created)
  fix target code
  assume c: "requested_target ip (rq_Body rq) = Some target" "rs = created code target" "code_ok code"
    "links (sh_links st') code = Some target"
  have "links (sh_links st'') code = Some target"
    using serve_all_links [OF assms(4)] c(4) by (metis domI map_le_def)
  moreover have "code \<noteq> ''metrics''" using assms(5) c(2) by (auto simp: created_def)
  moreover have "rs_Location rs = Some (''/'' @ code)" using c(2) by (simp add: created_def)
  ultimately show ?thesis
    using c code_ok_route [OF c(3), of prom ip]
    by (intro exI [of _ target] exI [of _ code]) (simp add: ServeHTTP_def followLink_def get_def created_body)
qed

section \<open>Where redirects lead\<close>

text \<open>What the service hands out as a Location: a web URL whose characters are printable ASCII.\<close>

definition web_location :: "string \<Rightarrow> bool" where
  "web_location l \<longleftrightarrow>
     (prefix ''http://'' l \<or> prefix ''https://'' l) \<and> list_all (\<lambda>c. 32 \<le> byte c \<and> byte c < 127) l"

definition web_store :: "store \<Rightarrow> bool" where
  "web_store s \<longleftrightarrow> (\<forall>target \<in> ran (links s). (prefix ''http://'' target \<or> prefix ''https://'' target) \<and> header_safe target)"

lemma requested_target_web:
  assumes "requested_target ip body = Some target"
  shows "(prefix ''http://'' target \<or> prefix ''https://'' target) \<and> header_safe target"
proof -
  from assms obtain req :: createRequest and u where p: "Parse ip (cr_URL req) = Some u" and t:
    "(if (u_Scheme u = ''http'' \<or> u_Scheme u = ''https'') \<and> u_Host u \<noteq> [] then Some (URL_String u) else None) = Some target"
    unfolding requested_target_def bind_eq_Some_conv by blast
  then have u: "Parse ip (cr_URL req) = Some u" "u_Scheme u = ''http'' \<or> u_Scheme u = ''https''" "u_Host u \<noteq> []"
    "target = URL_String u"
    by (auto split: if_splits)
  have "u_Scheme u \<noteq> []" "header_safe (u_Scheme u)" using u(2) by auto
  then show ?thesis using u absolute_text [OF Parse_well [OF u(1)]] by auto
qed

lemma createLink_web_store: "createLink ip rq st = (rs, st') \<Longrightarrow> web_store (sh_links st) \<Longrightarrow> web_store (sh_links st')"
  by (erule createLink_cases) (use requested_target_web sl.add_targets in \<open>fastforce simp: web_store_def\<close>)+

lemma newStore_web: "web_store newStore"
  by (simp add: web_store_def newStore_def)

lemma hex_byte_printable: "c \<in> set (hex_byte n) \<Longrightarrow> n < 256 \<Longrightarrow> 32 \<le> byte c \<and> byte c < 127"
  by (auto simp: hex_byte_def hex_digit_def)

lemma escaped_location:
  assumes "prefix ''http://'' target \<or> prefix ''https://'' target" "header_safe target"
  shows "web_location (hexEscapeNonASCII target)"
proof -
  have "prefix (hexEscapeNonASCII x) (hexEscapeNonASCII y)" if "prefix x y" for x y
    using that by (auto simp: hexEscapeNonASCII_def prefix_def)
  from this [of "''http://''" target] this [of "''https://''" target] assms(1)
  have "prefix ''http://'' (hexEscapeNonASCII target) \<or> prefix ''https://'' (hexEscapeNonASCII target)"
    by (auto simp: hexEscapeNonASCII_def)
  moreover have "list_all (\<lambda>c. 32 \<le> byte c \<and> byte c < 127) (hexEscapeNonASCII target)"
    using assms(2) hex_byte_printable
    by (fastforce simp: hexEscapeNonASCII_def header_safe_def list_all_iff split: if_splits)
  ultimately show ?thesis by (simp add: web_location_def)
qed

definition web_answer :: "http_response \<Rightarrow> bool" where
  "web_answer rs \<longleftrightarrow> rs_Status rs \<noteq> 302 \<or> (case rs_Location rs of None \<Rightarrow> False | Some l \<Rightarrow> web_location l)"

lemma followLink_web: "followLink rq st = (rs, st') \<Longrightarrow> web_store (sh_links st) \<Longrightarrow> web_answer rs"
proof (cases "get (sh_links st) (hd (rq_Segments rq))")
  case (Some target)
  moreover assume "web_store (sh_links st)"
  ultimately have "web_location (hexEscapeNonASCII target)"
    by (intro escaped_location) (auto simp: web_store_def get_def ran_def)
  moreover assume "followLink rq st = (rs, st')"
  ultimately show ?thesis using Some by (auto simp: followLink_def web_answer_def redirect_found_def)
qed (auto simp: followLink_def web_answer_def http_NotFound_def http_Error_def)

lemma plain_web: "routes prom ip rq = Plain page \<Longrightarrow> web_answer (page m)"
  by (auto simp: routes_def http_NotFound_def http_Error_def ok_def metrics_page_def method_not_allowed_def web_answer_def
      split: list.splits if_splits)

lemma serve_web:
  assumes "ServeHTTP prom (routes prom ip) rq (st, m) = (rs, st', m')" "web_store (sh_links st)"
  shows "web_store (sh_links st') \<and> web_answer rs"
proof (cases "routes prom ip rq")
  case (Plain page)
  with assms plain_web [OF Plain, of m] show ?thesis by (auto simp: ServeHTTP_def)
next
  case (Instrumented h)
  with assms(1) have h: "h rq st = (rs, st')" by (auto simp: ServeHTTP_def split: prod.splits)
  from routes_instrumented [OF Instrumented] have "h = createLink ip \<or> h = followLink" by blast
  then show ?thesis
  proof
    assume "h = createLink ip"
    with h createLink_status [of ip rq st rs st'] createLink_web_store [of ip rq st rs st'] assms(2) show ?thesis
      by (auto simp: web_answer_def)
  next
    assume "h = followLink"
    with h followLink_web [of rq st rs st'] followLink_status [of rq st rs st'] assms(2) show ?thesis by auto
  qed
qed

text \<open>
  C28: shortlink is never a way to another scheme. From an empty store, after any requests whatever and with any
  reader of addresses, each redirect leads to a Location that starts with http:// or https:// and consists of
  printable ASCII, so no header can be split with it, and the same holds of every URL in the store.
\<close>

theorem redirects_stay_on_the_web:
  assumes "serve_all prom (routes prom ip) rqs (st, m) = (rss, st', m')" and "sh_links st = newStore"
  shows "list_all web_answer rss \<and> web_store (sh_links st')"
proof -
  have "list_all web_answer rss \<and> web_store (sh_links st')"
    if "serve_all prom (routes prom ip) rqs (st, m) = (rss, st', m')" "web_store (sh_links st)" for st m
    using that
  proof (induction rqs arbitrary: st m rss)
    case (Cons rq rqs)
    obtain rs s1 m1 where one: "ServeHTTP prom (routes prom ip) rq (st, m) = (rs, s1, m1)" by (metis surj_pair)
    obtain rss' where "serve_all prom (routes prom ip) rqs (s1, m1) = (rss', st', m')" "rss = rs # rss'"
      using Cons.prems(1) one by (auto split: prod.splits)
    with Cons.IH [of s1 m1 rss'] serve_web [OF one Cons.prems(2)] show ?case by simp
  qed simp
  from this [OF assms(1)] show ?thesis using assms(2) newStore_web by simp
qed

text \<open>
  \<open>http.Redirect\<close> makes a URL without a scheme relative to the request; what the store holds is never read as
  one, so the redirect keeps it as it is.
\<close>

lemma stored_not_relative:
  assumes "web_store s" "get s code = Some target" "Parse ip target = Some u"
  shows "u_Scheme u \<noteq> []"
  using assms Parse_web_scheme [OF _ assms(3)] by (auto simp: web_store_def get_def ran_def)

section \<open>Two requests that fall through\<close>

text \<open>No address in brackets is read.\<close>

definition no_ip :: ip_reader where "no_ip host = None"

definition post_url :: "string \<Rightarrow> http_request" where
  "post_url u = \<lparr>rq_Method = ''POST'', rq_Segments = [''links''], rq_Body = Marshal (JObject [(''url'', JString u)])\<rparr>"

definition post_links :: http_request where
  "post_links = post_url ''https://go.dev/''"

text \<open>What is posted is what is asked for.\<close>

lemma decode_posted:
  assumes "valid_utf8 u" "length (rq_Body (post_url u)) \<le> maxBodyBytes"
  shows "decode_request maxBodyBytes (rq_Body (post_url u)) = Some \<lparr>cr_URL = u\<rparr>"
proof -
  have "valid_utf8 ''url''" by (simp add: ascii_utf8)
  from Decode_member [OF this assms(1), of "[]" maxBodyBytes] assms(2) show ?thesis
    by (simp add: decode_request_def post_url_def ToLower_def lower_def del: Marshal.simps)
qed

definition ascii :: "string \<Rightarrow> bool" where
  "ascii s \<longleftrightarrow> list_all (\<lambda>c. byte c < 128) s"

lemma requested_posted:
  assumes "scheme \<in> {''http'', ''https''}" "ordinary_host h" "ordinary_path p" "ordinary_query q"
    and "ascii (web_text scheme h p q)" "length (rq_Body (post_url (web_text scheme h p q))) \<le> maxBodyBytes"
  shows "requested_target ip (rq_Body (post_url (web_text scheme h p q))) = Some (web_text scheme h p q)"
proof -
  have "valid_utf8 (web_text scheme h p q)" using assms(5) by (intro ascii_utf8) (simp add: ascii_def)
  moreover have "h \<noteq> []" using assms(2) by (auto simp: ordinary_host_def)
  moreover have "u_Scheme (web_URL scheme h p q) = scheme" "u_Host (web_URL scheme h p q) = h"
    by (simp_all add: web_URL_def)
  ultimately show ?thesis
    using assms(1) decode_posted [OF _ assms(6)] parse_ordinary [OF assms(1-4), of ip] text_ordinary [OF assms(1-4)]
    by (auto simp: requested_target_def)
qed

lemma hexEscape_ascii: "ascii s \<Longrightarrow> hexEscapeNonASCII s = s"
  by (induction s) (simp_all add: hexEscapeNonASCII_def ascii_def)

lemma follow_metrics: "fst (ServeHTTP prom (routes prom ip) (follow ''metrics'') (st, m)) = metrics_page prom m"
  by (simp add: ServeHTTP_def routes_def)

text \<open>
  C29: an ordinary URL comes back letter by letter, under every code but one. The URL, in ASCII, of a web scheme, a host
  with an optional port, a path and an optional query, is posted as JSON. The answer is 201 with a code, or 500 with the
  links as they were. Whatever requests follow, a GET of the code redirects to exactly the text that was posted, unless
  the code is the word metrics: then it answers with the metrics page.
\<close>

theorem posted_url_roundtrip:
  assumes "scheme \<in> {''http'', ''https''}" and "ordinary_host h" and "ordinary_path p" and "ordinary_query q"
    and "ascii (web_text scheme h p q)" and "length (rq_Body (post_url (web_text scheme h p q))) \<le> maxBodyBytes"
    and "createLink ip (post_url (web_text scheme h p q)) st = (rs, st')" and "\<And>i j. full_read (sh_rand st i j)"
    and "serve_all prom (routes prom ip) rqs (st', m) = (rss, st'', m')"
  shows "rs_Status rs = 500 \<and> sh_links st' = sh_links st \<or>
         rs_Status rs = 201 \<and>
         (\<exists>code. rs_Location rs = Some (''/'' @ code) \<and>
            (let answer = fst (ServeHTTP prom (routes prom ip) (follow code) (st'', m'))
             in if code = ''metrics'' then answer = metrics_page prom m'
                else rs_Status answer = 302 \<and> rs_Location answer = Some (web_text scheme h p q)))"
proof -
  note target = requested_posted [OF assms(1-6), of ip]
  from assms(7) show ?thesis
  proof (cases rule: createLink_cases)
    case (rejected reason)
    with target show ?thesis by simp
  next
    case (added target' res links')
    show ?thesis
    proof (cases res)
      case (Inl e)
      with added(2-4) show ?thesis by (simp add: http_Error_def add_def) (use add_loop_Inl in blast)
    next
      case (Inr code)
      with added(3) have created: "rs_Status rs = 201" "rs_Location rs = Some (''/'' @ code)" by (simp_all add: created_def)
      show ?thesis
      proof (cases "code = ''metrics''")
        case True
        with created follow_metrics show ?thesis by (intro disjI2 conjI exI [of _ code]) (simp_all add: Let_def)
      next
        case False
        with created(2) have "rs_Location rs \<noteq> Some ''/metrics''" by simp
        from create_then_follow [OF assms(7) created(1) assms(8,9) this] False created target hexEscape_ascii [OF assms(5)]
        show ?thesis by (auto simp: redirect_found_def)
      qed
    qed
  qed
qed

text \<open>A store whose next random bytes are given.\<close>

definition drawing :: "byte8 list \<Rightarrow> shortlink" where
  "drawing buf = \<lparr>sh_links = newStore, sh_adds = 0, sh_rand = (\<lambda>i j. Inr buf)\<rparr>"

lemma drawing_full: "length buf = codeLength \<Longrightarrow> full_read (sh_rand (drawing buf) i j)"
  by (simp add: drawing_def full_read_def)

lemma ordinary_example:
  "web_text ''https'' ''go.dev'' ''/'' [] = ''https://go.dev/''" "ordinary_host ''go.dev''" "ordinary_path ''/''"
  "ordinary_query []" "ascii (web_text ''https'' ''go.dev'' ''/'' [])"
  by code_simp+

lemma small_example: "length (rq_Body (post_url ''https://go.dev/'')) \<le> maxBodyBytes"
  by (simp add: post_url_def maxBodyBytes_def json_string_def json_chars_plain json_plain_def json_char_def Let_def)

lemma post_links_target: "requested_target no_ip (rq_Body post_links) = Some ''https://go.dev/''"
  using requested_posted [of "''https''" "''go.dev''" "''/''" "[]" no_ip] ordinary_example small_example by (simp add: post_links_def)

lemma createLink_drawing:
  assumes "randomCode (Inr buf) = Inr code"
  shows "\<exists>rs. createLink no_ip post_links (drawing buf) =
     (rs, (drawing buf)\<lparr>sh_links := \<lparr>links = [code \<mapsto> ''https://go.dev/'']\<rparr>, sh_adds := 1\<rparr>) \<and>
     rs_Status rs = 201 \<and> rs_Location rs = Some (''/'' @ code)"
proof -
  have "add (\<lambda>j. Inr buf) newStore target = (Inr code, \<lparr>links = [code \<mapsto> target]\<rparr>)" for target
    unfolding add_def codeAttempts_Suc add_loop.simps assms by (simp add: put_if_free_def newStore_def)
  then show ?thesis using createLink_accepts [where ip = no_ip and rq = post_links and st = "drawing buf"] post_links_target
    by (simp add: drawing_def created_def)
qed

definition metrics_bytes :: "byte8 list" where
  "metrics_bytes = [11, 4, 18, 16, 8, 2, 17]"

lemma metrics_code: "randomCode (Inr metrics_bytes) = Inr ''metrics''"
  by code_simp

text \<open>
  The word metrics is a code that can come up. With these random bytes \<open>POST /links\<close> answers 201 with
  the Location \<open>/metrics\<close>, and a GET of it shows the metrics page instead of redirecting.
\<close>

lemma metrics_code_shadowed:
  "\<exists>rs st'. (\<forall>i j. full_read (sh_rand (drawing metrics_bytes) i j)) \<and>
     createLink no_ip post_links (drawing metrics_bytes) = (rs, st') \<and>
     rs_Status rs = 201 \<and> rs_Location rs = Some ''/metrics'' \<and> get (sh_links st') ''metrics'' = Some ''https://go.dev/'' \<and>
     fst (ServeHTTP prom (routes prom no_ip) (follow ''metrics'') (st', m)) =
       metrics_page prom m"
proof -
  have "length metrics_bytes = codeLength" by (simp add: metrics_bytes_def codeLength_def)
  note full = drawing_full [OF this]
  from createLink_drawing [OF metrics_code] obtain rs where
    "createLink no_ip post_links (drawing metrics_bytes) =
       (rs, (drawing metrics_bytes)\<lparr>sh_links := \<lparr>links = [''metrics'' \<mapsto> ''https://go.dev/'']\<rparr>, sh_adds := 1\<rparr>)"
    "rs_Status rs = 201" "rs_Location rs = Some (''/'' @ ''metrics'')" by blast
  then show ?thesis using full by (simp add: get_def ServeHTTP_def routes_def)
qed

text \<open>
  A URL without a host name passes for an absolute one as long as it names a port: \<open>Host\<close> holds both.
\<close>

lemma port_without_host:
  "requested_target no_ip (rq_Body (post_url ''http://:80/'')) = Some ''http://:80/''"
proof -
  have "Parse no_ip ''http://:80/'' = Some (web_URL ''http'' '':80'' ''/'' [])"
    "URL_String (web_URL ''http'' '':80'' ''/'' []) = ''http://:80/''" "valid_utf8 ''http://:80/''"
    by code_simp+
  moreover have "length (rq_Body (post_url ''http://:80/'')) \<le> maxBodyBytes"
    by (simp add: post_url_def maxBodyBytes_def json_string_def json_chars_plain json_plain_def json_char_def Let_def)
  ultimately show ?thesis
    using decode_posted [of "''http://:80/''"] by (simp add: requested_target_def web_URL_def)
qed

text \<open>What the service's own test expects to be rejected.\<close>

lemma rejected_bodies:
  "decode_request maxBodyBytes ''url=https://example.com'' = None"
  "requested_target no_ip ''{}'' = None"
  "requested_target no_ip (rq_Body (post_url ''/docs'')) = None"
  "requested_target no_ip (rq_Body (post_url ''ftp://example.com/file'')) = None"
  "requested_target no_ip (rq_Body (post_url ''https://'')) = None"
proof -
  have no: "requested_target no_ip (rq_Body (post_url u)) = None"
    if "valid_utf8 u" "length (rq_Body (post_url u)) \<le> maxBodyBytes"
      "case Parse no_ip u of None \<Rightarrow> True | Some v \<Rightarrow> \<not> ((u_Scheme v = ''http'' \<or> u_Scheme v = ''https'') \<and> u_Host v \<noteq> [])" for u
    using decode_posted [OF that(1,2)] that(3) by (auto simp: requested_target_def split: option.splits)
  note len = post_url_def maxBodyBytes_def json_string_def json_chars_plain json_plain_def json_char_def Let_def
  show "requested_target no_ip (rq_Body (post_url ''/docs'')) = None"
    by (rule no) (code_simp, simp add: len, code_simp)
  show "requested_target no_ip (rq_Body (post_url ''ftp://example.com/file'')) = None"
    by (rule no) (code_simp, simp add: len, code_simp)
  show "requested_target no_ip (rq_Body (post_url ''https://'')) = None"
    by (rule no) (code_simp, simp add: len, code_simp)
  have "scan_value (Suc (2 * length ''url=https://example.com'')) 0 ''url=https://example.com'' = None"
    "scan_value (Suc (2 * length ''{}'')) 0 ''{}'' = Some (VObject [], [])" "Parse no_ip [] = Some empty_URL"
    by code_simp+
  then show "decode_request maxBodyBytes ''url=https://example.com'' = None" "requested_target no_ip ''{}'' = None"
    by (simp_all add: requested_target_def decode_request_def Decode_small maxBodyBytes_def empty_URL_def del: scan_value.simps)
qed

text \<open>
  A HEAD request is counted under a method for which no series exists at the start: the mux sends it
  to \<open>followLink\<close> and the request creates its series.
\<close>

lemma head_creates_series:
  assumes "prom_labels prom" and "newHandler prom order = Inr m" and "set order = dom statuses"
    and "ServeHTTP prom (routes prom ip) \<lparr>rq_Method = ''HEAD'', rq_Segments = [''nosuchcode''], rq_Body = []\<rparr> (st, m) = (rs, st', m')"
  shows "dom (mx_requests m) \<subset> dom (mx_requests m')"
proof -
  let ?rq = "\<lparr>rq_Method = ''HEAD'', rq_Segments = [''nosuchcode''], rq_Body = []\<rparr>"
  have d: "dom (mx_requests m) = shortlink_series" using newHandler_zero [OF assms(2,3)] by (simp add: zero_on_def)
  have "mx_requests m' = increment (mx_requests m) (observed_as prom ?rq rs)"
    using assms(4) by (auto simp: ServeHTTP_def routes_def split: prod.splits)
  then have "dom (mx_requests m') = insert (observed_as prom ?rq rs) (dom (mx_requests m))" by simp
  moreover have "observed_as prom ?rq rs \<notin> shortlink_series"
    using prom_labels.observed_head [OF assms(1), of ?rq rs] by (simp add: shortlink_series_eq)
  ultimately show ?thesis using d by blast
qed

section \<open>Examples\<close>

lemma example_handler: "\<exists>m. newHandler promhttp [''post'', ''get''] = Inr m"
  by (simp add: newHandler_def register_metrics_def create_series_def promhttp_def statuses_def)

lemma example_order: "set [''post'', ''get''] = dom statuses"
  by (auto simp: statuses_def)

theorem shortlink_counts_witness:
  "\<exists>m rss st' m'. newHandler promhttp [''post'', ''get''] = Inr m \<and>
     serve_all promhttp (routes promhttp no_ip) [post_links] (drawing metrics_bytes, m) = (rss, st', m') \<and>
     counted (mx_requests m') = 1"
proof -
  obtain m where m: "newHandler promhttp [''post'', ''get''] = Inr m" using example_handler by blast
  obtain rss st' m' where s: "serve_all promhttp (routes promhttp no_ip) [post_links] (drawing metrics_bytes, m) = (rss, st', m')"
    by (metis surj_pair)
  have "list_all get_or_post [post_links]" "is_instrumented (routes promhttp no_ip post_links)"
    by (simp_all add: get_or_post_def post_links_def post_url_def is_instrumented_def routes_def)
  with shortlink_counts [OF ph.prom_labels_axioms m example_order _ s] m s show ?thesis by auto
qed

theorem redirects_stay_on_the_web_witness:
  "\<exists>rss st' m'. serve_all promhttp (routes promhttp no_ip) [post_links, follow ''aaaaaaa''] (drawing [0, 0, 0, 0, 0, 0, 0], no_metrics)
     = (rss, st', m') \<and> list_all web_answer rss \<and> web_store (sh_links st')"
proof -
  obtain rss st' m' where s: "serve_all promhttp (routes promhttp no_ip) [post_links, follow ''aaaaaaa'']
      (drawing [0, 0, 0, 0, 0, 0, 0], no_metrics) = (rss, st', m')" by (metis surj_pair)
  moreover have "sh_links (drawing [0, 0, 0, 0, 0, 0, 0]) = newStore" by (simp add: drawing_def)
  ultimately show ?thesis using redirects_stay_on_the_web [OF s] by blast
qed

theorem posted_url_roundtrip_witness:
  "\<exists>rs st'. createLink no_ip post_links (drawing [0, 0, 0, 0, 0, 0, 0]) = (rs, st') \<and>
     rs_Location (fst (ServeHTTP promhttp (routes promhttp no_ip) (follow ''aaaaaaa'') (st', no_metrics))) = Some ''https://go.dev/''"
proof -
  from createLink_drawing [OF zero_code] obtain rs st' where
    c: "createLink no_ip post_links (drawing [0, 0, 0, 0, 0, 0, 0]) = (rs, st')"
    "rs_Status rs = 201" "rs_Location rs = Some (''/'' @ ''aaaaaaa'')" by blast
  have full: "full_read (sh_rand (drawing [0, 0, 0, 0, 0, 0, 0]) i j)" for i j
    by (rule drawing_full) (simp add: codeLength_def)
  have none: "serve_all promhttp (routes promhttp no_ip) [] (st', no_metrics) = ([], st', no_metrics)" by simp
  have "createLink no_ip (post_url (web_text ''https'' ''go.dev'' ''/'' [])) (drawing [0, 0, 0, 0, 0, 0, 0]) = (rs, st')"
    using c(1) by (simp add: post_links_def ordinary_example(1))
  from posted_url_roundtrip [OF _ ordinary_example(2-5) _ this full none] show ?thesis
    using c ordinary_example(1) small_example by (auto simp: Let_def)
qed

end
