(* ===== verification/Testsvc.thy ===== *)
theory Testsvc
  imports Svc_Contract
begin

text \<open>
  \<open>examples/testsvc/main.go\<close>: the service the example claims run. Its root answers 200, or 500 in a
  release built to be broken; \<open>/boom\<close> always answers 500.
\<close>

section \<open>Definitions\<close>

definition test_ok :: http_response where
  "test_ok =
     \<lparr>rs_Status = 200, rs_Location = None, rs_ContentType = ''text/plain; charset=utf-8'', rs_Body = ''ok'' @ newline\<rparr>"

definition boom :: http_response where
  "boom = http_Error ''boom'' 500"

definition test_describe :: "series \<Rightarrow> string" where
  "test_describe k = ''code='' @ fst k"

definition test_codes :: "string list" where
  "test_codes = [''200'', ''500'']"

definition test_requestsName :: string where "test_requestsName = ''http_requests_total''"
definition test_latencyName :: string where "test_latencyName = ''http_request_duration_seconds''"

text \<open>The upper bounds of the histogram's buckets, in seconds.\<close>

definition test_latencyBuckets :: "rat list" where
  "test_latencyBuckets = [1 / 20, 1 / 10, 1 / 4, 1 / 2, 1, 5 / 2]"

definition test_newHandler :: "prom_client \<Rightarrow> metrics result" where
  "test_newHandler prom =
     and_then (register_metrics prom [test_requestsName, test_latencyName]) (\<lambda>_.
       fold_result (\<lambda>code. create_series prom test_requestsName test_latencyName test_describe (code, ''get'')) test_codes no_metrics)"

text \<open>
  The mux: the patterns have no method, and the root matches every path no other pattern does.
  \<open>broken\<close> is the variable set at build time.
\<close>

definition test_routes :: "prom_client \<Rightarrow> string \<Rightarrow> http_request \<Rightarrow> unit route" where
  "test_routes prom broken rq =
     (let root = (if broken = ''true'' then boom else test_ok)
      in if rq_Segments rq = [''boom''] then Instrumented (\<lambda>rq s. (boom, s))
         else if rq_Segments rq = [''healthz''] \<or> rq_Segments rq = [''readyz''] then Plain (\<lambda>m. test_ok)
         else if rq_Segments rq = [''metrics''] then
           Plain (\<lambda>m. \<lparr>rs_Status = 200, rs_Location = None, rs_ContentType = ''text/plain; version=0.0.4; charset=utf-8'',
             rs_Body = Expose prom m\<rparr>)
         else Instrumented (\<lambda>rq s. (root, s)))"

text \<open>\<open>run\<close>, from the handler and how serving ended.\<close>

definition test_run :: "'h result \<Rightarrow> serving \<Rightarrow> error option" where
  "test_run handler outcome =
     (case handler of
        Inl e \<Rightarrow> Some e
      | Inr h \<Rightarrow>
      (case outcome of
         Failed e \<Rightarrow> Some (wrap_error ''serving: '' e [])
       | Signalled (Some e) served \<Rightarrow> Some (wrap_error ''shutting down: '' e [])
       | Signalled None (Some e) \<Rightarrow> Some (wrap_error ''serving: '' e [])
       | Signalled None None \<Rightarrow> None))"

section \<open>The service contract\<close>

definition test_series :: "series set" where
  "test_series = {(''200'', ''get''), (''500'', ''get'')}"

lemma test_newHandler_zero:
  assumes "test_newHandler prom = Inr m"
  shows "zero_on test_series m"
proof -
  let ?f = "create_series prom test_requestsName test_latencyName test_describe"
  have "fold_result (\<lambda>code. ?f (code, ''get'')) xs s = fold_result ?f (map (\<lambda>code. (code, ''get'')) xs) s" for xs s
    by (induction xs arbitrary: s) (simp_all, metis (no_types) and_then.simps sum.exhaust)
  with assms have "fold_result ?f (map (\<lambda>code. (code, ''get'')) test_codes) no_metrics = Inr m"
    by (auto simp: test_newHandler_def result_iff)
  from fold_create_series_zero [OF this zero_on_empty] show ?thesis by (simp add: test_series_def test_codes_def)
qed

definition is_get :: "http_request \<Rightarrow> bool" where
  "is_get rq \<longleftrightarrow> rq_Method rq = ''GET''"

lemma test_routes_status:
  "test_routes prom broken rq = Instrumented h \<Longrightarrow> h rq s = (rs, s') \<Longrightarrow> rs_Status rs \<in> {200, 500}"
  by (auto simp: test_routes_def boom_def test_ok_def http_Error_def Let_def split: if_splits)

lemma test_status_texts: "itoa 200 = ''200''" "itoa 500 = ''500''"
  by code_simp+

sublocale prom_labels \<subseteq> testsvc: counted_service prom "test_routes prom broken" test_series is_get for broken
proof
  fix rq h rs and s s' :: unit
  assume "test_routes prom broken rq = Instrumented h" "is_get rq" "h rq s = (rs, s')"
  then show "observed_as prom rq rs \<in> test_series"
    using test_routes_status [of prom broken rq h s rs s'] observed_get [of rq rs]
    by (auto simp: test_series_def is_get_def test_status_texts)
qed (simp add: test_series_def)

context prom_labels
begin

lemmas testsvc_zero_start = testsvc.zero_start_counts

end

text \<open>
  No GET request to the test service is lost to its SLO: after any of them the series are the ones that
  existed at zero from the start, and exactly the requests to the application were counted.
\<close>

lemma testsvc_counts:
  assumes "prom_labels prom" and "test_newHandler prom = Inr m" and "list_all is_get rqs"
    and "serve_all prom (test_routes prom broken) rqs ((), m) = (rss, s', m')"
  shows "dom (mx_requests m') = dom (mx_requests m) \<and> dom (mx_latency m') = dom (mx_latency m) \<and>
         counted (mx_requests m') = length (filter (\<lambda>rq. is_instrumented (test_routes prom broken rq)) rqs)"
proof -
  note z = test_newHandler_zero [OF assms(2)]
  from z have "dom (mx_requests m) = test_series" "dom (mx_latency m) = test_series" by (simp_all add: zero_on_def)
  with prom_labels.testsvc_zero_start [OF assms(1) z assms(3,4)] show ?thesis by simp
qed

text \<open>
  A broken release deploys cleanly and then fails: its probes and its metrics answer 200 like those of
  a good one, and every other request answers 500, by any method.
\<close>

lemma testsvc_broken:
  "rs_Status (fst (ServeHTTP prom (test_routes prom broken) rq sm)) =
     (if rq_Segments rq \<in> {[''healthz''], [''readyz''], [''metrics'']} then 200
      else if rq_Segments rq = [''boom''] \<or> broken = ''true'' then 500 else 200)"
  by (auto simp: ServeHTTP_def test_routes_def boom_def test_ok_def http_Error_def Let_def)

text \<open>
  A request by another method than GET is counted in a series that does not exist at the start.
\<close>

lemma post_creates_series:
  assumes "prom_labels prom" and "test_newHandler prom = Inr m"
    and "ServeHTTP prom (test_routes prom broken) \<lparr>rq_Method = ''POST'', rq_Segments = [''boom''], rq_Body = []\<rparr> ((), m) = (rs, s', m')"
  shows "rs_Status rs = 500 \<and> dom (mx_requests m) \<subset> dom (mx_requests m')"
proof -
  let ?rq = "\<lparr>rq_Method = ''POST'', rq_Segments = [''boom''], rq_Body = []\<rparr>"
  have d: "dom (mx_requests m) = test_series" using test_newHandler_zero [OF assms(2)] by (simp add: zero_on_def)
  have "mx_requests m' = increment (mx_requests m) (observed_as prom ?rq rs)" "rs = boom"
    using assms(3) by (auto simp: ServeHTTP_def test_routes_def Let_def split: prod.splits)
  moreover from this have "dom (mx_requests m') = insert (observed_as prom ?rq rs) (dom (mx_requests m))" by simp
  moreover have "observed_as prom ?rq rs \<notin> test_series"
    using prom_labels.observed_post [OF assms(1), of ?rq rs] by (simp add: test_series_def)
  ultimately show ?thesis using d by (auto simp: boom_def http_Error_def)
qed

end
