(* ===== verification/Svc_Shutdown.thy ===== *)
theory Svc_Shutdown
  imports Shortlink_Handler Testsvc Go_Flag
begin

text \<open>
  \<open>run\<close> in the two services' \<open>main.go\<close> as the goroutines that it is: the server in a goroutine of its own that sends how
  it ended to the channel \<open>serveErr\<close>, of capacity 1, and the main goroutine that selects between that channel and
  the signal, shuts the server down and waits for it. The functions \<open>run\<close> and \<open>test_run\<close> are what comes out of it.
\<close>

section \<open>The two goroutines\<close>

datatype main_phase =
    Selecting
  | ShuttingDown
  | Awaiting
  | Ended "error option"

text \<open>
  Whether the goroutine still is in \<open>ListenAndServe\<close>, the buffer of the channel, with \<open>None\<close> for
  \<open>http.ErrServerClosed\<close>, whether the context is done, and whether \<open>Shutdown\<close> has been called.
\<close>

record server =
  sv_Phase :: main_phase
  sv_Serving :: bool
  sv_Chan :: "error option list"
  sv_Done :: bool
  sv_Down :: bool

definition chan_cap :: nat where "chan_cap = 1"

definition server_start :: server where
  "server_start = \<lparr>sv_Phase = Selecting, sv_Serving = True, sv_Chan = [], sv_Done = False, sv_Down = False\<rparr>"

datatype server_event =
    ServeFails error
  | ServeCloses
  | Signal
  | ReceiveError error
  | ReceiveDone
  | ShutdownReturns "error option"
  | ReceiveServed "error option"

definition serving_failed :: "error \<Rightarrow> error option" where
  "serving_failed e = Some (wrap_error ''serving: '' e [])"

text \<open>
  \<open>ListenAndServe\<close> may fail at any time, and returns \<open>ErrServerClosed\<close> only after \<open>Shutdown\<close> has been called; the
  goroutine ends with the send, which needs room in the buffer. The select takes either case that is ready.
\<close>

inductive server_step :: "server \<Rightarrow> server_event \<Rightarrow> server \<Rightarrow> bool" where
  serve_fails: "sv_Serving s \<Longrightarrow> length (sv_Chan s) < chan_cap \<Longrightarrow>
    server_step s (ServeFails e) (s\<lparr>sv_Serving := False, sv_Chan := sv_Chan s @ [Some e]\<rparr>)"
| serve_closes: "sv_Serving s \<Longrightarrow> sv_Down s \<Longrightarrow> length (sv_Chan s) < chan_cap \<Longrightarrow>
    server_step s ServeCloses (s\<lparr>sv_Serving := False, sv_Chan := sv_Chan s @ [None]\<rparr>)"
| signalled: "\<not> sv_Done s \<Longrightarrow> server_step s Signal (s\<lparr>sv_Done := True\<rparr>)"
| receive_error: "sv_Phase s = Selecting \<Longrightarrow> sv_Chan s = Some e # es \<Longrightarrow>
    server_step s (ReceiveError e) (s\<lparr>sv_Phase := Ended (serving_failed e), sv_Chan := es\<rparr>)"
| receive_done: "sv_Phase s = Selecting \<Longrightarrow> sv_Done s \<Longrightarrow>
    server_step s ReceiveDone (s\<lparr>sv_Phase := ShuttingDown, sv_Down := True\<rparr>)"
| shutdown_returns: "sv_Phase s = ShuttingDown \<Longrightarrow>
    server_step s (ShutdownReturns err)
      (s\<lparr>sv_Phase := (case err of None \<Rightarrow> Awaiting | Some e \<Rightarrow> Ended (Some (wrap_error ''shutting down: '' e [])))\<rparr>)"
| receive_served: "sv_Phase s = Awaiting \<Longrightarrow> sv_Chan s = served # es \<Longrightarrow>
    server_step s (ReceiveServed served) (s\<lparr>sv_Phase := Ended (Option.bind served serving_failed), sv_Chan := es\<rparr>)"

inductive_cases server_stepE: "server_step s ev s'"

inductive server_run :: "server_event list \<Rightarrow> server \<Rightarrow> bool" where
  started: "server_run [] server_start"
| stepped: "server_run tr s \<Longrightarrow> server_step s ev s' \<Longrightarrow> server_run (tr @ [ev]) s'"

section \<open>How serving ended\<close>

text \<open>The outcome that \<open>run\<close> turns into its result, read off the events.\<close>

fun outcome_of :: "server_event list \<Rightarrow> serving option" where
  "outcome_of [] = None"
| "outcome_of (ReceiveError e # tr) = Some (Failed e)"
| "outcome_of (ShutdownReturns (Some e) # tr) = Some (Signalled (Some e) None)"
| "outcome_of (ReceiveServed served # tr) = Some (Signalled None served)"
| "outcome_of (_ # tr) = outcome_of tr"

lemma outcome_append: "outcome_of (tr @ tr') = (case outcome_of tr of None \<Rightarrow> outcome_of tr' | Some out \<Rightarrow> Some out)"
  by (induction tr rule: outcome_of.induct) simp_all

text \<open>What holds in every state that is reached.\<close>

definition server_ok :: "server_event list \<Rightarrow> server \<Rightarrow> bool" where
  "server_ok tr s \<longleftrightarrow>
     (sv_Serving s \<longrightarrow> sv_Chan s = []) \<and> length (sv_Chan s) \<le> chan_cap \<and>
     (\<not> sv_Down s \<longrightarrow> None \<notin> set (sv_Chan s)) \<and> (sv_Phase s = Selecting \<longrightarrow> \<not> sv_Down s) \<and>
     (sv_Phase s \<in> {ShuttingDown, Awaiting} \<longrightarrow> sv_Down s \<and> (sv_Serving s \<or> sv_Chan s \<noteq> [])) \<and>
     (sv_Phase s = Selecting \<longrightarrow> sv_Serving s \<or> sv_Chan s \<noteq> []) \<and>
     (sv_Done s \<longrightarrow> Signal \<in> set tr) \<and> (sv_Down s \<longrightarrow> sv_Done s) \<and>
     (case sv_Phase s of
        Ended res \<Rightarrow>
          (\<exists>out. outcome_of tr = Some out \<and> (\<forall>h :: unit. res = run (Inr h) out \<and> res = test_run (Inr h) out) \<and>
             (res = None \<longrightarrow> sv_Down s \<and> out = Signalled None None))
      | _ \<Rightarrow> outcome_of tr = None)"

lemma server_start_ok: "server_ok [] server_start"
  by (simp add: server_ok_def server_start_def)

lemma server_step_ok:
  assumes "server_ok tr s" "server_step s ev s'"
  shows "server_ok (tr @ [ev]) s'"
  using assms(2)
proof cases
  case (shutdown_returns err)
  with assms(1) show ?thesis
    by (cases err) (auto simp: server_ok_def outcome_append run_def test_run_def)
next
  case (receive_served served es)
  with assms(1) show ?thesis
    by (cases served) (auto simp: server_ok_def outcome_append run_def test_run_def serving_failed_def chan_cap_def)
qed (use assms(1) in \<open>auto simp: server_ok_def outcome_append run_def test_run_def serving_failed_def chan_cap_def
      split: main_phase.splits\<close>)

lemma server_run_ok: "server_run tr s \<Longrightarrow> server_ok tr s"
  by (induction rule: server_run.induct) (rule server_start_ok, erule (1) server_step_ok)

section \<open>The exit status\<close>

text \<open>
  \<open>main\<close> of the two services: the address is the flag's, or its default, and \<open>log.Fatal\<close> exits with 1.
\<close>

definition default_addr :: string where "default_addr = '':8080''"

definition service_flags :: "string flag_set" where
  "service_flags = [(''addr'', StringFlag (\<lambda>v addr. v))]"

definition test_default_addr :: string where "test_default_addr = '':8080''"

definition test_service_flags :: "string flag_set" where
  "test_service_flags = [(''addr'', StringFlag (\<lambda>v addr. v))]"

definition shortlink_main :: "string list \<Rightarrow> (string \<Rightarrow> error option) \<Rightarrow> int" where
  "shortlink_main args run_on =
     (case parse_flags service_flags args default_addr of
        Inl code \<Rightarrow> code | Inr addr \<Rightarrow> (case run_on addr of None \<Rightarrow> 0 | Some e \<Rightarrow> 1))"

definition testsvc_main :: "string list \<Rightarrow> (string \<Rightarrow> error option) \<Rightarrow> int" where
  "testsvc_main args run_on =
     (case parse_flags test_service_flags args test_default_addr of
        Inl code \<Rightarrow> code | Inr addr \<Rightarrow> (case run_on addr of None \<Rightarrow> 0 | Some e \<Rightarrow> 1))"

text \<open>
  Without arguments, or with an address, the status is 0 exactly after a signal that the server was shut down on without
  an error.
\<close>

lemma service_args:
  "parse_flags service_flags [] default_addr = Inr default_addr"
  "parse_flags service_flags [flag_arg ''addr'' a] default_addr = Inr a"
  "parse_flags test_service_flags [] test_default_addr = Inr test_default_addr"
  "parse_flags test_service_flags [flag_arg ''addr'' a] test_default_addr = Inr a"
  by (simp, simp add: parse_flag_arg service_flags_def del: parse_flags.simps(2),
      simp, simp add: parse_flag_arg test_service_flags_def del: parse_flags.simps(2))

lemma exit_status:
  assumes "args = [] \<or> args = [flag_arg ''addr'' a]"
  shows "shortlink_main args (\<lambda>addr. run (Inr h) out) = 0 \<longleftrightarrow> out = Signalled None None"
    "testsvc_main args (\<lambda>addr. test_run (Inr h) out) = 0 \<longleftrightarrow> out = Signalled None None"
  using assms service_args(1,3) service_args(2,4) [of a]
  by (auto simp: shortlink_main_def testsvc_main_def run_def test_run_def split: serving.splits option.splits)

text \<open>
  The port a service listens on that is started with these arguments: the one after the colon of its address.
\<close>

definition address_port :: "string \<Rightarrow> int option" where
  "address_port addr =
     (let port = drop 1 (dropWhile (\<lambda>c. c \<noteq> CHR '':'') addr)
      in if port \<noteq> [] \<and> list_all is_digit port then Some (digits_val port) else None)"

definition shortlink_port :: "string list \<Rightarrow> int option" where
  "shortlink_port args =
     (case parse_flags service_flags args default_addr of Inl code \<Rightarrow> None | Inr addr \<Rightarrow> address_port addr)"

definition testsvc_port :: "string list \<Rightarrow> int option" where
  "testsvc_port args =
     (case parse_flags test_service_flags args test_default_addr of Inl code \<Rightarrow> None | Inr addr \<Rightarrow> address_port addr)"

lemma default_ports: "shortlink_port [] = Some 8080" "testsvc_port [] = Some 8080"
  by code_simp+

section \<open>Shutting down\<close>

text \<open>The steps that are left: the end of the server, the signal, and the main goroutine's.\<close>

fun phase_left :: "main_phase \<Rightarrow> nat" where
  "phase_left Selecting = 3"
| "phase_left ShuttingDown = 2"
| "phase_left Awaiting = 1"
| "phase_left (Ended res) = 0"

definition server_left :: "server \<Rightarrow> nat" where
  "server_left s = (if sv_Serving s then 1 else 0) + (if sv_Done s then 0 else 1) + phase_left (sv_Phase s)"

lemma server_step_less: "server_step s ev s' \<Longrightarrow> server_left s' < server_left s"
  by (erule server_stepE) (auto simp: server_left_def split: option.splits)

lemma server_run_length: "server_run tr s \<Longrightarrow> length tr + server_left s \<le> 5"
proof (induction rule: server_run.induct)
  case (stepped tr s ev s')
  then show ?case using server_step_less [of s ev s'] by simp
qed (simp add: server_left_def server_start_def)

text \<open>Once the context is done, something other than a failure of the server can always happen until \<open>run\<close> has returned.\<close>

lemma server_enabled:
  assumes "server_ok tr s" "sv_Done s" "\<And>res. sv_Phase s \<noteq> Ended res"
  shows "\<exists>ev s'. server_step s ev s' \<and> (\<forall>e. ev \<noteq> ServeFails e)"
proof (cases "sv_Phase s")
  case Selecting
  from server_step.receive_done [OF this assms(2)] show ?thesis by blast
next
  case ShuttingDown
  from server_step.shutdown_returns [OF this, of None] show ?thesis by blast
next
  case Awaiting
  with assms(1) have "sv_Down s" "sv_Serving s \<and> sv_Chan s = [] \<or> sv_Chan s \<noteq> []"
    by (auto simp: server_ok_def)
  then show ?thesis
    using server_step.serve_closes [of s] server_step.receive_served [OF Awaiting]
    by (auto simp: chan_cap_def neq_Nil_conv)
qed (use assms(3) in blast)

text \<open>
  C30: both services end when they are told to, whatever the goroutines' interleaving. The server's goroutine never
  blocks on its send; once the signal has come there is always a step to take until \<open>run\<close> has returned, and no more than
  five events happen in all; and what it has returned is the result of \<open>run\<close> for how serving ended, which is
  no error only after a signal and a server that closed.
\<close>

theorem shutdown_completes:
  assumes "server_run tr s"
  shows "(sv_Serving s \<longrightarrow> length (sv_Chan s) < chan_cap) \<and> length tr \<le> 5 \<and>
     (sv_Done s \<longrightarrow> (\<exists>res. sv_Phase s = Ended res) \<or> (\<exists>ev s'. server_step s ev s' \<and> (\<forall>e. ev \<noteq> ServeFails e))) \<and>
     (\<forall>res. sv_Phase s = Ended res \<longrightarrow>
        (\<exists>out. outcome_of tr = Some out \<and> res = run (Inr ()) out \<and> res = test_run (Inr ()) out \<and>
           (res = None \<longrightarrow> Signal \<in> set tr \<and> out = Signalled None None)))"
proof (intro conjI impI allI)
  note ok = server_run_ok [OF assms]
  show "sv_Serving s \<Longrightarrow> length (sv_Chan s) < chan_cap" using ok by (simp add: server_ok_def chan_cap_def)
  show "length tr \<le> 5" using server_run_length [OF assms] by simp
  show "(\<exists>res. sv_Phase s = Ended res) \<or> (\<exists>ev s'. server_step s ev s' \<and> (\<forall>e. ev \<noteq> ServeFails e))" if "sv_Done s"
    using server_enabled [OF ok that] by blast
  show "\<exists>out. outcome_of tr = Some out \<and> res = run (Inr ()) out \<and> res = test_run (Inr ()) out \<and>
      (res = None \<longrightarrow> Signal \<in> set tr \<and> out = Signalled None None)" if "sv_Phase s = Ended res" for res
    using ok that by (auto simp: server_ok_def)
qed

text \<open>A service that is told to end while it serves, and does.\<close>

definition clean_exit :: "server_event list" where
  "clean_exit = [Signal, ReceiveDone, ServeCloses, ShutdownReturns None, ReceiveServed None]"

lemma clean_exit_runs:
  "server_run clean_exit \<lparr>sv_Phase = Ended None, sv_Serving = False, sv_Chan = [], sv_Done = True, sv_Down = True\<rparr>"
proof -
  note run = server_run.started
  have "server_run ([] @ [Signal]) (server_start\<lparr>sv_Done := True\<rparr>)"
    by (rule stepped [OF run], rule signalled) (simp add: server_start_def)
  from stepped [OF this receive_done] have "server_run ([Signal] @ [ReceiveDone])
      (server_start\<lparr>sv_Done := True, sv_Phase := ShuttingDown, sv_Down := True\<rparr>)" by (simp add: server_start_def)
  from stepped [OF this serve_closes] have "server_run (([Signal] @ [ReceiveDone]) @ [ServeCloses])
      (server_start\<lparr>sv_Done := True, sv_Phase := ShuttingDown, sv_Down := True, sv_Serving := False, sv_Chan := [None]\<rparr>)"
    by (simp add: server_start_def chan_cap_def)
  from stepped [OF this shutdown_returns [where err = None]]
  have "server_run ((([Signal] @ [ReceiveDone]) @ [ServeCloses]) @ [ShutdownReturns None])
      (server_start\<lparr>sv_Done := True, sv_Down := True, sv_Serving := False, sv_Chan := [None], sv_Phase := Awaiting\<rparr>)"
    by (simp add: server_start_def)
  from stepped [OF this receive_served [where served = None and es = "[]"]] show ?thesis
    by (simp add: server_start_def clean_exit_def)
qed

theorem shutdown_completes_witness:
  "server_run clean_exit \<lparr>sv_Phase = Ended None, sv_Serving = False, sv_Chan = [], sv_Done = True, sv_Down = True\<rparr> \<and>
   outcome_of clean_exit = Some (Signalled None None) \<and> run (Inr ()) (Signalled None None) = None"
  using shutdown_completes [OF clean_exit_runs] clean_exit_runs by auto

end
