(* ===== verification/Spec2Isabelle.thy ===== *)
theory Spec2Isabelle
  imports Api_DeepCopy Builders_Read Ctl_Storage Webhook Ctl_Reconcile Freeze_Cache Ctl_Lifecycle
    Ctl_Isolation Ctl_Accept Cmd_Main Api_Register Svc_Shutdown
begin

text \<open>
  A verification of Paved, a Kubernetes operator written in Go. A ServiceClaim names an image, a tier
  and an SLO. The controller turns it into a namespace full of objects, reads the claim's error budget
  from Prometheus, freezes deploys when the budget is spent, and records all of it in the claim's status;
  a validating webhook rejects image changes of a frozen claim unless they carry a break-glass reason.

  \<^bold>\<open>The parts and how they meet.\<close> \<open>internal/slo\<close> holds the arithmetic of error budgets and the
  PromQL of recording rules and burn-rate alerts. \<open>internal/builders\<close> turns a claim into objects and
  uses the rules. \<open>internal/controller\<close> applies the objects, evaluates the SLO, decides the freeze and
  writes the status. \<open>internal/webhook\<close> reads only that status. Controller and webhook share nothing but the
  stored claim. \<open>cmd/main.go\<close> puts both into one process. \<open>services/shortlink\<close> and \<open>examples/testsvc\<close> are services that
  a claim runs: they serve the probes and the metrics that the objects and the rules of a claim rely on.

  \<^bold>\<open>The theories.\<close>

  \<^item> \<open>Paved_Prelude\<close>: Go errors as values, the result type \<open>error + 'a\<close>, loops that stop at an error,
    map lookups with Go's zero value.

  \<^item> \<open>Go_Float\<close>, \<open>Go_Strings\<close>, \<open>Go_Strconv\<close>, \<open>Go_Time\<close>, \<open>Go_Sha256\<close>, \<open>Go_Flag\<close>, \<open>Go_Json\<close>, \<open>Go_Json_Read\<close>, \<open>Go_Json_Decode\<close>, \<open>Go_Url\<close>: what the sources
    use of the standard library. \<open>float64\<close> is a rational that binary64 represents, an infinity or NaN, with
    rounding to nearest even; SHA-256 works on 32-bit words; durations wrap at 64 bits; a command line sets flags or ends
    the process; what the JSON encoders write is read back by a reader of JSON texts, and a string in an object is decoded
    to what was encoded; a URL is taken apart and put together as package \<open>net/url\<close> of Go 1.26 does, the text of an absolute
    URL can stand in a header, and an ordinary web URL comes out as it went in.

  \<^item> \<open>Api_Types\<close>: \<open>api/v1alpha1/serviceclaim_types.go\<close>, its records and what its markers make the API
    server validate.

  \<^item> \<open>Go_Memory\<close>, \<open>Api_DeepCopy\<close>: \<open>api/v1alpha1/zz_generated.deepcopy.go\<close> over a memory of cells with addresses. The locale
    \<open>deep_copy\<close> is what a deep copy promises, and every generated copy is one: it shares no memory with its original.

  \<^item> \<open>Slo_Budget\<close>, \<open>Slo_Rules\<close>, \<open>Slo_Alerts\<close>, \<open>Slo_Prometheus\<close>: the files of \<open>internal/slo\<close>. A budget is exact;
    a spent share is in \<open>[0, 1]\<close>, antitone in the error ratio and 0 exactly when the ratio reaches the
    budget; every alert compares with a number whose text is exactly burn rate times budget.

  \<^item> \<open>K8s_Objects\<close>, \<open>Builders_Core\<close>, \<open>Builders_Storage\<close>, \<open>Builders_Workload\<close>, \<open>Builders_Docs\<close>, \<open>Builders_Set\<close>, \<open>Builders_Read\<close>: the
    files of \<open>internal/builders\<close>. \<open>Build\<close> yields exactly the objects of the tier, the namespace first, labelled
    with the claim, with every reference between them resolved, but for the ServiceMonitor of a claim without a Service; claims of different
    names never share an object. What the network policy lets in and what the storage role lets pods do is stated by the meaning
    that Kubernetes and AWS give to them: \<open>policy_admits\<close> reads every field of a policy, \<open>may_assume\<close> and \<open>may_do\<close> the
    statements of a role against the token that the built pod carries. The locale \<open>object_set\<close> is what the controller relies on, interpreted on \<open>Build\<close>. The dashboard
    and the policies inside the objects read back as what they were made of.

  \<^item> \<open>Apimachinery\<close>: the locale \<open>status_conditions\<close> of what the code relies on in package \<open>meta\<close> of
    apimachinery, interpreted on functions written from its documentation.

  \<^item> \<open>Ctl_Slo\<close>, \<open>Ctl_Storage\<close>: the decisions in \<open>slo_status.go\<close>, \<open>freeze.go\<close>, \<open>storage.go\<close> and \<open>drift.go\<close>.

  \<^item> \<open>Ctl_Reconcile\<close>: \<open>serviceclaim_controller.go\<close>, \<open>apply.go\<close> and the calls of \<open>drift.go\<close> and \<open>storage.go\<close>. A
    reconcile is a computation over the history of its calls to the API server.

  \<^item> \<open>Webhook\<close>: \<open>internal/webhook/v1alpha1/serviceclaim_webhook.go\<close>.

  \<^item> \<open>Freeze_Cycle\<close>: what the controller and the webhook each do to the one stored claim. \<open>Freeze_Cache\<close>: their
    interleavings as a step relation, in which a reconcile may have read any version of the claim that a cache still shows.

  \<^item> \<open>Ctl_Lifecycle\<close>: what the controller does over several reconciles and events: its own writes do not wake it,
    the Events it records are the corrections it made, a deletion completes. The locale \<open>update_predicates\<close> is what
    it relies on in controller-runtime's predicates. \<open>Ctl_Namesakes\<close>: two claims of one name in different namespaces,
    which build the same namespace and take it from each other.

  \<^item> \<open>Ctl_Orphans\<close>: the reconciles of a claim interleaved, call by call, with the other writers of the claim and its
    namespace, with caches that are late, with lost answers and with crashes. A namespace never outlives its claim as
    long as the controller is not told wrongly that the namespace is gone or another claim's; with a late cache it can. And
    a delete can hit a namespace that another claim took over after it was read.

  \<^item> \<open>Ctl_Converge\<close>: the objects the cluster holds after a reconcile. A successful one leaves the built objects over
    what was there, which a second one does not change; it never removes what is built no more. \<open>Ctl_Isolation\<close>:
    reconciles of claims of different names commute, and a deletion takes what any version of the claim built and nothing else.
    \<open>Ctl_Accept\<close>: the names and label values the API server takes, and which claims have objects that it does not: those
    fail every reconcile.

  \<^item> \<open>Cmd_Main\<close>: \<open>cmd/main.go\<close>, from the command line, the environment and the cluster to a running manager or the
    message it exits with. The cache of the manager, the watches and the builders agree. \<open>Api_Register\<close>:
    \<open>groupversion_info.go\<close>, how the kinds of the API get into a scheme; the locale \<open>scheme_laws\<close> is what it relies on in
    package \<open>runtime\<close> of apimachinery.

  \<^item> \<open>Svc_Contract\<close>: requests, responses and metrics of the two services. The locale \<open>counted_service\<close> is the
    contract that the series an SLO reads exist before they are counted in; \<open>prom_labels\<close> is how promhttp labels a request.

  \<^item> \<open>Shortlink_Store\<close>, \<open>Shortlink_Handler\<close>: \<open>services/shortlink\<close>. The store is shared by goroutines, whose steps
    interleave at the lock; adds refine an atomic store that answers every request in one step, they return, and never give a
    code away twice. The locale
    \<open>link_store\<close> is what the handlers rely on. Both services are \<open>sublocale\<close>s of the contract. Every redirect leads to
    a web URL in printable ASCII, whatever was posted.

  \<^item> \<open>Testsvc\<close>: \<open>examples/testsvc/main.go\<close>. \<open>Svc_Shutdown\<close>: \<open>run\<close> of both services as two goroutines, a channel and a
    signal, which refine the function \<open>run\<close>, never block for good and end after at most five events.

  \<^bold>\<open>Parameters.\<close> Code outside the repository is an argument: the API server and Prometheus are a \<open>world\<close> whose
  answer to each call is any function of the history, so that failures and other writers are covered;
  package \<open>meta\<close> is a record of functions with the laws of \<open>status_conditions\<close>; conversion to unstructured
  content is a record \<open>converter\<close>, of which theorems on the status assume that a condition keeps its fields;
  that the API server takes only acceptable names and labels is an assumption of \<open>Ctl_Accept\<close>, from the documentation of Kubernetes;
  controller-runtime's predicates have the laws of \<open>update_predicates\<close> and promhttp's labels those of
  \<open>prom_labels\<close>; the copies of \<open>metav1\<close>'s own types have the laws of \<open>meta_deep_copies\<close>; ACK's status, the REST
  mapper, the manager, the logger's flags, the random bytes and the reader of IP addresses in brackets are arguments without laws. The mux of \<open>net/http\<close> is modelled on clean paths, given by their segments, and a
  histogram by the number of its observations.

  \<^bold>\<open>Bounds.\<close> Only the JSON readers use fuel: the length of the text for \<open>read_json\<close>, which is proved to read back what is
  written, and twice the length for \<open>Decode\<close>, from where on more changes nothing (\<open>scan_fuel\<close>). Loops of the
  sources are structural recursions over lists, or over a number with its measure. Integers are \<open>int\<close> where
  the sources cannot overflow and wrap where they can, in durations.

  \<^bold>\<open>Reading the theorems on the freeze over time.\<close> The controller is the only writer of conditions and
  works on one claim at a time, but it reads through a cache and writes by force. \<open>cached_step\<close> lets a reconcile decide on
  any version of the claim that was stored since the start of the run or is among those that caches may show at its
  start (\<open>versions\<close>). Where these versions agree on the freeze at the start, it changes only by a measurement
  (\<open>freeze_hysteresis\<close>); where they differ, a reconcile that read an old one can end it or begin it, and
  \<open>stale_read_unfreezes\<close> is a freeze that ends without a measurement. The audit trail holds all the same. All of this is
  about a claim while it exists: the webhook admits every deletion and creation.

  \<^bold>\<open>Reading the theorems on deletion.\<close> \<open>reachable current r k s\<close> is a state of the API server on the way of any number of
  reconciles of claim \<open>k\<close>, one after the other as the work queue has them. The claim is always read as a cache shows it,
  which lags behind but never goes back. So is the namespace when \<open>current\<close> is false: the cache shows the oldest version it has
  not passed (\<open>cl_Older\<close>, \<open>shown\<close>), and a read past the cache would show the stored one. With \<open>current\<close> an answer that lets the
  finalizer go is true when it is given, and any other may be anything; \<open>finalize\<close> reads the namespace through the cache, which
  does not guarantee that. Nobody else touches the controller's finalizer or puts the claim's labels on a namespace.

  \<^bold>\<open>Not modelled.\<close> Logging; what the manager does with what is registered with it; the HTTP
  client of Prometheus; the effects of the registration of other groups' types; the wall clock.

  This theory holds the properties that span components: controller and webhook, and the services on what the
  builders and the rules expect of them.
\<close>

text \<open>
  C4: the freeze over time. Over every sequence of admitted user updates and status writes of reconciles, in every
  world, each reconcile reading the stored claim or any version of it that a cache may still show: if none of these
  versions is frozen at the start, the claim is frozen at the end only if a reconcile measured no budget left, and if all of
  them are frozen, it is not frozen at the end only if a reconcile measured at least 5% of the budget. Where they differ,
  a freeze ends, or begins, only with such a measurement or with a reconcile that read an unfrozen, or a frozen, version.
\<close>

theorem freeze_hysteresis:
  assumes "status_conditions (rc_Meta r)" and "\<And>c. ConditionToUnstructured (rc_Convert r) c = Inr c"
    and "cached_run r s ts s'"
  shows "(none_frozen r s \<and> frozen_now r s' \<longrightarrow> (\<exists>t \<in> set ts. budget_spent t)) \<and>
         (all_frozen r s \<and> \<not> frozen_now r s' \<longrightarrow> (\<exists>t \<in> set ts. budget_back t)) \<and>
         (\<not> frozen_now r s \<and> frozen_now r s' \<longrightarrow> (\<exists>t \<in> set ts. budget_spent t \<or> read_frozen r t)) \<and>
         (frozen_now r s \<and> \<not> frozen_now r s' \<longrightarrow> (\<exists>t \<in> set ts. budget_back t \<or> read_unfrozen r t))"
  using agreed_run [OF assms] agreed_now run_changes [OF assms] by blast

text \<open>
  A reconcile that is told that every request failed freezes the example claim, and one that is told that none did ends
  its freeze.
\<close>

theorem freeze_hysteresis_witness:
  "\<exists>w s' w' s''. none_frozen (measuring_reconciler True) \<lparr>ca_Cluster = \<lparr>cl_Claim = example_claim, cl_Audit = []\<rparr>, ca_Past = []\<rparr> \<and>
     cached_run (measuring_reconciler True) \<lparr>ca_Cluster = \<lparr>cl_Claim = example_claim, cl_Audit = []\<rparr>, ca_Past = []\<rparr>
       [StatusWrite w example_claim] s' \<and>
     frozen_now (measuring_reconciler True) s' \<and> budget_spent (StatusWrite w example_claim) \<and>
     all_frozen (measuring_reconciler True) \<lparr>ca_Cluster = \<lparr>cl_Claim = frozen_later, cl_Audit = []\<rparr>, ca_Past = []\<rparr> \<and>
     cached_run (measuring_reconciler True) \<lparr>ca_Cluster = \<lparr>cl_Claim = frozen_later, cl_Audit = []\<rparr>, ca_Past = []\<rparr>
       [StatusWrite w' frozen_later] s'' \<and>
     \<not> frozen_now (measuring_reconciler True) s'' \<and> budget_back (StatusWrite w' frozen_later)"
proof -
  let ?r = "measuring_reconciler True"
  let ?s = "\<lparr>ca_Cluster = \<lparr>cl_Claim = example_claim, cl_Audit = []\<rparr>, ca_Past = []\<rparr>"
  let ?f = "\<lparr>ca_Cluster = \<lparr>cl_Claim = frozen_later, cl_Audit = []\<rparr>, ca_Past = []\<rparr>"
  obtain s' where step: "cached_step ?r ?s (StatusWrite (measuring (Fin 1) example_claim) example_claim) s'" and now: "frozen_now ?r s'"
    by (rule example_freezes)
  obtain s'' where step': "cached_step ?r ?f (StatusWrite (measuring (Fin 0) frozen_later) frozen_later) s''" and now': "\<not> frozen_now ?r s''"
    by (rule example_unfreezes)
  note run = cached_again [OF step cached_idle] and run' = cached_again [OF step' cached_idle]
  have "budget_spent (StatusWrite (measuring (Fin 1) example_claim) example_claim)"
    using freeze_hysteresis [OF measuring_reconciler_laws run] example_agreed(1) now by simp
  moreover have "budget_back (StatusWrite (measuring (Fin 0) frozen_later) frozen_later)"
    using freeze_hysteresis [OF measuring_reconciler_laws run'] example_agreed(2) now' by simp
  ultimately show ?thesis using example_agreed run run' now now' by blast
qed

section \<open>Services on the platform\<close>











end
